theory Spec2Isabelle
  imports Main "HOL-Library.Word" "HOL-Library.Signed_Division"
begin

section \<open>Fragment executor of the pipeline engine\<close>

text \<open>
  A shallow embedding of \<^verbatim>\<open>be/src/exec/pipeline/fragment_executor.cpp\<close>.
  Thrift fields guarded by \<^verbatim>\<open>__isset\<close> are options, \<^verbatim>\<open>Status\<close> is a datatype,
  every \<^verbatim>\<open>RETURN_IF_ERROR\<close> is a branch, and the objects the executor mutates
  (query context, fragment context, scan nodes, pipelines) are records passed
  through the functions and returned updated.
\<close>

subsection \<open>Status\<close>

text \<open>
  \<^verbatim>\<open>Status\<close> without its message. \<open>DuplicateRpcInvocation\<close> and \<open>Cancelled\<close> are the
  two codes this file creates itself; \<open>ResourceExhausted\<close> is the admission failure of
  the driver limiter; \<open>CollaboratorError n\<close> stands for any other status handed back
  by a collaborator and passed through unchanged. \<open>NullPointerDereference\<close> and
  \<open>ArithmeticTrap\<close> are not statuses of the program: the first is how the model
  records that a function was entered with a member pointer still null, where the C++
  would dereference it, the second that an integer division trapped (a zero divisor,
  or \<^verbatim>\<open>INT64_MIN / -1\<close>), where the C++ run ends. A \<^verbatim>\<open>StatusOr<T>\<close> is \<open>ErrorCode + T\<close>.
\<close>

datatype ErrorCode =
  DuplicateRpcInvocation | Cancelled | ResourceExhausted | CollaboratorError nat
  | NullPointerDereference | ArithmeticTrap

datatype Status = OK | Error ErrorCode

subsection \<open>Request\<close>

text \<open>
  The part of \<^verbatim>\<open>TQueryOptions\<close> read by the functions below. Both timeouts are
  32-bit Thrift integers; only \<^verbatim>\<open>std::min\<close> and \<^verbatim>\<open>std::max\<close> are applied to them, so
  no arithmetic can leave the 32-bit range and they are modelled as \<^typ>\<open>int\<close>.
\<close>

datatype TTabletInternalParallelMode = AUTO | FORCE_SPLIT

record TQueryOptions =
  query_timeout :: "int option"
  query_delivery_timeout :: "int option"
  enable_tablet_internal_parallel :: "bool option"
  tablet_internal_parallel_mode :: "TTabletInternalParallelMode option"
  enable_spill :: "bool option"

text \<open>Query options with every field unset.\<close>

definition TQueryOptions_unset :: TQueryOptions where
  "TQueryOptions_unset =
     \<lparr>query_timeout = None, query_delivery_timeout = None,
      enable_tablet_internal_parallel = None, tablet_internal_parallel_mode = None,
      enable_spill = None\<rparr>"

datatype TUniqueId = TUniqueId (hi: int) (lo: int)

type_synonym TPlanNodeId = int

type_synonym bytes = "8 word list"

record TInternalScanRange =
  tablet_id :: "64 word"
  partition_id :: "64 word"

record TScanRange =
  internal_scan_range :: "TInternalScanRange option"

record TScanRangeParams =
  scan_range :: TScanRange

text \<open>
  \<^verbatim>\<open>PerDriverScanRangesMap\<close> is a \<^verbatim>\<open>std::map\<close> from driver sequence to scan ranges; it
  is iterated in the order of its entries, so it is an association list.
\<close>

type_synonym PerDriverScanRangesMap = "(int \<times> TScanRangeParams list) list"

record TCacheParam =
  tcache_id :: int
  tcache_digest :: bytes
  tcache_force_populate :: bool
  tcache_entry_max_bytes :: int
  tcache_entry_max_rows :: int
  tcache_slot_remapping :: "(int \<times> int) list"
  tcache_can_use_multiversion :: bool
  tcache_keys_type :: int
  tcache_cached_plan_node_ids :: "TPlanNodeId list option"
  tcache_region_map :: "64 word \<rightharpoonup> bytes"

text \<open>A default-constructed \<^verbatim>\<open>TCacheParam\<close>: what \<^verbatim>\<open>fragment.cache_param\<close> holds when unset.\<close>

definition TCacheParam_default :: TCacheParam where
  "TCacheParam_default =
     \<lparr>tcache_id = 0, tcache_digest = [], tcache_force_populate = False,
      tcache_entry_max_bytes = 0, tcache_entry_max_rows = 0, tcache_slot_remapping = [],
      tcache_can_use_multiversion = False, tcache_keys_type = 0,
      tcache_cached_plan_node_ids = None, tcache_region_map = Map.empty\<rparr>"

text \<open>
  \<^verbatim>\<open>UnifiedExecPlanFragmentParams\<close>: the common and the per-instance request, with the
  fields the executor reads.
\<close>

record UnifiedExecPlanFragmentParams =
  query_id :: TUniqueId
  fragment_instance_id :: TUniqueId
  instances_number :: "int option"
  query_options :: TQueryOptions
  is_stream_pipeline :: bool
  adaptive_dop_param :: "(int \<times> int) option"
  enable_shared_scan :: "bool option"
  cache_param :: "TCacheParam option"
  per_node_scan_ranges :: "TPlanNodeId \<rightharpoonup> TScanRangeParams list"
  node_to_per_driver_seq_scan_ranges :: "(TPlanNodeId \<rightharpoonup> PerDriverScanRangesMap) option"
  pipeline_dop :: int
  pipeline_sink_dop :: int
  desc_tbl_is_cached :: "bool option"
  isset_query_global_dicts :: bool
  isset_query_global_dict_exprs :: bool
  isset_load_global_dicts :: bool
  request_workgroup_id :: "int option"
  isset_output_sink :: bool
  output_sink_is_final :: bool

text \<open>\<^verbatim>\<open>UnifiedExecPlanFragmentParams::scan_ranges_of_node\<close>.\<close>

definition scan_ranges_of_node :: "UnifiedExecPlanFragmentParams \<Rightarrow> TPlanNodeId \<Rightarrow> TScanRangeParams list" where
  "scan_ranges_of_node request node_id =
     (case per_node_scan_ranges request node_id of Some rs \<Rightarrow> rs | None \<Rightarrow> [])"

text \<open>\<^verbatim>\<open>UnifiedExecPlanFragmentParams::per_driver_seq_scan_ranges_of_node\<close>.\<close>

definition per_driver_seq_scan_ranges_of_node ::
  "UnifiedExecPlanFragmentParams \<Rightarrow> TPlanNodeId \<Rightarrow> PerDriverScanRangesMap" where
  "per_driver_seq_scan_ranges_of_node request node_id =
     (case node_to_per_driver_seq_scan_ranges request of
        None \<Rightarrow> []
      | Some m \<Rightarrow> (case m node_id of Some rs \<Rightarrow> rs | None \<Rightarrow> []))"

subsection \<open>Plan, pipelines and contexts\<close>

text \<open>
  A scan node of the plan tree: its plan-node id, its limit (\<^verbatim>\<open>int64_t\<close>), the number of
  io tasks per scan operator (\<^verbatim>\<open>int\<close>) and the shared-scan flag that
  \<^verbatim>\<open>enable_shared_scan\<close> sets. Signed machine integers are words, read by \<open>sint\<close>.
\<close>

record ScanNode =
  node_id :: TPlanNodeId
  limit :: "64 word"
  io_tasks_per_scan_operator :: "32 word"
  shared_scan :: bool

record MorselQueueFactory =
  is_shared :: bool

text \<open>\<^verbatim>\<open>CacheParam\<close> of the fragment context.\<close>

record CacheParam =
  plan_node_id :: int
  digest :: bytes
  force_populate :: bool
  entry_max_bytes :: int
  entry_max_rows :: int
  slot_remapping :: "int \<rightharpoonup> int"
  reverse_slot_remapping :: "int \<rightharpoonup> int"
  can_use_multiversion :: bool
  keys_type :: int
  cached_plan_node_ids :: "TPlanNodeId set"
  num_lanes :: int
  cache_key_prefixes :: "64 word \<rightharpoonup> bytes"

text \<open>
  Source operator factories, pipelines and events are objects reached through
  pointers: a leader is named by several pipelines, and an event by its dependants.
  They live in stores indexed by address, and the fragment context holds the stores.
\<close>

type_synonym op_addr = nat
type_synonym pipeline_addr = nat
type_synonym event_addr = nat

text \<open>
  The event made by \<^verbatim>\<open>Event::create_collect_stats_source_initialize_event\<close>: the
  pipelines it will instantiate and the events added with \<^verbatim>\<open>add_dependency\<close>, in the
  order of the calls.
\<close>

record Event =
  event_pipelines :: "pipeline_addr list"
  dependencies :: "event_addr list"

record SourceOperatorFactory =
  with_morsels :: bool
  source_plan_node_id :: TPlanNodeId
  is_adaptive_group_initial_active :: bool
  group_leader :: op_addr
  adaptive_blocking_event :: "event_addr option"
  group_dependent_pipelines :: "pipeline_addr list"
  morsel_queue_factory :: "MorselQueueFactory option"
  group_initialize_event :: "Event option"

datatype Driver = Driver pipeline_addr nat

record Pipeline =
  source_operator_factory :: op_addr
  degree_of_parallelism :: nat
  pipeline_event :: event_addr
  drivers :: "Driver list"

record WorkGroup =
  wg_id :: int
  big_query_scan_rows_limit :: "64 word"

record FragmentContext =
  fc_query_id :: TUniqueId
  fc_fragment_instance_id :: TUniqueId
  fc_is_stream_pipeline :: bool
  enable_adaptive_dop :: bool
  fc_adaptive_dop_param :: "int \<times> int"
  workgroup :: "WorkGroup option"
  pass_through_chunk_buffer :: bool
  scan_nodes :: "ScanNode list"
  enable_cache :: bool
  fc_cache_param :: CacheParam
  morsel_queue_factories :: "TPlanNodeId \<rightharpoonup> MorselQueueFactory"
  pipelines :: "pipeline_addr list"
  pipeline_store :: "pipeline_addr \<Rightarrow> Pipeline"
  op_store :: "op_addr \<Rightarrow> SourceOperatorFactory"
  driver_token :: "nat option"

text \<open>
  A fragment context as \<^verbatim>\<open>std::make_shared<FragmentContext>()\<close> leaves it. The member
  initialisers are in a header outside the source at hand; the flags start false and
  the containers empty. The two stores start with whatever objects the addresses
  will later hold; the pipeline builder fills them.
\<close>

definition FragmentContext_new ::
  "(pipeline_addr \<Rightarrow> Pipeline) \<Rightarrow> (op_addr \<Rightarrow> SourceOperatorFactory) \<Rightarrow> FragmentContext" where
  "FragmentContext_new ps ops =
     \<lparr>fc_query_id = TUniqueId 0 0, fc_fragment_instance_id = TUniqueId 0 0,
      fc_is_stream_pipeline = False, enable_adaptive_dop = False,
      fc_adaptive_dop_param = (0, 0), workgroup = None, pass_through_chunk_buffer = False,
      scan_nodes = [], enable_cache = False,
      fc_cache_param =
        \<lparr>plan_node_id = 0, digest = [], force_populate = False, entry_max_bytes = 0,
         entry_max_rows = 0, slot_remapping = Map.empty, reverse_slot_remapping = Map.empty,
         can_use_multiversion = False, keys_type = 0, cached_plan_node_ids = {},
         num_lanes = 0, cache_key_prefixes = Map.empty\<rparr>,
      morsel_queue_factories = Map.empty, pipelines = [], pipeline_store = ps,
      op_store = ops, driver_token = None\<rparr>"

text \<open>
  The query context: the fragment registry (\<^verbatim>\<open>fragment_mgr\<close>), the count of live
  fragments, the expire seconds and the two deadlines, the scan limit and the flags
  set during preparation.
\<close>

record QueryContext =
  fragment_mgr :: "TUniqueId \<rightharpoonup> FragmentContext"
  num_active_fragments :: nat
  total_fragments :: "int option"
  delivery_expire_seconds :: int
  query_expire_seconds :: int
  delivery_deadline :: int
  query_deadline :: int
  query_inited :: bool
  desc_tbl :: bool
  scan_limit :: "64 word"
  is_final_sink :: bool
  is_prepared :: bool

record DriverLimiter =
  max_num_drivers :: nat
  num_total_drivers :: nat
  requests :: "nat list"

text \<open>
  The state the executor works on: the process-wide objects reached through
  \<^verbatim>\<open>ExecEnv\<close> (query context manager, driver limiter, the run queue of the driver
  executor and the drivers prepared so far) and the executor's own members
  \<^verbatim>\<open>_query_ctx\<close>, \<^verbatim>\<open>_fragment_ctx\<close> and \<^verbatim>\<open>_wg\<close>. \<^verbatim>\<open>_query_ctx\<close> is a raw pointer into the
  manager and is modelled by the key of the query context it points to.
\<close>

record State =
  query_context_mgr :: "TUniqueId \<rightharpoonup> QueryContext"
  driver_limiter :: DriverLimiter
  run_queue :: "Driver list"
  prepared_drivers :: "Driver list"
  this_query_ctx :: "TUniqueId option"
  this_fragment_ctx :: "FragmentContext option"
  this_wg :: "WorkGroup option"

subsection \<open>Collaborators\<close>

text \<open>
  What the executor obtains from code outside this file: two constants, the clock,
  and the outcome of every call into a collaborator (memory trackers, descriptor
  tables, the plan-tree and sink constructors, the pipeline builder, the scan nodes'
  morsel-queue conversion, the drivers). An outcome is fixed per run; the executor
  only branches on it. The pipeline builder answers with the pipelines it built
  (\<open>builder_build\<close>) and with the pipeline and source-operator-factory objects behind
  their addresses.
\<close>

record Collaborators =
  DEFAULT_EXPIRE_SECONDS :: int
  query_cache_num_lanes_per_driver :: int
  clock_now :: int
  chunk_size :: "32 word"
  check_mem_limit :: Status
  init_query_once :: Status
  DescriptorTbl_create :: Status
  init_spill_manager :: Status
  init_query_global_dict :: Status
  init_query_global_dict_exprs :: Status
  init_load_global_dict :: Status
  calc_pipeline_dop :: "int \<Rightarrow> nat"
  calc_pipeline_sink_dop :: "int \<Rightarrow> nat"
  create_tree :: "ErrorCode + ScanNode list"
  convert_scan_range_to_morsel_queue_factory ::
    "ScanNode \<Rightarrow> TScanRangeParams list \<Rightarrow> PerDriverScanRangesMap \<Rightarrow> TPlanNodeId \<Rightarrow> nat \<Rightarrow> bool
       \<Rightarrow> TTabletInternalParallelMode \<Rightarrow> ErrorCode + MorselQueueFactory"
  DEFAULT_WG_ID :: int
  DEFAULT_MV_WG_ID :: int
  get_default_workgroup :: WorkGroup
  get_default_mv_workgroup :: WorkGroup
  add_workgroup :: "int \<Rightarrow> WorkGroup"
  create_data_sink :: Status
  decompose_data_sink_to_pipeline :: Status
  builder_build :: "pipeline_addr list"
  builder_pipelines :: "pipeline_addr \<Rightarrow> Pipeline"
  builder_op_factories :: "op_addr \<Rightarrow> SourceOperatorFactory"
  prepare_all_pipelines :: Status
  prepare_stream_load_pipe :: Status
  driver_prepare :: "Driver \<Rightarrow> Status"

text \<open>\<^verbatim>\<open>_calc_dop\<close> and \<^verbatim>\<open>_calc_sink_dop\<close>.\<close>

definition calc_dop :: "Collaborators \<Rightarrow> UnifiedExecPlanFragmentParams \<Rightarrow> nat" where
  "calc_dop exec_env request = calc_pipeline_dop exec_env (pipeline_dop request)"

definition calc_sink_dop :: "Collaborators \<Rightarrow> UnifiedExecPlanFragmentParams \<Rightarrow> nat" where
  "calc_sink_dop exec_env request = calc_pipeline_sink_dop exec_env (pipeline_sink_dop request)"

subsection \<open>Deadlines\<close>

text \<open>
  \<^verbatim>\<open>_calc_delivery_expired_seconds\<close>. The constant
  \<^verbatim>\<open>QueryContext::DEFAULT_EXPIRE_SECONDS\<close> is declared in a header outside the
  source at hand and is a parameter here.
\<close>

definition calc_delivery_expired_seconds :: "int \<Rightarrow> UnifiedExecPlanFragmentParams \<Rightarrow> int" where
  "calc_delivery_expired_seconds default_expire_seconds request =
     (let expired_seconds =
        (case query_delivery_timeout (query_options request) of
           Some dt \<Rightarrow>
             (case query_timeout (query_options request) of
                Some qt \<Rightarrow> min qt dt
              | None \<Rightarrow> dt)
         | None \<Rightarrow>
             (case query_timeout (query_options request) of
                Some qt \<Rightarrow> qt
              | None \<Rightarrow> default_expire_seconds))
      in max 1 expired_seconds)"

text \<open>\<^verbatim>\<open>_calc_query_expired_seconds\<close>.\<close>

definition calc_query_expired_seconds :: "int \<Rightarrow> UnifiedExecPlanFragmentParams \<Rightarrow> int" where
  "calc_query_expired_seconds default_expire_seconds request =
     (case query_timeout (query_options request) of
        Some qt \<Rightarrow> max 1 qt
      | None \<Rightarrow> default_expire_seconds)"

subsection \<open>Plan preparation: cache parameters and scan ranges\<close>

text \<open>
  Lines 376 to 391 of \<^verbatim>\<open>_prepare_exec_plan\<close>: the Thrift cache parameter is copied into
  the fragment's \<^verbatim>\<open>CacheParam\<close>.
\<close>

definition init_cache_param :: "TCacheParam \<Rightarrow> CacheParam \<Rightarrow> CacheParam" where
  "init_cache_param tcache_param cparam =
     (let cp1 = cparam
            \<lparr>plan_node_id := tcache_id tcache_param,
             digest := tcache_digest tcache_param,
             force_populate := tcache_force_populate tcache_param,
             entry_max_bytes := tcache_entry_max_bytes tcache_param,
             entry_max_rows := tcache_entry_max_rows tcache_param\<rparr>;
          cp2 = fold (\<lambda>(slot, remapped_slot) cp.
                   cp\<lparr>slot_remapping := (slot_remapping cp)(slot \<mapsto> remapped_slot),
                      reverse_slot_remapping := (reverse_slot_remapping cp)(remapped_slot \<mapsto> slot)\<rparr>)
                  (tcache_slot_remapping tcache_param) cp1;
          cp3 = cp2
            \<lparr>can_use_multiversion := tcache_can_use_multiversion tcache_param,
             keys_type := tcache_keys_type tcache_param\<rparr>
      in case tcache_cached_plan_node_ids tcache_param of
           None \<Rightarrow> cp3
         | Some ids \<Rightarrow> cp3\<lparr>cached_plan_node_ids := cached_plan_node_ids cp3 \<union> set ids\<rparr>)"

text \<open>
  The bytes of an \<^verbatim>\<open>int64_t\<close> as \<^verbatim>\<open>(uint8_t*)&v\<close> up to \<^verbatim>\<open>sizeof(v)\<close> reads them on the
  little-endian targets the engine is built for: eight bytes, least significant first.
\<close>

definition int64_bytes :: "64 word \<Rightarrow> bytes" where
  "int64_bytes v =
     [ucast v, ucast (drop_bit 8 v), ucast (drop_bit 16 v), ucast (drop_bit 24 v),
      ucast (drop_bit 32 v), ucast (drop_bit 40 v), ucast (drop_bit 48 v), ucast (drop_bit 56 v)]"

text \<open>Lines 423 to 429: the three \<^verbatim>\<open>insert\<close> calls that build \<^verbatim>\<open>cache_prefix_key\<close>.\<close>

definition cache_prefix_key :: "64 word \<Rightarrow> bytes \<Rightarrow> 64 word \<Rightarrow> bytes" where
  "cache_prefix_key p_id region t_id =
     (([] @ int64_bytes p_id) @ region) @ int64_bytes t_id"

text \<open>
  Lines 412 to 430: the body of the loop over the scan ranges of one driver sequence.
  A range that is not an internal scan range, or whose partition has no entry in the
  region map, is skipped (\<^verbatim>\<open>continue\<close>).
\<close>

definition compute_cache_key_prefix :: "TCacheParam \<Rightarrow> TScanRangeParams \<Rightarrow> CacheParam \<Rightarrow> CacheParam" where
  "compute_cache_key_prefix tcache_param r cparam =
     (case internal_scan_range (scan_range r) of
        None \<Rightarrow> cparam
      | Some isr \<Rightarrow>
          (case tcache_region_map tcache_param (partition_id isr) of
             None \<Rightarrow> cparam
           | Some region \<Rightarrow>
               cparam\<lparr>cache_key_prefixes :=
                 (cache_key_prefixes cparam)
                   (tablet_id isr \<mapsto> cache_prefix_key (partition_id isr) region (tablet_id isr))\<rparr>))"

text \<open>Lines 410 to 432: both loops, over the driver sequences and over their scan ranges.\<close>

definition compute_cache_key_prefixes :: "TCacheParam \<Rightarrow> PerDriverScanRangesMap \<Rightarrow> CacheParam \<Rightarrow> CacheParam" where
  "compute_cache_key_prefixes tcache_param scan_ranges_per_driver_seq cparam =
     fold (\<lambda>(driver_seq, scan_ranges) cp. fold (compute_cache_key_prefix tcache_param) scan_ranges cp)
       scan_ranges_per_driver_seq cparam"

text \<open>\<^verbatim>\<open>emplace\<close> on a map inserts only when the key is absent.\<close>

definition emplace :: "('k \<rightharpoonup> 'v) \<Rightarrow> 'k \<Rightarrow> 'v \<Rightarrow> ('k \<rightharpoonup> 'v)" where
  "emplace m k v = (case m k of None \<Rightarrow> m(k \<mapsto> v) | Some _ \<Rightarrow> m)"

text \<open>\<^verbatim>\<open>fragment.cache_param\<close>, a default-constructed struct when the field is unset.\<close>

definition fragment_cache_param :: "UnifiedExecPlanFragmentParams \<Rightarrow> TCacheParam" where
  "fragment_cache_param request =
     (case cache_param request of Some c \<Rightarrow> c | None \<Rightarrow> TCacheParam_default)"

text \<open>
  Lines 396 to 446: the body of the loop over the scan nodes. The loop carries the
  fragment context and the local variable \<^verbatim>\<open>enable_shared_scan\<close>. When the conversion
  to a morsel queue factory fails, \<^verbatim>\<open>ASSIGN_OR_RETURN\<close> leaves with the error: what was
  written to the fragment context before stays, the scan node is not touched.
\<close>

definition prepare_scan_node ::
  "Collaborators \<Rightarrow> UnifiedExecPlanFragmentParams \<Rightarrow> nat \<Rightarrow> bool \<Rightarrow> TTabletInternalParallelMode
     \<Rightarrow> ScanNode \<Rightarrow> FragmentContext \<times> bool \<Rightarrow> Status \<times> (FragmentContext \<times> bool) \<times> ScanNode" where
  "prepare_scan_node exec_env request dop etip mode scan_node st =
     (let fragment_ctx = fst st;
          shared0 = snd st;
          scan_ranges = scan_ranges_of_node request (node_id scan_node);
          scan_ranges_per_driver_seq = per_driver_seq_scan_ranges_of_node request (node_id scan_node);
          fc1 = fragment_ctx\<lparr>fc_cache_param := (fc_cache_param fragment_ctx)
                  \<lparr>num_lanes := min 16 (max 1 (query_cache_num_lanes_per_driver exec_env))\<rparr>\<rparr>;
          fc2 = (if scan_ranges_per_driver_seq = [] then fc1\<lparr>enable_cache := False\<rparr> else fc1);
          should_compute_cache_key_prefix =
            (enable_cache fc2 \<and> node_id scan_node \<in> cached_plan_node_ids (fc_cache_param fc2));
          fc3 = (if should_compute_cache_key_prefix
                 then fc2\<lparr>fc_cache_param :=
                        compute_cache_key_prefixes (fragment_cache_param request)
                          scan_ranges_per_driver_seq (fc_cache_param fc2)\<rparr>
                 else fc2);
          shared1 = (if enable_cache fc3 then False else shared0)
      in case convert_scan_range_to_morsel_queue_factory exec_env scan_node scan_ranges
                scan_ranges_per_driver_seq (node_id scan_node) dop etip mode of
           Inl e \<Rightarrow> (Error e, (fc3, shared1), scan_node)
         | Inr mqf \<Rightarrow>
             (OK,
              (fc3\<lparr>morsel_queue_factories :=
                    emplace (morsel_queue_factories fc3) (node_id scan_node) mqf\<rparr>,
               shared1),
              scan_node\<lparr>shared_scan := (shared1 \<and> is_shared mqf)\<rparr>))"

text \<open>Lines 395 to 447: the loop. It returns the scan nodes as the loop leaves them.\<close>

fun prepare_scan_nodes ::
  "Collaborators \<Rightarrow> UnifiedExecPlanFragmentParams \<Rightarrow> nat \<Rightarrow> bool \<Rightarrow> TTabletInternalParallelMode
     \<Rightarrow> ScanNode list \<Rightarrow> FragmentContext \<times> bool \<Rightarrow> Status \<times> (FragmentContext \<times> bool) \<times> ScanNode list" where
  "prepare_scan_nodes exec_env request dop etip mode [] st = (OK, st, [])"
| "prepare_scan_nodes exec_env request dop etip mode (n # ns) st =
     (case prepare_scan_node exec_env request dop etip mode n st of
        (OK, st1, n1) \<Rightarrow>
          (case prepare_scan_nodes exec_env request dop etip mode ns st1 of
             (status, st2, ns1) \<Rightarrow> (status, st2, n1 # ns1))
      | (Error e, st1, n1) \<Rightarrow> (Error e, st1, n1 # ns))"

subsection \<open>Plan preparation: scan limits\<close>

text \<open>
  Lines 449 to 466. The limits are \<^verbatim>\<open>int64_t\<close>; \<^verbatim>\<open>chunk_size\<close> and the number of io tasks
  are \<^verbatim>\<open>int\<close> and are sign-extended to \<^verbatim>\<open>int64_t\<close> by the arithmetic; \<^verbatim>\<open>dop\<close> is
  \<^verbatim>\<open>uint32_t\<close> and is converted to \<^verbatim>\<open>int64_t\<close> by the multiplication. Sums and products
  are those of 64-bit words: signed overflow has no defined result in C++, and the
  model takes the two's-complement wrap-around of the targets the code is built for.
  The division is the truncating \<^verbatim>\<open>/\<close> of C++, which traps on a zero divisor and on
  \<^verbatim>\<open>INT64_MIN / -1\<close>.
\<close>

definition int64_div :: "64 word \<Rightarrow> 64 word \<Rightarrow> ErrorCode + 64 word" where
  "int64_div a b =
     (if b = 0 \<or> (sint a = - (2 ^ 63) \<and> sint b = - 1) then Inl ArithmeticTrap
      else Inr (word_of_int (sint a sdiv sint b)))"

definition normalized_limit :: "32 word \<Rightarrow> 64 word \<Rightarrow> ErrorCode + 64 word" where
  "normalized_limit chunk_sz lim =
     (case int64_div (lim + scast chunk_sz - 1) (scast chunk_sz) of
        Inl e \<Rightarrow> Inl e
      | Inr q \<Rightarrow> Inr (q * scast chunk_sz))"

fun scan_limits ::
  "32 word \<Rightarrow> nat \<Rightarrow> ScanNode list \<Rightarrow> 64 word \<times> 64 word \<Rightarrow> ErrorCode + 64 word \<times> 64 word" where
  "scan_limits chunk_sz dop [] (logical_scan_limit, physical_scan_limit) =
     Inr (logical_scan_limit, physical_scan_limit)"
| "scan_limits chunk_sz dop (scan_node # ns) (logical_scan_limit, physical_scan_limit) =
     (if 0 < sint (limit scan_node)
      then (case normalized_limit chunk_sz (limit scan_node) of
              Inl e \<Rightarrow> Inl e
            | Inr nl \<Rightarrow>
                scan_limits chunk_sz dop ns
                  (logical_scan_limit + limit scan_node,
                   physical_scan_limit
                     + nl * of_nat dop * scast (io_tasks_per_scan_operator scan_node)))
      else Inr (- 1, physical_scan_limit))"

text \<open>
  Updating the query context \<^verbatim>\<open>_query_ctx\<close> points to. The pointer is the key of the
  context in the manager; with a null pointer, or a key the manager no longer holds,
  nothing is updated.
\<close>

definition update_query_ctx :: "(QueryContext \<Rightarrow> QueryContext) \<Rightarrow> State \<Rightarrow> State" where
  "update_query_ctx f s =
     (case this_query_ctx s of
        None \<Rightarrow> s
      | Some qid \<Rightarrow>
          (case query_context_mgr s qid of
             None \<Rightarrow> s
           | Some q \<Rightarrow> s\<lparr>query_context_mgr := (query_context_mgr s)(qid \<mapsto> f q)\<rparr>))"

definition the_query_ctx :: "State \<Rightarrow> QueryContext option" where
  "the_query_ctx s =
     (case this_query_ctx s of None \<Rightarrow> None | Some qid \<Rightarrow> query_context_mgr s qid)"

text \<open>\<^verbatim>\<open>std::max\<close> on \<^verbatim>\<open>int64_t\<close>: the second argument when the first is less, else the first.\<close>

definition int64_max :: "64 word \<Rightarrow> 64 word \<Rightarrow> 64 word" where
  "int64_max a b = (if sint a < sint b then b else a)"

text \<open>Lines 468 to 474: the scan limit of the query under the resource group's ceiling.\<close>

definition set_scan_limit :: "64 word \<times> 64 word \<Rightarrow> State \<Rightarrow> State" where
  "set_scan_limit limits s =
     (let logical_scan_limit = fst limits; physical_scan_limit = snd limits in
      case this_wg s of
        None \<Rightarrow> s
      | Some wg \<Rightarrow>
          if 0 < sint (big_query_scan_rows_limit wg) then
            (if 0 \<le> sint logical_scan_limit
                \<and> sint logical_scan_limit \<le> sint (big_query_scan_rows_limit wg)
             then update_query_ctx
                    (\<lambda>q. q\<lparr>scan_limit := int64_max (big_query_scan_rows_limit wg) physical_scan_limit\<rparr>) s
             else update_query_ctx (\<lambda>q. q\<lparr>scan_limit := big_query_scan_rows_limit wg\<rparr>) s)
          else s)"

text \<open>
  Lines 374 to 393: the query cache is switched on when the fragment carries a cache
  parameter and spill is off. \<^verbatim>\<open>runtime_state->enable_spill()\<close> reads the query option,
  false when unset.
\<close>

definition set_up_cache_param :: "UnifiedExecPlanFragmentParams \<Rightarrow> FragmentContext \<Rightarrow> FragmentContext" where
  "set_up_cache_param request fragment_ctx =
     (case cache_param request of
        Some tcache_param \<Rightarrow>
          if enable_spill (query_options request) \<noteq> Some True
          then fragment_ctx
                 \<lparr>fc_cache_param := init_cache_param tcache_param (fc_cache_param fragment_ctx),
                  enable_cache := True\<rparr>
          else fragment_ctx
      | None \<Rightarrow> fragment_ctx)"

text \<open>The three locals computed at the head of \<^verbatim>\<open>_prepare_exec_plan\<close>, lines 341 to 346.\<close>

definition requested_shared_scan :: "UnifiedExecPlanFragmentParams \<Rightarrow> bool" where
  "requested_shared_scan request = (enable_shared_scan request = Some True)"

definition requested_tablet_internal_parallel :: "UnifiedExecPlanFragmentParams \<Rightarrow> bool" where
  "requested_tablet_internal_parallel request =
     (enable_tablet_internal_parallel (query_options request) = Some True)"

definition requested_parallel_mode :: "UnifiedExecPlanFragmentParams \<Rightarrow> TTabletInternalParallelMode" where
  "requested_parallel_mode request =
     (case tablet_internal_parallel_mode (query_options request) of Some m \<Rightarrow> m | None \<Rightarrow> AUTO)"

text \<open>
  \<^verbatim>\<open>_prepare_exec_plan\<close>. The plan tree is represented by its scan nodes; the exchange
  nodes, whose sender counts are set on the way, carry nothing read later in this
  file.
\<close>

definition prepare_exec_plan :: "Collaborators \<Rightarrow> UnifiedExecPlanFragmentParams \<Rightarrow> State \<Rightarrow> Status \<times> State" where
  "prepare_exec_plan exec_env request s =
     (case this_fragment_ctx s of
        None \<Rightarrow> (Error NullPointerDereference, s)
      | Some fragment_ctx \<Rightarrow>
          (case create_tree exec_env of
             Inl e \<Rightarrow> (Error e, s)
           | Inr plan_scan_nodes \<Rightarrow>
               (case prepare_scan_nodes exec_env request (calc_dop exec_env request)
                       (requested_tablet_internal_parallel request) (requested_parallel_mode request)
                       plan_scan_nodes
                       (set_up_cache_param request (fragment_ctx\<lparr>scan_nodes := plan_scan_nodes\<rparr>),
                        requested_shared_scan request) of
                  (Error e, st, ns) \<Rightarrow>
                    (Error e, s\<lparr>this_fragment_ctx := Some ((fst st)\<lparr>scan_nodes := ns\<rparr>)\<rparr>)
                | (OK, st, ns) \<Rightarrow>
                    (case scan_limits (chunk_size exec_env) (calc_dop exec_env request) ns (0, 0) of
                       Inl e \<Rightarrow>
                         (Error e, s\<lparr>this_fragment_ctx := Some ((fst st)\<lparr>scan_nodes := ns\<rparr>)\<rparr>)
                     | Inr limits \<Rightarrow>
                         (OK, set_scan_limit limits
                                (s\<lparr>this_fragment_ctx := Some ((fst st)\<lparr>scan_nodes := ns\<rparr>)\<rparr>))))))"

subsection \<open>Query context manager and fragment registry\<close>

text \<open>
  Modelled from the spec: \<^verbatim>\<open>QueryContextManager\<close>, \<^verbatim>\<open>FragmentContextManager\<close> and the
  lifetime members of \<^verbatim>\<open>QueryContext\<close> are declared and implemented outside the source
  at hand. Following sections 3, 4.1 and 7 of the specification: \<^verbatim>\<open>get\<close> is a lookup;
  \<^verbatim>\<open>get_or_register\<close> is an idempotent get-or-create that counts one more live fragment;
  the deadlines are extended, never retracted; \<^verbatim>\<open>register_ctx\<close> checks for a duplicate
  and inserts in one step; \<^verbatim>\<open>unregister\<close> erases; \<^verbatim>\<open>count_down_fragments\<close> decrements the
  count of live fragments and the query context is destroyed when the count reaches
  zero.
\<close>

definition QueryContext_new :: QueryContext where
  "QueryContext_new =
     \<lparr>fragment_mgr = Map.empty, num_active_fragments = 0, total_fragments = None,
      delivery_expire_seconds = 0, query_expire_seconds = 0, delivery_deadline = 0,
      query_deadline = 0, query_inited = False, desc_tbl = False, scan_limit = 0,
      is_final_sink = False, is_prepared = False\<rparr>"

definition get_or_register :: "TUniqueId \<Rightarrow> State \<Rightarrow> State" where
  "get_or_register qid s =
     (let q = (case query_context_mgr s qid of Some q \<Rightarrow> q | None \<Rightarrow> QueryContext_new)
      in s\<lparr>query_context_mgr :=
             (query_context_mgr s)(qid \<mapsto> q\<lparr>num_active_fragments := num_active_fragments q + 1\<rparr>)\<rparr>)"

definition extend_delivery_lifetime :: "int \<Rightarrow> QueryContext \<Rightarrow> QueryContext" where
  "extend_delivery_lifetime now q =
     q\<lparr>delivery_deadline := max (delivery_deadline q) (now + delivery_expire_seconds q)\<rparr>"

definition extend_query_lifetime :: "int \<Rightarrow> QueryContext \<Rightarrow> QueryContext" where
  "extend_query_lifetime now q =
     q\<lparr>query_deadline := max (query_deadline q) (now + query_expire_seconds q)\<rparr>"

definition register_ctx :: "TUniqueId \<Rightarrow> FragmentContext \<Rightarrow> State \<Rightarrow> Status \<times> State" where
  "register_ctx fid fragment_ctx s =
     (case the_query_ctx s of
        None \<Rightarrow> (Error NullPointerDereference, s)
      | Some q \<Rightarrow>
          (case fragment_mgr q fid of
             Some _ \<Rightarrow> (Error DuplicateRpcInvocation, s)
           | None \<Rightarrow>
               (OK, update_query_ctx (\<lambda>q. q\<lparr>fragment_mgr := (fragment_mgr q)(fid \<mapsto> fragment_ctx)\<rparr>) s)))"

definition unregister :: "TUniqueId \<Rightarrow> QueryContext \<Rightarrow> QueryContext" where
  "unregister fid q = q\<lparr>fragment_mgr := (fragment_mgr q)(fid := None)\<rparr>"

definition count_down_fragments :: "State \<Rightarrow> State" where
  "count_down_fragments s =
     (case this_query_ctx s of
        None \<Rightarrow> s
      | Some qid \<Rightarrow>
          (case query_context_mgr s qid of
             None \<Rightarrow> s
           | Some q \<Rightarrow>
               if num_active_fragments q \<le> 1
               then s\<lparr>query_context_mgr := (query_context_mgr s)(qid := None)\<rparr>
               else s\<lparr>query_context_mgr :=
                      (query_context_mgr s)(qid \<mapsto> q\<lparr>num_active_fragments := num_active_fragments q - 1\<rparr>)\<rparr>))"

text \<open>
  Whether a fragment instance is in the registry of its query: the lookup of lines
  118 to 121.
\<close>

definition registered :: "TUniqueId \<Rightarrow> TUniqueId \<Rightarrow> State \<Rightarrow> bool" where
  "registered qid fid s =
     (case query_context_mgr s qid of
        None \<Rightarrow> False
      | Some existing_query_ctx \<Rightarrow> fragment_mgr existing_query_ctx fid \<noteq> None)"

subsection \<open>Driver limiter\<close>

text \<open>
  Modelled from the spec: \<^verbatim>\<open>DriverLimiter::try_acquire\<close> is implemented outside the source
  at hand. Following sections 2, 4.5 and 6 of the specification it grants a token of
  \<open>n\<close> lane slots while the process-wide budget holds them and fails with
  \<open>ResourceExhausted\<close> otherwise; the token gives its slots back when the fragment
  context that owns it is destroyed. The field \<open>requests\<close> is not program state: it
  records the size of every request, so that the number of requests can be stated.
\<close>

definition try_acquire :: "nat \<Rightarrow> DriverLimiter \<Rightarrow> (ErrorCode + nat) \<times> DriverLimiter" where
  "try_acquire n limiter =
     (let limiter1 = limiter\<lparr>requests := requests limiter @ [n]\<rparr>
      in if num_total_drivers limiter + n \<le> max_num_drivers limiter
         then (Inr n, limiter1\<lparr>num_total_drivers := num_total_drivers limiter + n\<rparr>)
         else (Inl ResourceExhausted, limiter1))"

definition release_token :: "nat option \<Rightarrow> DriverLimiter \<Rightarrow> DriverLimiter" where
  "release_token token limiter =
     (case token of
        None \<Rightarrow> limiter
      | Some n \<Rightarrow> limiter\<lparr>num_total_drivers := num_total_drivers limiter - n\<rparr>)"

subsection \<open>Preparing the contexts\<close>

text \<open>
  \<^verbatim>\<open>_prepare_query_ctx\<close>. The setters for shuffle, profile and trace options write
  fields of the query context that nothing in this file reads; they are left out.
\<close>

definition prepare_query_ctx :: "Collaborators \<Rightarrow> UnifiedExecPlanFragmentParams \<Rightarrow> State \<Rightarrow> Status \<times> State" where
  "prepare_query_ctx exec_env request s =
     (if registered (query_id request) (fragment_instance_id request) s
      then (Error DuplicateRpcInvocation, s)
      else
        (let s1 = (get_or_register (query_id request) s)\<lparr>this_query_ctx := Some (query_id request)\<rparr>;
             s2 = (case instances_number request of
                     Some n \<Rightarrow> update_query_ctx (\<lambda>q. q\<lparr>total_fragments := Some n\<rparr>) s1
                   | None \<Rightarrow> s1);
             s3 = update_query_ctx
                    (\<lambda>q. q\<lparr>delivery_expire_seconds :=
                              calc_delivery_expired_seconds (DEFAULT_EXPIRE_SECONDS exec_env) request\<rparr>) s2;
             s4 = update_query_ctx
                    (\<lambda>q. q\<lparr>query_expire_seconds :=
                              calc_query_expired_seconds (DEFAULT_EXPIRE_SECONDS exec_env) request\<rparr>) s3;
             s5 = update_query_ctx (extend_delivery_lifetime (clock_now exec_env)) s4;
             s6 = update_query_ctx (extend_query_lifetime (clock_now exec_env)) s5
         in (OK, s6)))"

text \<open>\<^verbatim>\<open>_prepare_fragment_ctx\<close>.\<close>

definition prepare_fragment_ctx :: "Collaborators \<Rightarrow> UnifiedExecPlanFragmentParams \<Rightarrow> State \<Rightarrow> Status \<times> State" where
  "prepare_fragment_ctx exec_env request s =
     (let fc0 = (FragmentContext_new (builder_pipelines exec_env) (builder_op_factories exec_env))
                  \<lparr>fc_query_id := query_id request,
                   fc_fragment_instance_id := fragment_instance_id request,
                   fc_is_stream_pipeline := is_stream_pipeline request\<rparr>;
          fc1 = (case adaptive_dop_param request of
                   Some tadaptive_dop_param \<Rightarrow>
                     fc0\<lparr>enable_adaptive_dop := True, fc_adaptive_dop_param := tadaptive_dop_param\<rparr>
                 | None \<Rightarrow> fc0)
      in (OK, s\<lparr>this_fragment_ctx := Some fc1\<rparr>))"

text \<open>
  \<^verbatim>\<open>_prepare_workgroup\<close>. \<^verbatim>\<open>init_query_once\<close> answers with a status and marks the query as
  initialised.
\<close>

definition prepare_workgroup :: "Collaborators \<Rightarrow> UnifiedExecPlanFragmentParams \<Rightarrow> State \<Rightarrow> Status \<times> State" where
  "prepare_workgroup exec_env request s =
     (let wg = (case request_workgroup_id request of
                  None \<Rightarrow> get_default_workgroup exec_env
                | Some wid \<Rightarrow>
                    if wid = DEFAULT_WG_ID exec_env then get_default_workgroup exec_env
                    else if wid = DEFAULT_MV_WG_ID exec_env then get_default_mv_workgroup exec_env
                    else add_workgroup exec_env wid)
      in case this_fragment_ctx s of
           None \<Rightarrow> (Error NullPointerDereference, s)
         | Some fragment_ctx \<Rightarrow>
             (case init_query_once exec_env of
                Error e \<Rightarrow> (Error e, s)
              | OK \<Rightarrow>
                  (OK, (update_query_ctx (\<lambda>q. q\<lparr>query_inited := True\<rparr>) s)
                         \<lparr>this_fragment_ctx := Some (fragment_ctx\<lparr>workgroup := Some wg\<rparr>),
                          this_wg := Some wg\<rparr>)))"

text \<open>
  \<^verbatim>\<open>_prepare_runtime_state\<close>. The runtime state, the memory trackers and the runtime
  filter worker are collaborators whose calls cannot fail here; what is modelled is
  the pass-through chunk buffer, the descriptor table (cached in the query context, or
  created) and the spill manager, with their three ways of leaving with an error.
\<close>

definition prepare_runtime_state :: "Collaborators \<Rightarrow> UnifiedExecPlanFragmentParams \<Rightarrow> State \<Rightarrow> Status \<times> State" where
  "prepare_runtime_state exec_env request s =
     (case this_fragment_ctx s of
        None \<Rightarrow> (Error NullPointerDereference, s)
      | Some fragment_ctx \<Rightarrow>
          (let s1 = s\<lparr>this_fragment_ctx := Some (fragment_ctx\<lparr>pass_through_chunk_buffer := True\<rparr>)\<rparr>;
               r = (case desc_tbl_is_cached request of
                      Some is_cached \<Rightarrow>
                        if is_cached
                        then (case the_query_ctx s1 of
                                None \<Rightarrow> (Error NullPointerDereference, s1)
                              | Some q \<Rightarrow> if desc_tbl q then (OK, s1) else (Error Cancelled, s1))
                        else (case DescriptorTbl_create exec_env of
                                Error e \<Rightarrow> (Error e, s1)
                              | OK \<Rightarrow> (OK, update_query_ctx (\<lambda>q. q\<lparr>desc_tbl := True\<rparr>) s1))
                    | None \<Rightarrow> (DescriptorTbl_create exec_env, s1))
           in case r of
                (Error e, s2) \<Rightarrow> (Error e, s2)
              | (OK, s2) \<Rightarrow>
                  if enable_spill (query_options request) = Some True
                  then (init_spill_manager exec_env, s2)
                  else (OK, s2)))"

text \<open>\<^verbatim>\<open>_prepare_global_dict\<close>: up to three calls into the runtime state, the first error wins.\<close>

definition prepare_global_dict :: "Collaborators \<Rightarrow> UnifiedExecPlanFragmentParams \<Rightarrow> State \<Rightarrow> Status \<times> State" where
  "prepare_global_dict exec_env request s =
     (if isset_query_global_dicts request \<and> init_query_global_dict exec_env \<noteq> OK
      then (init_query_global_dict exec_env, s)
      else if isset_query_global_dicts request \<and> isset_query_global_dict_exprs request
              \<and> init_query_global_dict_exprs exec_env \<noteq> OK
      then (init_query_global_dict_exprs exec_env, s)
      else if isset_load_global_dicts request \<and> init_load_global_dict exec_env \<noteq> OK
      then (init_load_global_dict exec_env, s)
      else (OK, s))"

subsection \<open>Pipelines, drivers and adaptive groups\<close>

text \<open>
  Modelled from the spec: \<^verbatim>\<open>Pipeline::instantiate_drivers\<close> and
  \<^verbatim>\<open>FragmentContext::total_dop\<close> are implemented outside the source at hand. Following
  section 3 of the specification a pipeline produces, at instantiation time, one driver
  per lane; following section 4.5 the total is the lane count across all pipelines of
  the fragment, the deferred ones included.
\<close>

definition instantiate_drivers :: "pipeline_addr \<Rightarrow> Pipeline \<Rightarrow> Pipeline" where
  "instantiate_drivers addr pipeline =
     pipeline\<lparr>drivers := map (Driver addr) [0..<degree_of_parallelism pipeline]\<rparr>"

definition total_dop :: "FragmentContext \<Rightarrow> nat" where
  "total_dop fragment_ctx =
     sum_list (map (\<lambda>p. degree_of_parallelism (pipeline_store fragment_ctx p)) (pipelines fragment_ctx))"

text \<open>
  \<^verbatim>\<open>PipelineGroupMap\<close>, an unordered map from the leader to the pipelines collected for
  it, as the list of its entries, one per leader. \<^verbatim>\<open>unready_pipeline_groups[leader]\<close>
  followed by \<^verbatim>\<open>emplace_back\<close> appends to the leader's entry and makes the entry first
  when the leader has none.
\<close>

type_synonym PipelineGroupMap = "(op_addr \<times> pipeline_addr list) list"

fun emplace_back_in_group :: "op_addr \<Rightarrow> pipeline_addr \<Rightarrow> PipelineGroupMap \<Rightarrow> PipelineGroupMap" where
  "emplace_back_in_group leader p [] = [(leader, [p])]"
| "emplace_back_in_group leader p ((k, ps) # groups) =
     (if k = leader then (k, ps @ [p]) # groups
      else (k, ps) # emplace_back_in_group leader p groups)"

definition add_dependency :: "event_addr \<Rightarrow> Event \<Rightarrow> Event" where
  "add_dependency e ev = ev\<lparr>dependencies := dependencies ev @ [e]\<rparr>"

text \<open>
  Lines 538 to 546: the event of one group, made from the group's pipelines, with the
  leader's blocking event (when it has one) and the pipeline events of the pipelines
  the leader depends on.
\<close>

definition group_initialize_event_of ::
  "(pipeline_addr \<Rightarrow> Pipeline) \<Rightarrow> SourceOperatorFactory \<Rightarrow> pipeline_addr list \<Rightarrow> Event" where
  "group_initialize_event_of pstore leader_source_op ps =
     (let ev0 = \<lparr>event_pipelines = ps, dependencies = []\<rparr>;
          ev1 = (case adaptive_blocking_event leader_source_op of
                   Some blocking_event \<Rightarrow> add_dependency blocking_event ev0
                 | None \<Rightarrow> ev0)
      in fold (\<lambda>dependency_pipeline ev. add_dependency (pipeline_event (pstore dependency_pipeline)) ev)
           (group_dependent_pipelines leader_source_op) ev1)"

text \<open>
  \<^verbatim>\<open>create_adaptive_group_initialize_events\<close>. The loop visits every entry of the map
  once; the order in which an unordered map is visited is not specified, and here it
  is the order of the entries. The event of a leader is computed from that leader and
  from pipeline events only, which the loop does not write, so any order gives the
  same events.
\<close>

definition set_group_initialize_event :: "op_addr \<times> pipeline_addr list \<Rightarrow> FragmentContext \<Rightarrow> FragmentContext" where
  "set_group_initialize_event entry fragment_ctx =
     (let leader = fst entry;
          leader_source_op = op_store fragment_ctx leader
      in fragment_ctx\<lparr>op_store := (op_store fragment_ctx)
           (leader := leader_source_op
              \<lparr>group_initialize_event :=
                 Some (group_initialize_event_of (pipeline_store fragment_ctx) leader_source_op
                         (snd entry))\<rparr>)\<rparr>)"

definition create_adaptive_group_initialize_events ::
  "PipelineGroupMap \<Rightarrow> FragmentContext \<Rightarrow> FragmentContext" where
  "create_adaptive_group_initialize_events unready_pipeline_groups fragment_ctx =
     (if unready_pipeline_groups = [] then fragment_ctx
      else fold set_group_initialize_event unready_pipeline_groups fragment_ctx)"

text \<open>Lines 592 to 600: the morsel queue factory of each pipeline whose source reads morsels.\<close>

definition set_morsel_queue_factory :: "pipeline_addr \<Rightarrow> FragmentContext \<Rightarrow> FragmentContext" where
  "set_morsel_queue_factory p fragment_ctx =
     (let src = source_operator_factory (pipeline_store fragment_ctx p);
          source_op = op_store fragment_ctx src
      in if with_morsels source_op
         then fragment_ctx\<lparr>op_store := (op_store fragment_ctx)
                (src := source_op\<lparr>morsel_queue_factory :=
                          morsel_queue_factories fragment_ctx (source_plan_node_id source_op)\<rparr>)\<rparr>
         else fragment_ctx)"

text \<open>
  Lines 603 to 612: the body of the loop that instantiates the drivers of a pipeline
  whose source is initially active in its adaptive group and collects any other
  pipeline under the leader of its group.
\<close>

definition instantiate_or_defer ::
  "pipeline_addr \<Rightarrow> PipelineGroupMap \<times> FragmentContext \<Rightarrow> PipelineGroupMap \<times> FragmentContext" where
  "instantiate_or_defer p st =
     (let unready_pipeline_groups = fst st;
          fragment_ctx = snd st;
          source_op = op_store fragment_ctx (source_operator_factory (pipeline_store fragment_ctx p))
      in if \<not> is_adaptive_group_initial_active source_op
         then (emplace_back_in_group (group_leader source_op) p unready_pipeline_groups,
               fragment_ctx)
         else (unready_pipeline_groups,
               fragment_ctx\<lparr>pipeline_store := (pipeline_store fragment_ctx)
                  (p := instantiate_drivers p (pipeline_store fragment_ctx p))\<rparr>))"

text \<open>
  Lines 592 to 616 together: morsel queue factories, drivers and deferred groups, and
  the group-initialize events.
\<close>

definition instantiate_pipelines :: "FragmentContext \<Rightarrow> FragmentContext" where
  "instantiate_pipelines fragment_ctx =
     (let fc1 = fold set_morsel_queue_factory (pipelines fragment_ctx) fragment_ctx;
          st = fold instantiate_or_defer (pipelines fc1) ([], fc1)
      in if fst st \<noteq> []
         then create_adaptive_group_initialize_events (fst st) (snd st)
         else snd st)"

text \<open>\<^verbatim>\<open>RETURN_IF_ERROR\<close>: the next step runs only after a step that returned \<^verbatim>\<open>OK\<close>.\<close>

definition and_then :: "Status \<times> State \<Rightarrow> (State \<Rightarrow> Status \<times> State) \<Rightarrow> Status \<times> State" where
  "and_then r f = (case fst r of OK \<Rightarrow> f (snd r) | Error e \<Rightarrow> r)"

text \<open>
  \<^verbatim>\<open>_prepare_pipeline_driver\<close>, in three parts. The decomposition of the plan and of the
  sink into pipelines belongs to the builder and the sink; here it shows as their
  statuses and as the pipelines \<^verbatim>\<open>builder.build()\<close> returns.

  Lines 553 to 585: the sink. A result, table or export sink marks the query as having
  its final sink.
\<close>

definition set_up_sink :: "Collaborators \<Rightarrow> UnifiedExecPlanFragmentParams \<Rightarrow> State \<Rightarrow> Status \<times> State" where
  "set_up_sink exec_env request s =
     (case this_fragment_ctx s of
        None \<Rightarrow> (Error NullPointerDereference, s)
      | Some fragment_ctx \<Rightarrow>
          if isset_output_sink request
          then and_then
                 (create_data_sink exec_env,
                  if output_sink_is_final request
                  then update_query_ctx (\<lambda>q. q\<lparr>is_final_sink := True\<rparr>) s else s)
                 (\<lambda>s1. (decompose_data_sink_to_pipeline exec_env, s1))
          else (OK, s))"

text \<open>Lines 587 to 616: the pipelines are stored, prepared and instantiated.\<close>

definition set_up_pipelines :: "Collaborators \<Rightarrow> State \<Rightarrow> Status \<times> State" where
  "set_up_pipelines exec_env s =
     (case this_fragment_ctx s of
        None \<Rightarrow> (Error NullPointerDereference, s)
      | Some fragment_ctx \<Rightarrow>
          and_then
            (prepare_all_pipelines exec_env,
             s\<lparr>this_fragment_ctx := Some (fragment_ctx\<lparr>pipelines := builder_build exec_env\<rparr>)\<rparr>)
            (\<lambda>s1. (OK, s1\<lparr>this_fragment_ctx :=
                            Some (instantiate_pipelines
                                    (fragment_ctx\<lparr>pipelines := builder_build exec_env\<rparr>))\<rparr>)))"

text \<open>Lines 618 to 620: one driver token for the total dop of the fragment.\<close>

definition acquire_driver_token :: "State \<Rightarrow> Status \<times> State" where
  "acquire_driver_token s =
     (case this_fragment_ctx s of
        None \<Rightarrow> (Error NullPointerDereference, s)
      | Some fragment_ctx \<Rightarrow>
          (case try_acquire (total_dop fragment_ctx) (driver_limiter s) of
             (Inl e, limiter) \<Rightarrow> (Error e, s\<lparr>driver_limiter := limiter\<rparr>)
           | (Inr token, limiter) \<Rightarrow>
               (OK, s\<lparr>this_fragment_ctx := Some (fragment_ctx\<lparr>driver_token := Some token\<rparr>),
                       driver_limiter := limiter\<rparr>)))"

definition prepare_pipeline_driver :: "Collaborators \<Rightarrow> UnifiedExecPlanFragmentParams \<Rightarrow> State \<Rightarrow> Status \<times> State" where
  "prepare_pipeline_driver exec_env request s =
     and_then (set_up_sink exec_env request s) (\<lambda>s.
     and_then (set_up_pipelines exec_env s) acquire_driver_token)"

subsection \<open>prepare, execute and the failure cleanup\<close>

text \<open>
  \<^verbatim>\<open>_fail_cleanup\<close>. Resetting \<^verbatim>\<open>_fragment_ctx\<close> drops the last reference to the fragment
  context (the registry's, if there was one, is dropped on the line before), so the
  context is destroyed and its driver token released.
\<close>

definition fail_cleanup :: "bool \<Rightarrow> State \<Rightarrow> State" where
  "fail_cleanup fragment_has_registed s =
     (case this_query_ctx s of
        None \<Rightarrow> s
      | Some _ \<Rightarrow>
          count_down_fragments
            (case this_fragment_ctx s of
               None \<Rightarrow> s
             | Some fragment_ctx \<Rightarrow>
                 (let s1 = (if fragment_has_registed
                            then update_query_ctx (unregister (fc_fragment_instance_id fragment_ctx)) s
                            else s)
                  in s1\<lparr>this_fragment_ctx := None,
                        driver_limiter := release_token (driver_token fragment_ctx) (driver_limiter s1)\<rparr>)))"

text \<open>
  Lines 706 to 737 of \<^verbatim>\<open>prepare\<close>: the steps, in order. \<^verbatim>\<open>_prepare_stream_load_pipe\<close>
  creates stream-load channel contexts through the stream context manager; it shows
  here as the status it returns.
\<close>

definition register_fragment :: "UnifiedExecPlanFragmentParams \<Rightarrow> State \<Rightarrow> Status \<times> State" where
  "register_fragment request s =
     (case this_fragment_ctx s of
        None \<Rightarrow> (Error NullPointerDereference, s)
      | Some fragment_ctx \<Rightarrow>
          and_then (register_ctx (fragment_instance_id request) fragment_ctx s)
            (\<lambda>s1. (OK, update_query_ctx (\<lambda>q. q\<lparr>is_prepared := True\<rparr>) s1)))"

definition prepare_steps :: "Collaborators \<Rightarrow> UnifiedExecPlanFragmentParams \<Rightarrow> State \<Rightarrow> Status \<times> State" where
  "prepare_steps exec_env request s =
     and_then (check_mem_limit exec_env, s) (\<lambda>s.
     and_then (prepare_query_ctx exec_env request s) (\<lambda>s.
     and_then (prepare_fragment_ctx exec_env request s) (\<lambda>s.
     and_then (prepare_workgroup exec_env request s) (\<lambda>s.
     and_then (prepare_runtime_state exec_env request s) (\<lambda>s.
     and_then (prepare_global_dict exec_env request s) (\<lambda>s.
     and_then (prepare_exec_plan exec_env request s) (\<lambda>s.
     and_then (prepare_pipeline_driver exec_env request s) (\<lambda>s.
     and_then (prepare_stream_load_pipe exec_env, s) (\<lambda>s.
     register_fragment request s)))))))))"

text \<open>
  \<^verbatim>\<open>prepare\<close>: the steps, then the deferred block, which runs the failure cleanup with
  \<^verbatim>\<open>fragment_has_registed = false\<close> unless every step succeeded. On success the deferred
  block only writes profile counters.
\<close>

definition prepare :: "Collaborators \<Rightarrow> UnifiedExecPlanFragmentParams \<Rightarrow> State \<Rightarrow> Status \<times> State" where
  "prepare exec_env request s =
     (let r = prepare_steps exec_env request s
      in case fst r of
           OK \<Rightarrow> r
         | Error e \<Rightarrow> (Error e, fail_cleanup False (snd r)))"

text \<open>
  \<^verbatim>\<open>FragmentExecutor()\<close>: a new executor holds no query context, no fragment context
  and no work group.
\<close>

definition new_executor :: "State \<Rightarrow> State" where
  "new_executor s = s\<lparr>this_query_ctx := None, this_fragment_ctx := None, this_wg := None\<rparr>"

text \<open>
  The drivers \<^verbatim>\<open>iterate_active_drivers\<close> visits, in its order: for every pipeline whose
  source is initially active in its adaptive group, every driver of the pipeline.
\<close>

definition active_drivers :: "FragmentContext \<Rightarrow> Driver list" where
  "active_drivers fragment_ctx =
     concat (map (\<lambda>p. let pipeline = pipeline_store fragment_ctx p;
                           source_op = op_store fragment_ctx (source_operator_factory pipeline)
                       in if \<not> is_adaptive_group_initial_active source_op then []
                          else drivers pipeline)
                 (pipelines fragment_ctx))"

text \<open>
  \<^verbatim>\<open>iterate_active_drivers\<close> with a call that returns a status, here \<^verbatim>\<open>driver->prepare\<close>: the
  first error ends the iteration. Every call is recorded in \<open>prepared_drivers\<close>.
\<close>

fun prepare_drivers :: "Collaborators \<Rightarrow> Driver list \<Rightarrow> State \<Rightarrow> Status \<times> State" where
  "prepare_drivers exec_env [] s = (OK, s)"
| "prepare_drivers exec_env (driver # ds) s =
     (case driver_prepare exec_env driver of
        Error e \<Rightarrow> (Error e, s\<lparr>prepared_drivers := prepared_drivers s @ [driver]\<rparr>)
      | OK \<Rightarrow> prepare_drivers exec_env ds (s\<lparr>prepared_drivers := prepared_drivers s @ [driver]\<rparr>))"

text \<open>\<^verbatim>\<open>iterate_active_drivers\<close> with \<^verbatim>\<open>executor->submit\<close>, which returns nothing.\<close>

definition submit_drivers :: "Driver list \<Rightarrow> State \<Rightarrow> State" where
  "submit_drivers ds s = fold (\<lambda>driver s. s\<lparr>run_queue := run_queue s @ [driver]\<rparr>) ds s"

text \<open>
  \<^verbatim>\<open>execute\<close>. Its deferred block runs the failure cleanup with
  \<^verbatim>\<open>fragment_has_registed = true\<close> unless all the drivers were prepared.
\<close>

definition execute :: "Collaborators \<Rightarrow> State \<Rightarrow> Status \<times> State" where
  "execute exec_env s =
     (case this_fragment_ctx s of
        None \<Rightarrow> (Error NullPointerDereference, s)
      | Some fragment_ctx \<Rightarrow>
          (let r = prepare_drivers exec_env (active_drivers fragment_ctx) s
           in case fst r of
                Error e \<Rightarrow> (Error e, fail_cleanup True (snd r))
              | OK \<Rightarrow> (OK, submit_drivers (active_drivers fragment_ctx) (snd r))))"

subsection \<open>Observations on the scan-node loop\<close>

text \<open>
  The prefix as the specification words it, for comparison with the code: an internal
  scan range whose partition has a registered region yields, for its tablet, the bytes
  of the partition id, then the region, then the bytes of the tablet id; any other
  scan range yields nothing.
\<close>

definition spec_cache_key_prefix :: "TCacheParam \<Rightarrow> TScanRangeParams \<Rightarrow> (64 word \<times> bytes) option" where
  "spec_cache_key_prefix tcache_param r =
     (case internal_scan_range (scan_range r) of
        None \<Rightarrow> None
      | Some isr \<Rightarrow>
          (case tcache_region_map tcache_param (partition_id isr) of
             None \<Rightarrow> None
           | Some region \<Rightarrow>
               Some (tablet_id isr,
                     int64_bytes (partition_id isr) @ region @ int64_bytes (tablet_id isr))))"

text \<open>
  The scan ranges of a scan node over all its driver sequences, in the order in which
  the two loops of lines 410 and 411 visit them.
\<close>

definition scan_ranges_of_all_driver_seqs ::
  "UnifiedExecPlanFragmentParams \<Rightarrow> ScanNode \<Rightarrow> TScanRangeParams list" where
  "scan_ranges_of_all_driver_seqs request scan_node =
     concat (map snd (per_driver_seq_scan_ranges_of_node request (node_id scan_node)))"

text \<open>The \<^verbatim>\<open>cache_key_prefixes\<close> of the fragment once the loop body has run on a scan node.\<close>

definition after_scan_node_prefixes ::
  "Collaborators \<Rightarrow> UnifiedExecPlanFragmentParams \<Rightarrow> nat \<Rightarrow> bool \<Rightarrow> TTabletInternalParallelMode
     \<Rightarrow> ScanNode \<Rightarrow> FragmentContext \<Rightarrow> bool \<Rightarrow> (64 word \<rightharpoonup> bytes)" where
  "after_scan_node_prefixes exec_env request dop etip mode scan_node fragment_ctx shared =
     cache_key_prefixes (fc_cache_param (fst (fst (snd
       (prepare_scan_node exec_env request dop etip mode scan_node (fragment_ctx, shared))))))"

subsection \<open>Observations on scan limits\<close>

text \<open>
  The term the specification gives a scan node with a positive limit under chunk size
  \<open>c\<close> and dop \<open>d\<close>: the limit rounded up to a multiple of \<open>c\<close>, times \<open>d\<close>, times the
  number of io tasks, as an integer, with no bound on its size.
\<close>

definition spec_physical_term :: "32 word \<Rightarrow> nat \<Rightarrow> ScanNode \<Rightarrow> int" where
  "spec_physical_term c d n =
     (sint (limit n) + sint c - 1) div sint c * sint c * int d * sint (io_tasks_per_scan_operator n)"

subsection \<open>Observations on adaptive groups\<close>

text \<open>
  A pipeline is deferred when its source operator factory is not initially active in
  its adaptive group; \<open>leader_of\<close> is the leader its source names.
\<close>

definition deferred :: "FragmentContext \<Rightarrow> pipeline_addr \<Rightarrow> bool" where
  "deferred fragment_ctx p =
     (\<not> is_adaptive_group_initial_active
          (op_store fragment_ctx (source_operator_factory (pipeline_store fragment_ctx p))))"

definition leader_of :: "FragmentContext \<Rightarrow> pipeline_addr \<Rightarrow> op_addr" where
  "leader_of fragment_ctx p =
     group_leader (op_store fragment_ctx (source_operator_factory (pipeline_store fragment_ctx p)))"

text \<open>
  The deferred pipelines of a leader, in the order of the fragment's pipelines, and the
  dependencies the specification gives the group's event: the leader's
  adaptive-blocking event when it has one, then the pipeline event of every pipeline
  the leader declares a dependency on.
\<close>

definition deferred_group :: "FragmentContext \<Rightarrow> op_addr \<Rightarrow> pipeline_addr list" where
  "deferred_group fragment_ctx leader =
     filter (\<lambda>p. deferred fragment_ctx p \<and> leader_of fragment_ctx p = leader) (pipelines fragment_ctx)"

definition spec_group_dependencies :: "FragmentContext \<Rightarrow> op_addr \<Rightarrow> event_addr list" where
  "spec_group_dependencies fragment_ctx leader =
     (case adaptive_blocking_event (op_store fragment_ctx leader) of
        Some blocking_event \<Rightarrow> [blocking_event] | None \<Rightarrow> [])
     @ map (\<lambda>dp. pipeline_event (pipeline_store fragment_ctx dp))
         (group_dependent_pipelines (op_store fragment_ctx leader))"

text \<open>
  The map \<^verbatim>\<open>unready_pipeline_groups\<close> as the loop of lines 603 to 612 leaves it, which is
  what \<^verbatim>\<open>create_adaptive_group_initialize_events\<close> receives: one event is created for
  each of its entries.
\<close>

definition unready_pipeline_groups_of :: "FragmentContext \<Rightarrow> PipelineGroupMap" where
  "unready_pipeline_groups_of fragment_ctx =
     (let fc1 = fold set_morsel_queue_factory (pipelines fragment_ctx) fragment_ctx
      in fst (fold instantiate_or_defer (pipelines fc1) ([], fc1)))"

subsection \<open>Observations on prepare\<close>

text \<open>
  The total lane count of the fragment as the builder's answer gives it: the sum of the
  dop of every pipeline \<^verbatim>\<open>builder.build()\<close> returns, deferred or not.
\<close>

definition fragment_total_dop :: "Collaborators \<Rightarrow> nat" where
  "fragment_total_dop exec_env =
     sum_list (map (\<lambda>p. degree_of_parallelism (builder_pipelines exec_env p)) (builder_build exec_env))"

text \<open>
  The steps of \<^verbatim>\<open>prepare\<close> that come before the driver token is requested, and those
  that come after it.
\<close>

definition before_admission :: "Collaborators \<Rightarrow> UnifiedExecPlanFragmentParams \<Rightarrow> State \<Rightarrow> Status \<times> State" where
  "before_admission exec_env request s =
     and_then (check_mem_limit exec_env, s) (\<lambda>s.
     and_then (prepare_query_ctx exec_env request s) (\<lambda>s.
     and_then (prepare_fragment_ctx exec_env request s) (\<lambda>s.
     and_then (prepare_workgroup exec_env request s) (\<lambda>s.
     and_then (prepare_runtime_state exec_env request s) (\<lambda>s.
     and_then (prepare_global_dict exec_env request s) (\<lambda>s.
     and_then (prepare_exec_plan exec_env request s) (\<lambda>s.
     and_then (set_up_sink exec_env request s) (\<lambda>s.
     set_up_pipelines exec_env s))))))))"

definition after_admission :: "Collaborators \<Rightarrow> UnifiedExecPlanFragmentParams \<Rightarrow> State \<Rightarrow> Status \<times> State" where
  "after_admission exec_env request s =
     and_then (prepare_stream_load_pipe exec_env, s) (\<lambda>s. register_fragment request s)"

text \<open>
  What holds of the state while a fragment is being prepared: the executor points to
  the query context of the request, the fragment is not in its registry, and the
  executor's fragment context is that of the request, without a driver token and with
  the dop of every pipeline as the builder gave it.
\<close>

definition in_preparation :: "Collaborators \<Rightarrow> UnifiedExecPlanFragmentParams \<Rightarrow> State \<Rightarrow> bool" where
  "in_preparation exec_env request s =
     (this_query_ctx s = Some (query_id request)
      \<and> \<not> registered (query_id request) (fragment_instance_id request) s
      \<and> (case this_fragment_ctx s of
            None \<Rightarrow> False
          | Some fc \<Rightarrow>
              fc_fragment_instance_id fc = fragment_instance_id request
              \<and> driver_token fc = None
              \<and> (\<forall>p. degree_of_parallelism (pipeline_store fc p)
                       = degree_of_parallelism (builder_pipelines exec_env p))))"

subsection \<open>Concrete inputs\<close>

text \<open>
  A request for fragment instance \<open>(1, 2)\<close> of query \<open>(1, 1)\<close> with every optional
  field unset; the theorems below are run on variations of it.
\<close>

definition request0 :: UnifiedExecPlanFragmentParams where
  "request0 =
     \<lparr>query_id = TUniqueId 1 1, fragment_instance_id = TUniqueId 1 2, instances_number = None,
      query_options = TQueryOptions_unset, is_stream_pipeline = False, adaptive_dop_param = None,
      enable_shared_scan = None, cache_param = None, per_node_scan_ranges = Map.empty,
      node_to_per_driver_seq_scan_ranges = None, pipeline_dop = 4, pipeline_sink_dop = 4,
      desc_tbl_is_cached = None, isset_query_global_dicts = False,
      isset_query_global_dict_exprs = False, isset_load_global_dicts = False,
      request_workgroup_id = None, isset_output_sink = False, output_sink_is_final = False\<rparr>"

text \<open>
  One scan node with limit 10, and two pipelines: pipeline 0, with dop 4, whose source
  (factory 0) reads morsels of that scan node and leads its adaptive group; pipeline 1,
  with dop 2, whose source (factory 1) is not initially active and names factory 0 as
  its leader. The leader has the blocking event 20 and depends on pipeline 0, whose
  pipeline event is 10.
\<close>

definition scan_node1 :: ScanNode where
  "scan_node1 = \<lparr>node_id = 1, limit = 10, io_tasks_per_scan_operator = 2, shared_scan = False\<rparr>"

definition pipeline0 :: Pipeline where
  "pipeline0 = \<lparr>source_operator_factory = 0, degree_of_parallelism = 4, pipeline_event = 10, drivers = []\<rparr>"

definition pipeline1 :: Pipeline where
  "pipeline1 = \<lparr>source_operator_factory = 1, degree_of_parallelism = 2, pipeline_event = 11, drivers = []\<rparr>"

definition source_op0 :: SourceOperatorFactory where
  "source_op0 =
     \<lparr>with_morsels = True, source_plan_node_id = 1, is_adaptive_group_initial_active = True,
      group_leader = 0, adaptive_blocking_event = Some 20, group_dependent_pipelines = [0],
      morsel_queue_factory = None, group_initialize_event = None\<rparr>"

definition source_op1 :: SourceOperatorFactory where
  "source_op1 =
     \<lparr>with_morsels = False, source_plan_node_id = 2, is_adaptive_group_initial_active = False,
      group_leader = 0, adaptive_blocking_event = None, group_dependent_pipelines = [],
      morsel_queue_factory = None, group_initialize_event = None\<rparr>"

text \<open>
  Collaborators that all succeed: a chunk size of 4096, a default work group with a
  big-query scan-rows ceiling of 20000, and a morsel queue factory that is shared.
\<close>

definition env0 :: Collaborators where
  "env0 =
     \<lparr>DEFAULT_EXPIRE_SECONDS = 300, query_cache_num_lanes_per_driver = 4, clock_now = 1000,
      chunk_size = 4096, check_mem_limit = OK, init_query_once = OK, DescriptorTbl_create = OK,
      init_spill_manager = OK, init_query_global_dict = OK, init_query_global_dict_exprs = OK,
      init_load_global_dict = OK, calc_pipeline_dop = nat, calc_pipeline_sink_dop = nat,
      create_tree = Inr [scan_node1],
      convert_scan_range_to_morsel_queue_factory = (\<lambda>_ _ _ _ _ _ _. Inr \<lparr>is_shared = True\<rparr>),
      DEFAULT_WG_ID = 0, DEFAULT_MV_WG_ID = 1,
      get_default_workgroup = \<lparr>wg_id = 0, big_query_scan_rows_limit = 20000\<rparr>,
      get_default_mv_workgroup = \<lparr>wg_id = 1, big_query_scan_rows_limit = 0\<rparr>,
      add_workgroup = (\<lambda>i. \<lparr>wg_id = i, big_query_scan_rows_limit = 0\<rparr>),
      create_data_sink = OK, decompose_data_sink_to_pipeline = OK,
      builder_build = [0, 1],
      builder_pipelines = (\<lambda>p. if p = 0 then pipeline0 else pipeline1),
      builder_op_factories = (\<lambda>a. if a = 0 then source_op0 else source_op1),
      prepare_all_pipelines = OK, prepare_stream_load_pipe = OK,
      driver_prepare = (\<lambda>_. OK)\<rparr>"

text \<open>
  A scan node whose limit is \<open>2 ^ 62\<close>, the collaborators with that node as the plan, and
  the collaborators whose process-wide memory check fails.
\<close>

definition scan_node_huge :: ScanNode where
  "scan_node_huge =
     \<lparr>node_id = 1, limit = 4611686018427387904, io_tasks_per_scan_operator = 2, shared_scan = False\<rparr>"

definition env_huge :: Collaborators where
  "env_huge = env0\<lparr>create_tree := Inr [scan_node_huge]\<rparr>"

definition env_mem_limit :: Collaborators where
  "env_mem_limit = env0\<lparr>check_mem_limit := Error (CollaboratorError 3)\<rparr>"

text \<open>The same collaborators, except that preparing driver 1 of pipeline 0 fails.\<close>

definition env_driver_fails :: Collaborators where
  "env_driver_fails =
     env0\<lparr>driver_prepare := (\<lambda>d. if d = Driver 0 1 then Error (CollaboratorError 7) else OK)\<rparr>"

text \<open>
  A process with no query, a driver limiter with room for 100 lanes, and a new
  executor; and the same with room for 2 lanes only.
\<close>

definition state0 :: State where
  "state0 =
     \<lparr>query_context_mgr = Map.empty,
      driver_limiter = \<lparr>max_num_drivers = 100, num_total_drivers = 0, requests = []\<rparr>,
      run_queue = [], prepared_drivers = [],
      this_query_ctx = None, this_fragment_ctx = None, this_wg = None\<rparr>"


text \<open>
  The fragment context of the request as \<^verbatim>\<open>_prepare_fragment_ctx\<close> makes it, the same
  with the pipelines of the builder, and the state of an executor that has come as far
  as \<^verbatim>\<open>_prepare_exec_plan\<close>: query context registered, fragment context made, default work
  group chosen.
\<close>

definition fragment_ctx0 :: FragmentContext where
  "fragment_ctx0 =
     (FragmentContext_new (builder_pipelines env0) (builder_op_factories env0))
       \<lparr>fc_query_id := TUniqueId 1 1, fc_fragment_instance_id := TUniqueId 1 2\<rparr>"

definition fragment_ctx_built :: FragmentContext where
  "fragment_ctx_built = fragment_ctx0\<lparr>pipelines := [0, 1]\<rparr>"

definition state_before_plan :: State where
  "state_before_plan =
     state0\<lparr>query_context_mgr := [TUniqueId 1 1 \<mapsto> QueryContext_new\<lparr>num_active_fragments := 1\<rparr>],
            this_query_ctx := Some (TUniqueId 1 1),
            this_fragment_ctx := Some fragment_ctx0,
            this_wg := Some (get_default_workgroup env0)\<rparr>"

text \<open>The same state under a work group whose ceiling is \<^verbatim>\<open>INT64_MAX\<close>.\<close>

definition state_huge :: State where
  "state_huge =
     state_before_plan\<lparr>this_wg := Some \<lparr>wg_id = 0, big_query_scan_rows_limit = 9223372036854775807\<rparr>\<rparr>"

text \<open>
  A scan range of tablet 5 in partition 7, a cache parameter that lists plan node 1 and
  registers the region \<open>[1, 2, 3]\<close> for partition 7, and three variations of the request:
  shared scan requested; cache requested without per-lane scan ranges; cache and shared
  scan requested with the scan range on lane 0 of plan node 1.
\<close>

definition scan_range57 :: TScanRangeParams where
  "scan_range57 =
     \<lparr>scan_range = \<lparr>internal_scan_range = Some \<lparr>tablet_id = 5, partition_id = 7\<rparr>\<rparr>\<rparr>"

definition cache_param1 :: TCacheParam where
  "cache_param1 =
     TCacheParam_default\<lparr>tcache_cached_plan_node_ids := Some [1],
                         tcache_region_map := [7 \<mapsto> [1, 2, 3]]\<rparr>"

definition request_shared :: UnifiedExecPlanFragmentParams where
  "request_shared = request0\<lparr>enable_shared_scan := Some True\<rparr>"

definition request_cache_no_lanes :: UnifiedExecPlanFragmentParams where
  "request_cache_no_lanes = request0\<lparr>enable_shared_scan := Some True, cache_param := Some cache_param1\<rparr>"

definition request_cache :: UnifiedExecPlanFragmentParams where
  "request_cache =
     request0\<lparr>enable_shared_scan := Some True, cache_param := Some cache_param1,
              node_to_per_driver_seq_scan_ranges := Some [1 \<mapsto> [(0, [scan_range57])]]\<rparr>"

section \<open>Properties\<close>

subsection \<open>Deadlines\<close>

text \<open>
  C8. The delivery-expire seconds are \<open>max 1 (min delivery_timeout query_timeout)\<close> when
  both options are set, \<open>max 1 delivery_timeout\<close> when only the delivery timeout is
  set, \<open>max 1 query_timeout\<close> when only the query timeout is set, and otherwise a value
  fixed by the default constant alone (the constant itself once it is at least 1). The
  query-expire seconds are \<open>max 1 query_timeout\<close> when set and the default constant
  otherwise. With \<open>query_timeout = 5\<close> and no delivery timeout both are 5; with
  delivery timeout 2 and \<open>query_timeout = 5\<close> the delivery-expire seconds are 2.
\<close>

theorem C8_expire_seconds:
  "(query_delivery_timeout (query_options r) = Some dt \<and> query_timeout (query_options r) = Some qt \<longrightarrow>
      calc_delivery_expired_seconds D r = max 1 (min dt qt))
   \<and> (query_delivery_timeout (query_options r) = Some dt \<and> query_timeout (query_options r) = None \<longrightarrow>
      calc_delivery_expired_seconds D r = max 1 dt)
   \<and> (query_delivery_timeout (query_options r) = None \<and> query_timeout (query_options r) = Some qt \<longrightarrow>
      calc_delivery_expired_seconds D r = max 1 qt)
   \<and> (query_delivery_timeout (query_options r) = None \<and> query_timeout (query_options r) = None \<longrightarrow>
      calc_delivery_expired_seconds D r = max 1 D
      \<and> (1 \<le> D \<longrightarrow> calc_delivery_expired_seconds D r = D))
   \<and> (query_timeout (query_options r) = Some qt \<longrightarrow> calc_query_expired_seconds D r = max 1 qt)
   \<and> (query_timeout (query_options r) = None \<longrightarrow> calc_query_expired_seconds D r = D)
   \<and> calc_delivery_expired_seconds D
        (r\<lparr>query_options := (query_options r)\<lparr>query_timeout := Some 5, query_delivery_timeout := None\<rparr>\<rparr>) = 5
   \<and> calc_query_expired_seconds D
        (r\<lparr>query_options := (query_options r)\<lparr>query_timeout := Some 5, query_delivery_timeout := None\<rparr>\<rparr>) = 5
   \<and> calc_delivery_expired_seconds D
        (r\<lparr>query_options := (query_options r)\<lparr>query_timeout := Some 5, query_delivery_timeout := Some 2\<rparr>\<rparr>) = 2"
  by (simp add: calc_delivery_expired_seconds_def calc_query_expired_seconds_def min.commute)

theorem C8_expire_seconds_witness:
  "calc_delivery_expired_seconds 300
     (request0\<lparr>query_options := TQueryOptions_unset\<lparr>query_timeout := Some 7, query_delivery_timeout := Some 0\<rparr>\<rparr>) = 1
   \<and> calc_query_expired_seconds 300
     (request0\<lparr>query_options := TQueryOptions_unset\<lparr>query_timeout := Some 7, query_delivery_timeout := Some 0\<rparr>\<rparr>) = 7
   \<and> calc_delivery_expired_seconds 300 request0 = 300
   \<and> calc_query_expired_seconds 300 request0 = 300"
  using
    C8_expire_seconds [of "request0\<lparr>query_options := TQueryOptions_unset\<lparr>query_timeout := Some 7, query_delivery_timeout := Some 0\<rparr>\<rparr>" 0 7 300]
    C8_expire_seconds [of request0 0 0 300]
  by (simp add: request0_def TQueryOptions_unset_def)

subsection \<open>Scan nodes: query cache and shared scan\<close>

lemma prepare_scan_node_cache:
  "enable_cache (fst (fst (snd (prepare_scan_node env req dop etip mode n st)))) =
     (enable_cache (fst st) \<and> per_driver_seq_scan_ranges_of_node req (node_id n) \<noteq> [])"
  by (simp add: prepare_scan_node_def Let_def split: sum.splits)

lemma prepare_scan_node_shared:
  "snd (fst (snd (prepare_scan_node env req dop etip mode n st))) =
     (snd st \<and> \<not> (enable_cache (fst st) \<and> per_driver_seq_scan_ranges_of_node req (node_id n) \<noteq> []))"
  by (auto simp add: prepare_scan_node_def Let_def split: sum.splits)

lemma prepare_scan_node_flag:
  "fst (prepare_scan_node env req dop etip mode n st) = OK \<Longrightarrow>
   \<exists>mqf. convert_scan_range_to_morsel_queue_factory env n (scan_ranges_of_node req (node_id n))
            (per_driver_seq_scan_ranges_of_node req (node_id n)) (node_id n) dop etip mode = Inr mqf
     \<and> snd (snd (prepare_scan_node env req dop etip mode n st)) =
         n\<lparr>shared_scan := (snd (fst (snd (prepare_scan_node env req dop etip mode n st))) \<and> is_shared mqf)\<rparr>"
  by (auto simp add: prepare_scan_node_def Let_def split: sum.splits)

lemma prepare_scan_node_error:
  "fst (prepare_scan_node env req dop etip mode n st) \<noteq> OK \<Longrightarrow>
   snd (snd (prepare_scan_node env req dop etip mode n st)) = n"
  by (auto simp add: prepare_scan_node_def Let_def split: sum.splits)

text \<open>Over the loop the cache flag is never switched on, and neither is the shared-scan local.\<close>

lemma loop_cache_mono:
  "prepare_scan_nodes env req dop etip mode ns st = (status, st', ns') \<Longrightarrow>
   enable_cache (fst st') \<Longrightarrow> enable_cache (fst st)"
proof (induction ns arbitrary: st status st' ns')
  case Nil then show ?case by simp
next
  case (Cons n ns)
  obtain r st1 n1 where step: "prepare_scan_node env req dop etip mode n st = (r, st1, n1)"
    by (cases "prepare_scan_node env req dop etip mode n st") auto
  have c1: "enable_cache (fst st1) \<Longrightarrow> enable_cache (fst st)"
    using prepare_scan_node_cache [of env req dop etip mode n st] step by simp
  show ?case
  proof (cases r)
    case OK
    obtain r2 st2 ns2 where rest: "prepare_scan_nodes env req dop etip mode ns st1 = (r2, st2, ns2)"
      by (cases "prepare_scan_nodes env req dop etip mode ns st1") auto
    with Cons.prems step OK have "st' = st2" by simp
    with Cons.IH [OF rest] Cons.prems(2) c1 show ?thesis by simp
  next
    case (Error e)
    with Cons.prems step have "st' = st1" by simp
    with c1 Cons.prems(2) show ?thesis by simp
  qed
qed

lemma loop_length:
  "prepare_scan_nodes env req dop etip mode ns st = (status, st', ns') \<Longrightarrow> length ns' = length ns"
proof (induction ns arbitrary: st status st' ns')
  case Nil then show ?case by simp
next
  case (Cons n ns)
  then show ?case
    by (auto split: prod.splits Status.splits)
qed

lemma loop_cache_empty:
  "prepare_scan_nodes env req dop etip mode ns st = (OK, st', ns') \<Longrightarrow>
   n \<in> set ns \<Longrightarrow> per_driver_seq_scan_ranges_of_node req (node_id n) = [] \<Longrightarrow>
   \<not> enable_cache (fst st')"
proof (induction ns arbitrary: st st' ns')
  case Nil then show ?case by simp
next
  case (Cons m ns)
  obtain r st1 n1 where step: "prepare_scan_node env req dop etip mode m st = (r, st1, n1)"
    by (cases "prepare_scan_node env req dop etip mode m st") auto
  with Cons.prems(1) have r: "r = OK" by (cases r) auto
  obtain r2 st2 ns2 where rest: "prepare_scan_nodes env req dop etip mode ns st1 = (r2, st2, ns2)"
    by (cases "prepare_scan_nodes env req dop etip mode ns st1") auto
  with Cons.prems(1) step r have eq: "r2 = OK" "st' = st2" by auto
  show ?case
  proof (cases "n = m")
    case True
    have "\<not> enable_cache (fst st1)"
      using prepare_scan_node_cache [of env req dop etip mode m st] step True Cons.prems(3) by simp
    with loop_cache_mono [OF rest] eq show ?thesis by auto
  next
    case False
    with Cons.prems(2) have "n \<in> set ns" by simp
    from Cons.IH [OF rest [unfolded eq(1)] this Cons.prems(3)] eq show ?thesis by simp
  qed
qed

lemma loop_cache_no_shared:
  "prepare_scan_nodes env req dop etip mode ns st = (OK, st', ns') \<Longrightarrow>
   enable_cache (fst st') \<Longrightarrow> n \<in> set ns' \<Longrightarrow> \<not> shared_scan n"
proof (induction ns arbitrary: st st' ns')
  case Nil then show ?case by simp
next
  case (Cons m ns)
  obtain r st1 n1 where step: "prepare_scan_node env req dop etip mode m st = (r, st1, n1)"
    by (cases "prepare_scan_node env req dop etip mode m st") auto
  with Cons.prems(1) have r: "r = OK" by (cases r) auto
  obtain r2 st2 ns2 where rest: "prepare_scan_nodes env req dop etip mode ns st1 = (r2, st2, ns2)"
    by (cases "prepare_scan_nodes env req dop etip mode ns st1") auto
  with Cons.prems(1) step r have eq: "r2 = OK" "st' = st2" "ns' = n1 # ns2" by auto
  have c1: "enable_cache (fst st1)"
    using loop_cache_mono [OF rest] eq Cons.prems(2) by simp
  then have "enable_cache (fst st) \<and> per_driver_seq_scan_ranges_of_node req (node_id m) \<noteq> []"
    using prepare_scan_node_cache [of env req dop etip mode m st] step by simp
  then have "\<not> snd st1"
    using prepare_scan_node_shared [of env req dop etip mode m st] step by simp
  moreover have "fst (prepare_scan_node env req dop etip mode m st) = OK" using step r by simp
  ultimately have n1: "\<not> shared_scan n1"
    using prepare_scan_node_flag [of env req dop etip mode m st] step by auto
  show ?case
  proof (cases "n = n1")
    case True with n1 show ?thesis by simp
  next
    case False
    with Cons.prems(3) eq have "n \<in> set ns2" by simp
    from Cons.IH [OF rest [unfolded eq(1)] _ this] eq Cons.prems(2) show ?thesis by simp
  qed
qed


lemma set_scan_limit_fragment_ctx [simp]:
  "this_fragment_ctx (set_scan_limit l s) = this_fragment_ctx s"
  by (simp add: set_scan_limit_def update_query_ctx_def Let_def split: option.splits)

lemma prepare_exec_plan_OK:
  assumes "prepare_exec_plan env req s = (OK, s')"
  shows "\<exists>fc nodes st ns limits.
     this_fragment_ctx s = Some fc \<and> create_tree env = Inr nodes \<and>
     prepare_scan_nodes env req (calc_dop env req) (requested_tablet_internal_parallel req)
       (requested_parallel_mode req) nodes
       (set_up_cache_param req (fc\<lparr>scan_nodes := nodes\<rparr>), requested_shared_scan req) = (OK, st, ns) \<and>
     scan_limits (chunk_size env) (calc_dop env req) ns (0, 0) = Inr limits \<and>
     s' = set_scan_limit limits (s\<lparr>this_fragment_ctx := Some ((fst st)\<lparr>scan_nodes := ns\<rparr>)\<rparr>)"
  using assms
  by (auto simp add: prepare_exec_plan_def split: option.splits sum.splits prod.splits Status.splits)

lemma loop_shared_flag:
  "prepare_scan_nodes env req dop etip mode ns st = (OK, st', ns') \<Longrightarrow> i < length ns \<Longrightarrow>
   shared_scan (ns' ! i) \<Longrightarrow>
   snd st \<and> (\<exists>st_i ns_i mqf.
      prepare_scan_nodes env req dop etip mode (take i ns) st = (OK, st_i, ns_i)
      \<and> \<not> enable_cache (fst (fst (snd (prepare_scan_node env req dop etip mode (ns ! i) st_i))))
      \<and> convert_scan_range_to_morsel_queue_factory env (ns ! i) (scan_ranges_of_node req (node_id (ns ! i)))
            (per_driver_seq_scan_ranges_of_node req (node_id (ns ! i))) (node_id (ns ! i)) dop etip mode = Inr mqf
      \<and> is_shared mqf)"
proof (induction ns arbitrary: st st' ns' i)
  case Nil then show ?case by simp
next
  case (Cons m ns)
  obtain r st1 n1 where step: "prepare_scan_node env req dop etip mode m st = (r, st1, n1)"
    by (cases "prepare_scan_node env req dop etip mode m st") auto
  with Cons.prems(1) have r: "r = OK" by (cases r) auto
  obtain r2 st2 ns2 where rest: "prepare_scan_nodes env req dop etip mode ns st1 = (r2, st2, ns2)"
    by (cases "prepare_scan_nodes env req dop etip mode ns st1") auto
  with Cons.prems(1) step r have eq: "r2 = OK" "st' = st2" "ns' = n1 # ns2" by auto
  have sh1: "snd st1 = (snd st \<and> \<not> enable_cache (fst st1))"
    using prepare_scan_node_shared [of env req dop etip mode m st]
      prepare_scan_node_cache [of env req dop etip mode m st] step by simp
  have ok: "fst (prepare_scan_node env req dop etip mode m st) = OK" using step r by simp
  obtain mqf where mqf: "convert_scan_range_to_morsel_queue_factory env m (scan_ranges_of_node req (node_id m))
            (per_driver_seq_scan_ranges_of_node req (node_id m)) (node_id m) dop etip mode = Inr mqf"
      "n1 = m\<lparr>shared_scan := (snd st1 \<and> is_shared mqf)\<rparr>"
    using prepare_scan_node_flag [OF ok] step by auto
  show ?case
  proof (cases i)
    case 0
    with Cons.prems(3) eq mqf have "snd st1" "is_shared mqf" by simp_all
    with sh1 mqf 0 step show ?thesis by simp
  next
    case (Suc j)
    with Cons.prems eq have j: "j < length ns" "shared_scan (ns2 ! j)" by simp_all
    from Cons.IH [OF rest [unfolded eq(1)] j] obtain st_i ns_i mqf' where
      ih: "snd st1" "prepare_scan_nodes env req dop etip mode (take j ns) st1 = (OK, st_i, ns_i)"
        "\<not> enable_cache (fst (fst (snd (prepare_scan_node env req dop etip mode (ns ! j) st_i))))"
        "convert_scan_range_to_morsel_queue_factory env (ns ! j) (scan_ranges_of_node req (node_id (ns ! j)))
            (per_driver_seq_scan_ranges_of_node req (node_id (ns ! j))) (node_id (ns ! j)) dop etip mode = Inr mqf'"
        "is_shared mqf'"
      by blast
    have "prepare_scan_nodes env req dop etip mode (take i (m # ns)) st = (OK, st_i, n1 # ns_i)"
      using Suc step r ih(2) by simp
    with ih sh1 Suc show ?thesis by simp
  qed
qed


text \<open>
  C5. Whenever plan preparation succeeds and leaves the query cache enabled for the
  fragment, the shared-scan flag of every scan node of the fragment is false: cache
  mode and shared-scan mode are never both true for a scan operator, whatever the
  request and the collaborators' answers.
\<close>

theorem C5_cache_excludes_shared_scan:
  assumes "prepare_exec_plan exec_env request s = (OK, s')"
      and "this_fragment_ctx s' = Some fragment_ctx'"
      and "enable_cache fragment_ctx'"
      and "scan_node \<in> set (scan_nodes fragment_ctx')"
  shows "\<not> shared_scan scan_node"
proof -
  from prepare_exec_plan_OK [OF assms(1)] obtain fc nodes st ns limits where
    run: "prepare_scan_nodes exec_env request (calc_dop exec_env request)
            (requested_tablet_internal_parallel request) (requested_parallel_mode request) nodes
            (set_up_cache_param request (fc\<lparr>scan_nodes := nodes\<rparr>), requested_shared_scan request)
          = (OK, st, ns)"
    and s': "s' = set_scan_limit limits (s\<lparr>this_fragment_ctx := Some ((fst st)\<lparr>scan_nodes := ns\<rparr>)\<rparr>)"
    by blast
  from s' assms(2) have fc': "fragment_ctx' = (fst st)\<lparr>scan_nodes := ns\<rparr>" by simp
  with assms(3,4) have "enable_cache (fst st)" "scan_node \<in> set ns" by simp_all
  with loop_cache_no_shared [OF run] show ?thesis by blast
qed

text \<open>
  C6. If the per-driver-sequence scan-range map of any scan node of the plan is empty,
  a successful plan preparation leaves the cache disabled for the fragment. The flag
  becomes false when the loop reaches that node and stays false: whatever scan nodes
  the loop processes afterwards, and whether or not it then fails, the cache is still
  disabled.
\<close>

theorem C6_empty_per_lane_ranges_disable_cache:
  "(prepare_exec_plan exec_env request s = (OK, s') \<and> create_tree exec_env = Inr plan_scan_nodes
      \<and> scan_node \<in> set plan_scan_nodes
      \<and> per_driver_seq_scan_ranges_of_node request (node_id scan_node) = []
    \<longrightarrow> (\<exists>fragment_ctx'. this_fragment_ctx s' = Some fragment_ctx' \<and> \<not> enable_cache fragment_ctx'))
   \<and> (prepare_scan_nodes exec_env request dop etip mode ns st = (OK, st1, ns1)
      \<and> scan_node \<in> set ns
      \<and> per_driver_seq_scan_ranges_of_node request (node_id scan_node) = []
      \<and> prepare_scan_nodes exec_env request dop etip mode later st1 = (status, st2, ns2)
    \<longrightarrow> \<not> enable_cache (fst st1) \<and> \<not> enable_cache (fst st2))"
proof (rule conjI; rule impI)
  assume a: "prepare_exec_plan exec_env request s = (OK, s') \<and> create_tree exec_env = Inr plan_scan_nodes
      \<and> scan_node \<in> set plan_scan_nodes
      \<and> per_driver_seq_scan_ranges_of_node request (node_id scan_node) = []"
  from prepare_exec_plan_OK [of exec_env request s s'] a obtain fc st ns limits where
    run: "prepare_scan_nodes exec_env request (calc_dop exec_env request)
            (requested_tablet_internal_parallel request) (requested_parallel_mode request) plan_scan_nodes
            (set_up_cache_param request (fc\<lparr>scan_nodes := plan_scan_nodes\<rparr>), requested_shared_scan request)
          = (OK, st, ns)"
    and s': "s' = set_scan_limit limits (s\<lparr>this_fragment_ctx := Some ((fst st)\<lparr>scan_nodes := ns\<rparr>)\<rparr>)"
    by auto
  from loop_cache_empty [OF run, of scan_node] a have "\<not> enable_cache (fst st)" by simp
  moreover from s' have "this_fragment_ctx s' = Some ((fst st)\<lparr>scan_nodes := ns\<rparr>)" by simp
  ultimately show "\<exists>fragment_ctx'. this_fragment_ctx s' = Some fragment_ctx' \<and> \<not> enable_cache fragment_ctx'"
    by simp
next
  assume b: "prepare_scan_nodes exec_env request dop etip mode ns st = (OK, st1, ns1)
      \<and> scan_node \<in> set ns
      \<and> per_driver_seq_scan_ranges_of_node request (node_id scan_node) = []
      \<and> prepare_scan_nodes exec_env request dop etip mode later st1 = (status, st2, ns2)"
  then have 1: "\<not> enable_cache (fst st1)" using loop_cache_empty by blast
  moreover from b loop_cache_mono have "enable_cache (fst st2) \<Longrightarrow> enable_cache (fst st1)" by blast
  ultimately show "\<not> enable_cache (fst st1) \<and> \<not> enable_cache (fst st2)" by blast
qed

text \<open>
  C10. After a successful plan preparation the shared-scan flag of the \<open>i\<close>-th scan node
  is true only if shared scan was requested for the fragment, the query cache is not
  enabled at the moment the loop processes that node (the loop has run over the first
  \<open>i\<close> nodes and applied the empty-map check of node \<open>i\<close>), and the morsel queue factory
  built for that very node reports \<open>is_shared\<close>.
\<close>

theorem C10_shared_scan_flag:
  assumes "prepare_exec_plan exec_env request s = (OK, s')"
      and "this_fragment_ctx s = Some fragment_ctx"
      and "create_tree exec_env = Inr plan_scan_nodes"
      and "this_fragment_ctx s' = Some fragment_ctx'"
      and "i < length plan_scan_nodes"
      and "shared_scan (scan_nodes fragment_ctx' ! i)"
  shows "requested_shared_scan request
     \<and> (\<exists>st_i ns_i mqf.
          prepare_scan_nodes exec_env request (calc_dop exec_env request)
            (requested_tablet_internal_parallel request) (requested_parallel_mode request)
            (take i plan_scan_nodes)
            (set_up_cache_param request (fragment_ctx\<lparr>scan_nodes := plan_scan_nodes\<rparr>),
             requested_shared_scan request) = (OK, st_i, ns_i)
          \<and> \<not> enable_cache (fst (fst (snd (prepare_scan_node exec_env request (calc_dop exec_env request)
                 (requested_tablet_internal_parallel request) (requested_parallel_mode request)
                 (plan_scan_nodes ! i) st_i))))
          \<and> convert_scan_range_to_morsel_queue_factory exec_env (plan_scan_nodes ! i)
               (scan_ranges_of_node request (node_id (plan_scan_nodes ! i)))
               (per_driver_seq_scan_ranges_of_node request (node_id (plan_scan_nodes ! i)))
               (node_id (plan_scan_nodes ! i)) (calc_dop exec_env request)
               (requested_tablet_internal_parallel request) (requested_parallel_mode request) = Inr mqf
          \<and> is_shared mqf)"
proof -
  from prepare_exec_plan_OK [OF assms(1)] assms(2,3) obtain st ns limits where
    run: "prepare_scan_nodes exec_env request (calc_dop exec_env request)
            (requested_tablet_internal_parallel request) (requested_parallel_mode request) plan_scan_nodes
            (set_up_cache_param request (fragment_ctx\<lparr>scan_nodes := plan_scan_nodes\<rparr>),
             requested_shared_scan request) = (OK, st, ns)"
    and s': "s' = set_scan_limit limits (s\<lparr>this_fragment_ctx := Some ((fst st)\<lparr>scan_nodes := ns\<rparr>)\<rparr>)"
    by auto
  from s' assms(4) have "scan_nodes fragment_ctx' = ns" by auto
  with assms(6) have "shared_scan (ns ! i)" by simp
  from loop_shared_flag [OF run assms(5) this] show ?thesis
    unfolding snd_conv .
qed

subsection \<open>Cache-key prefixes\<close>

lemma compute_cache_key_prefix_spec:
  "cache_key_prefixes (compute_cache_key_prefix tc r cp) =
     (case spec_cache_key_prefix tc r of
        None \<Rightarrow> cache_key_prefixes cp
      | Some (t, k) \<Rightarrow> (cache_key_prefixes cp)(t \<mapsto> k))"
  by (simp add: compute_cache_key_prefix_def spec_cache_key_prefix_def cache_prefix_key_def
      split: option.splits)


lemma map_filter_append_eq:
  "List.map_filter f (xs @ ys) = List.map_filter f xs @ List.map_filter f ys"
  by (simp add: List.map_filter_def)

lemma fold_ranges_prefixes:
  "cache_key_prefixes (fold (compute_cache_key_prefix tc) rs cp) =
     cache_key_prefixes cp ++ map_of (rev (List.map_filter (spec_cache_key_prefix tc) rs))"
proof (induction rs arbitrary: cp)
  case Nil then show ?case by simp
next
  case (Cons r rs)
  show ?case
  proof (cases "spec_cache_key_prefix tc r")
    case None
    then show ?thesis
      using Cons.IH [of "compute_cache_key_prefix tc r cp"]
      by (simp add: compute_cache_key_prefix_spec)
  next
    case (Some tk)
    obtain t k where tk: "tk = (t, k)" by (cases tk)
    have step: "cache_key_prefixes (compute_cache_key_prefix tc r cp) = (cache_key_prefixes cp)(t \<mapsto> k)"
      using Some tk by (simp add: compute_cache_key_prefix_spec)
    have "cache_key_prefixes (fold (compute_cache_key_prefix tc) (r # rs) cp) =
          cache_key_prefixes (compute_cache_key_prefix tc r cp)
            ++ map_of (rev (List.map_filter (spec_cache_key_prefix tc) rs))"
      using Cons.IH [of "compute_cache_key_prefix tc r cp"] by simp
    also have "\<dots> = (cache_key_prefixes cp ++ map_of [(t, k)])
            ++ map_of (rev (List.map_filter (spec_cache_key_prefix tc) rs))"
      by (simp only: step map_of.simps map_add_upd map_add_empty fst_conv snd_conv)
    also have "\<dots> = cache_key_prefixes cp ++ (map_of [(t, k)] ++ map_of (rev (List.map_filter (spec_cache_key_prefix tc) rs)))"
      by (simp only: map_add_assoc)
    also have "\<dots> = cache_key_prefixes cp ++ map_of (rev (List.map_filter (spec_cache_key_prefix tc) (r # rs)))"
      using Some tk by simp
    finally show ?thesis .
  qed
qed

lemma compute_cache_key_prefixes_spec:
  "cache_key_prefixes (compute_cache_key_prefixes tc m cp) =
     cache_key_prefixes cp ++ map_of (rev (List.map_filter (spec_cache_key_prefix tc) (concat (map snd m))))"
  unfolding compute_cache_key_prefixes_def
proof (induction m arbitrary: cp)
  case Nil then show ?case by simp
next
  case (Cons e m)
  obtain d rs where e: "e = (d, rs)" by (cases e)
  show ?case
    using Cons.IH [of "fold (compute_cache_key_prefix tc) rs cp"]
    by (simp add: e fold_ranges_prefixes map_filter_append_eq)
qed

lemma int64_bytes_length [simp]: "length (int64_bytes v) = 8"
  by (simp add: int64_bytes_def)


lemma prepare_scan_node_prefixes:
  "after_scan_node_prefixes env req dop etip mode n fc sh =
     (if enable_cache fc \<and> per_driver_seq_scan_ranges_of_node req (node_id n) \<noteq> []
         \<and> node_id n \<in> cached_plan_node_ids (fc_cache_param fc)
      then cache_key_prefixes (fc_cache_param fc)
             ++ map_of (rev (List.map_filter (spec_cache_key_prefix (fragment_cache_param req))
                  (scan_ranges_of_all_driver_seqs req n)))
      else cache_key_prefixes (fc_cache_param fc))"
  by (simp add: after_scan_node_prefixes_def scan_ranges_of_all_driver_seqs_def
      prepare_scan_node_def Let_def compute_cache_key_prefixes_spec split: sum.splits)

lemma map_of_rev_consistent:
  assumes "(t, k) \<in> set xs" and "\<forall>k'. (t, k') \<in> set xs \<longrightarrow> k' = k"
  shows "(m ++ map_of (rev xs)) t = Some k"
proof -
  from assms(1) have "t \<in> fst ` set (rev xs)" by force
  then obtain k' where k': "map_of (rev xs) t = Some k'"
    by (cases "map_of (rev xs) t") (auto simp: map_of_eq_None_iff)
  then have "(t, k') \<in> set xs" using map_of_SomeD by fastforce
  with assms(2) have "k' = k" by blast
  with k' show ?thesis by (simp add: map_add_Some_iff)
qed

lemma map_of_rev_absent:
  assumes "\<forall>k. (t, k) \<notin> set xs"
  shows "(m ++ map_of (rev xs)) t = m t"
proof -
  have "map_of (rev xs) t = None"
    using assms by (auto simp: map_of_eq_None_iff)
  then show ?thesis by (simp add: map_add_def)
qed

lemma set_map_filter: "set (List.map_filter f xs) = {y. \<exists>x \<in> set xs. f x = Some y}"
  by (induction xs) (auto split: option.splits)

text \<open>
  C7. An internal scan range whose partition has a registered region stores, for its
  tablet, the concatenation of the bytes of the partition id, the region bytes and the
  bytes of the tablet id, of length \<open>8 + length region + 8\<close> (8 being \<open>sizeof\<close> of either
  id); a scan range that is not internal, or whose partition has no region, stores
  nothing. For a scan node processed while the cache is enabled and listed in
  the cached plan nodes, the prefixes afterwards are the earlier ones overridden by the
  prefixes of its scan ranges, a later range winning for a tablet that occurs twice;
  for any other scan node they are unchanged. Hence, when the ranges of a tablet agree
  on its partition, the prefix found for the tablet of such a range is that
  concatenation, and a tablet all of whose ranges lack a region keeps what it had.
\<close>

theorem C7_cache_key_prefix:
    "(internal_scan_range (scan_range r) = Some isr \<and> tcache_region_map (fragment_cache_param request) (partition_id isr) = Some region
       \<longrightarrow> cache_key_prefixes (compute_cache_key_prefix (fragment_cache_param request) r cp) (tablet_id isr)
             = Some (int64_bytes (partition_id isr) @ region @ int64_bytes (tablet_id isr))
           \<and> length (int64_bytes (partition_id isr) @ region @ int64_bytes (tablet_id isr))
             = 8 + length region + 8)
     \<and> (internal_scan_range (scan_range r) = None \<longrightarrow> compute_cache_key_prefix (fragment_cache_param request) r cp = cp)
     \<and> (internal_scan_range (scan_range r) = Some isr \<and> tcache_region_map (fragment_cache_param request) (partition_id isr) = None
       \<longrightarrow> compute_cache_key_prefix (fragment_cache_param request) r cp = cp)
     \<and> (after_scan_node_prefixes exec_env request dop etip mode scan_node fragment_ctx shared) =
         (if enable_cache fragment_ctx \<and> per_driver_seq_scan_ranges_of_node request (node_id scan_node) \<noteq> [] \<and> node_id scan_node \<in> cached_plan_node_ids (fc_cache_param fragment_ctx)
          then cache_key_prefixes (fc_cache_param fragment_ctx)
                 ++ map_of (rev (List.map_filter (spec_cache_key_prefix (fragment_cache_param request)) (scan_ranges_of_all_driver_seqs request scan_node)))
          else cache_key_prefixes (fc_cache_param fragment_ctx))
     \<and> (enable_cache fragment_ctx \<and> node_id scan_node \<in> cached_plan_node_ids (fc_cache_param fragment_ctx)
        \<and> r \<in> set (scan_ranges_of_all_driver_seqs request scan_node)
        \<and> internal_scan_range (scan_range r) = Some isr
        \<and> tcache_region_map (fragment_cache_param request) (partition_id isr) = Some region
        \<and> (\<forall>r' \<in> set (scan_ranges_of_all_driver_seqs request scan_node). \<forall>isr'.
              internal_scan_range (scan_range r') = Some isr' \<and> tablet_id isr' = tablet_id isr
              \<longrightarrow> partition_id isr' = partition_id isr)
       \<longrightarrow> (after_scan_node_prefixes exec_env request dop etip mode scan_node fragment_ctx shared) (tablet_id isr)
             = Some (int64_bytes (partition_id isr) @ region @ int64_bytes (tablet_id isr)))
     \<and> (enable_cache fragment_ctx \<and> node_id scan_node \<in> cached_plan_node_ids (fc_cache_param fragment_ctx)
        \<and> (\<forall>r' \<in> set (scan_ranges_of_all_driver_seqs request scan_node). \<forall>isr'.
              internal_scan_range (scan_range r') = Some isr' \<and> tablet_id isr' = t
              \<longrightarrow> tcache_region_map (fragment_cache_param request) (partition_id isr') = None)
       \<longrightarrow> (after_scan_node_prefixes exec_env request dop etip mode scan_node fragment_ctx shared) t = cache_key_prefixes (fc_cache_param fragment_ctx) t)"
proof (intro conjI impI)
  assume "internal_scan_range (scan_range r) = Some isr \<and> tcache_region_map (fragment_cache_param request) (partition_id isr) = Some region"
  then show "cache_key_prefixes (compute_cache_key_prefix (fragment_cache_param request) r cp) (tablet_id isr)
             = Some (int64_bytes (partition_id isr) @ region @ int64_bytes (tablet_id isr))"
    by (simp add: compute_cache_key_prefix_def cache_prefix_key_def)
next
  show "length (int64_bytes (partition_id isr) @ region @ int64_bytes (tablet_id isr)) = 8 + length region + 8"
    by simp
next
  assume "internal_scan_range (scan_range r) = None"
  then show "compute_cache_key_prefix (fragment_cache_param request) r cp = cp" by (simp add: compute_cache_key_prefix_def)
next
  assume "internal_scan_range (scan_range r) = Some isr \<and> tcache_region_map (fragment_cache_param request) (partition_id isr) = None"
  then show "compute_cache_key_prefix (fragment_cache_param request) r cp = cp" by (simp add: compute_cache_key_prefix_def)
next
  show "(after_scan_node_prefixes exec_env request dop etip mode scan_node fragment_ctx shared) =
         (if enable_cache fragment_ctx \<and> per_driver_seq_scan_ranges_of_node request (node_id scan_node) \<noteq> [] \<and> node_id scan_node \<in> cached_plan_node_ids (fc_cache_param fragment_ctx)
          then cache_key_prefixes (fc_cache_param fragment_ctx)
                 ++ map_of (rev (List.map_filter (spec_cache_key_prefix (fragment_cache_param request)) (scan_ranges_of_all_driver_seqs request scan_node)))
          else cache_key_prefixes (fc_cache_param fragment_ctx))"
    by (rule prepare_scan_node_prefixes)
next
  assume a: "enable_cache fragment_ctx \<and> node_id scan_node \<in> cached_plan_node_ids (fc_cache_param fragment_ctx)
        \<and> r \<in> set (scan_ranges_of_all_driver_seqs request scan_node)
        \<and> internal_scan_range (scan_range r) = Some isr
        \<and> tcache_region_map (fragment_cache_param request) (partition_id isr) = Some region
        \<and> (\<forall>r' \<in> set (scan_ranges_of_all_driver_seqs request scan_node). \<forall>isr'.
              internal_scan_range (scan_range r') = Some isr' \<and> tablet_id isr' = tablet_id isr
              \<longrightarrow> partition_id isr' = partition_id isr)"
  then have a1: "enable_cache fragment_ctx"
    and a2: "node_id scan_node \<in> cached_plan_node_ids (fc_cache_param fragment_ctx)"
    and a3: "r \<in> set (scan_ranges_of_all_driver_seqs request scan_node)"
    and a4: "internal_scan_range (scan_range r) = Some isr"
    and a5: "tcache_region_map (fragment_cache_param request) (partition_id isr) = Some region"
    and a6: "\<And>r' isr'. r' \<in> set (scan_ranges_of_all_driver_seqs request scan_node) \<Longrightarrow>
              internal_scan_range (scan_range r') = Some isr' \<Longrightarrow> tablet_id isr' = tablet_id isr
              \<Longrightarrow> partition_id isr' = partition_id isr"
    by blast+
  let ?k = "int64_bytes (partition_id isr) @ region @ int64_bytes (tablet_id isr)"
  let ?xs = "List.map_filter (spec_cache_key_prefix (fragment_cache_param request))
               (scan_ranges_of_all_driver_seqs request scan_node)"
  from a3 have ne: "per_driver_seq_scan_ranges_of_node request (node_id scan_node) \<noteq> []"
    by (auto simp: scan_ranges_of_all_driver_seqs_def)
  have sp: "spec_cache_key_prefix (fragment_cache_param request) r = Some (tablet_id isr, ?k)"
    using a4 a5 by (simp add: spec_cache_key_prefix_def)
  with a3 have in1: "(tablet_id isr, ?k) \<in> set ?xs" by (auto simp: set_map_filter)
  have uniq: "\<forall>k'. (tablet_id isr, k') \<in> set ?xs \<longrightarrow> k' = ?k"
  proof (intro allI impI)
    fix k' assume "(tablet_id isr, k') \<in> set ?xs"
    then obtain r' where r': "r' \<in> set (scan_ranges_of_all_driver_seqs request scan_node)"
        "spec_cache_key_prefix (fragment_cache_param request) r' = Some (tablet_id isr, k')"
      by (auto simp: set_map_filter)
    from r'(2) obtain isr' region' where i': "internal_scan_range (scan_range r') = Some isr'"
        "tcache_region_map (fragment_cache_param request) (partition_id isr') = Some region'"
        "tablet_id isr' = tablet_id isr"
        "k' = int64_bytes (partition_id isr') @ region' @ int64_bytes (tablet_id isr')"
      by (auto simp: spec_cache_key_prefix_def split: option.splits)
    from a6 [OF r'(1) i'(1,3)] have p: "partition_id isr' = partition_id isr" .
    with i'(2) a5 have "region' = region" by simp
    with p i'(3,4) show "k' = ?k" by simp
  qed
  have "after_scan_node_prefixes exec_env request dop etip mode scan_node fragment_ctx shared
          = cache_key_prefixes (fc_cache_param fragment_ctx) ++ map_of (rev ?xs)"
    using a1 a2 ne by (simp add: prepare_scan_node_prefixes)
  with map_of_rev_consistent [OF in1 uniq]
  show "after_scan_node_prefixes exec_env request dop etip mode scan_node fragment_ctx shared (tablet_id isr)
          = Some ?k" by simp
next
  assume b: "enable_cache fragment_ctx \<and> node_id scan_node \<in> cached_plan_node_ids (fc_cache_param fragment_ctx)
        \<and> (\<forall>r' \<in> set (scan_ranges_of_all_driver_seqs request scan_node). \<forall>isr'.
              internal_scan_range (scan_range r') = Some isr' \<and> tablet_id isr' = t
              \<longrightarrow> tcache_region_map (fragment_cache_param request) (partition_id isr') = None)"
  then have b1: "enable_cache fragment_ctx"
    and b2: "node_id scan_node \<in> cached_plan_node_ids (fc_cache_param fragment_ctx)"
    and b3: "\<And>r' isr'. r' \<in> set (scan_ranges_of_all_driver_seqs request scan_node) \<Longrightarrow>
              internal_scan_range (scan_range r') = Some isr' \<Longrightarrow> tablet_id isr' = t
              \<Longrightarrow> tcache_region_map (fragment_cache_param request) (partition_id isr') = None"
    by blast+
  let ?xs = "List.map_filter (spec_cache_key_prefix (fragment_cache_param request))
               (scan_ranges_of_all_driver_seqs request scan_node)"
  have none: "\<forall>k. (t, k) \<notin> set ?xs"
  proof (intro allI notI)
    fix k assume "(t, k) \<in> set ?xs"
    then obtain r' where r': "r' \<in> set (scan_ranges_of_all_driver_seqs request scan_node)"
        "spec_cache_key_prefix (fragment_cache_param request) r' = Some (t, k)"
      by (auto simp: set_map_filter)
    from r'(2) obtain isr' region' where i': "internal_scan_range (scan_range r') = Some isr'"
        "tcache_region_map (fragment_cache_param request) (partition_id isr') = Some region'"
        "tablet_id isr' = t"
      by (auto simp: spec_cache_key_prefix_def split: option.splits)
    from b3 [OF r'(1) i'(1,3)] i'(2) show False by simp
  qed
  have "after_scan_node_prefixes exec_env request dop etip mode scan_node fragment_ctx shared
         = (if per_driver_seq_scan_ranges_of_node request (node_id scan_node) \<noteq> []
            then cache_key_prefixes (fc_cache_param fragment_ctx) ++ map_of (rev ?xs)
            else cache_key_prefixes (fc_cache_param fragment_ctx))"
    using b1 b2 by (simp add: prepare_scan_node_prefixes)
  with map_of_rev_absent [OF none]
  show "after_scan_node_prefixes exec_env request dop etip mode scan_node fragment_ctx shared t
          = cache_key_prefixes (fc_cache_param fragment_ctx) t" by simp
qed

subsection \<open>Scan limits\<close>

lemma sint_scast_32_64: "sint (scast (c :: 32 word) :: 64 word) = sint c"
  by (simp add: sint_up_scast is_up)

lemma scast_32_64_eq_0: "(scast (c :: 32 word) :: 64 word) = 0 \<longleftrightarrow> c = 0"
  by (metis sint_scast_32_64 sint_0 signed_eq_0_iff)

lemma sint_64_range: "- (2 ^ 63) \<le> sint (w :: 64 word) \<and> sint w < 2 ^ 63"
  using sint_ge [of w] sint_lt [of w] by simp

lemma sint_word_of_int_64:
  "- (2 ^ 63) \<le> v \<Longrightarrow> v < 2 ^ 63 \<Longrightarrow> sint (word_of_int v :: 64 word) = v"
  by (simp add: sint_sbintrunc' signed_take_bit_int_eq_self)

lemma sint_numerator:
  assumes "0 < sint (lim :: 64 word)" "- 1 \<le> sint (c :: 32 word)" "sint lim + sint c - 1 < 2 ^ 63"
  shows "sint (lim + scast c - 1) = sint lim + sint c - 1"
proof -
  have "lim + scast c - 1 = (word_of_int (sint lim + sint c - 1) :: 64 word)"
    by simp
  then have "sint (lim + scast c - 1) = signed_take_bit 63 (sint lim + sint c - 1)"
    by (simp only: sint_sbintrunc') simp
  also have "\<dots> = sint lim + sint c - 1"
    using assms by (intro signed_take_bit_int_eq_self) simp_all
  finally show ?thesis .
qed

lemma normalized_limit_no_trap:
  assumes "0 < sint lim" "c \<noteq> 0"
  shows "normalized_limit c lim
         = Inr (word_of_int (sint (lim + scast c - 1) sdiv sint c) * scast c)"
proof -
  have nz: "(scast c :: 64 word) \<noteq> 0" using assms(2) by (simp add: scast_32_64_eq_0)
  have "\<not> (sint (lim + scast c - 1) = - (2 ^ 63) \<and> sint c = - 1)"
  proof
    assume a: "sint (lim + scast c - 1) = - (2 ^ 63) \<and> sint c = - 1"
    have "sint lim + sint c - 1 < 2 ^ 63" using a sint_64_range [of lim] by simp
    from sint_numerator [OF assms(1) _ this] a have "sint lim - 2 = - (2 ^ 63)" by simp
    with assms(1) show False by simp
  qed
  with nz show ?thesis
    by (simp add: normalized_limit_def int64_div_def sint_scast_32_64)
qed

lemma normalized_limit_value:
  assumes "0 < sint lim" "0 < sint c" "sint lim + sint c - 1 < 2 ^ 63"
  shows "normalized_limit c lim = Inr (word_of_int ((sint lim + sint c - 1) div sint c * sint c))"
proof -
  from assms(2) have c: "c \<noteq> 0" by auto
  have n: "sint (lim + scast c - 1) = sint lim + sint c - 1"
    using assms by (intro sint_numerator) simp_all
  have "(sint lim + sint c - 1) sdiv sint c = (sint lim + sint c - 1) div sint c"
    using assms by (simp add: signed_divide_int_def sgn_if)
  then show ?thesis
    unfolding normalized_limit_no_trap [OF assms(1) c] n
    by simp
qed

lemma round_up_int:
  assumes "0 < (l :: int)" "0 < k"
  shows "k dvd (l + k - 1) div k * k \<and> l \<le> (l + k - 1) div k * k \<and> (l + k - 1) div k * k < l + k"
proof -
  let ?a = "l + k - 1"
  have "?a = ?a div k * k + ?a mod k" by simp
  moreover have "0 \<le> ?a mod k" "?a mod k < k" using assms by simp_all
  ultimately have "?a div k * k \<le> ?a" "?a - k < ?a div k * k" by linarith+
  then show ?thesis by simp
qed

lemma scan_limits_step:
  assumes "0 < sint (limit n)" "0 < sint c" "sint (limit n) + sint c - 1 < 2 ^ 63"
  shows "scan_limits c d (n # ns) (lg, ph)
         = scan_limits c d ns (lg + limit n, ph + word_of_int (spec_physical_term c d n))"
  using assms
  by (simp add: normalized_limit_value spec_physical_term_def)

lemma scan_limits_all_positive:
  assumes "0 < sint c"
      and "\<forall>n \<in> set ns. 0 < sint (limit n) \<and> sint (limit n) + sint c - 1 < 2 ^ 63"
  shows "scan_limits c d ns (lg, ph) =
     Inr (lg + word_of_int (sum_list (map (\<lambda>n. sint (limit n)) ns)),
          ph + word_of_int (sum_list (map (spec_physical_term c d) ns)))"
  using assms(2)
proof (induction ns arbitrary: lg ph)
  case Nil show ?case by simp
next
  case (Cons n ns)
  then have n: "0 < sint (limit n)" "sint (limit n) + sint c - 1 < 2 ^ 63"
    and rest: "\<forall>n \<in> set ns. 0 < sint (limit n) \<and> sint (limit n) + sint c - 1 < 2 ^ 63"
    by simp_all
  show ?case
    unfolding scan_limits_step [OF n(1) assms(1) n(2)] Cons.IH [OF rest]
    by (simp add: algebra_simps)
qed

lemma scan_limits_unlimited:
  "\<exists>n \<in> set ns. sint (limit n) \<le> 0 \<Longrightarrow> scan_limits c d ns (lg, ph) = Inr (lg', ph') \<Longrightarrow>
   lg' = - 1"
proof (induction ns arbitrary: lg ph)
  case Nil then show ?case by simp
next
  case (Cons n ns)
  show ?case
  proof (cases "0 < sint (limit n)")
    case False
    with Cons.prems(2) show ?thesis by simp
  next
    case True
    with Cons.prems(1) have u: "\<exists>n \<in> set ns. sint (limit n) \<le> 0" by auto
    from Cons.prems(2) True obtain nl where
      "scan_limits c d ns (lg + limit n, ph + nl * of_nat d * scast (io_tasks_per_scan_operator n))
       = Inr (lg', ph')"
      by (auto split: sum.splits)
    from Cons.IH [OF u this] show ?thesis .
  qed
qed

lemma scan_limits_no_trap:
  "c \<noteq> 0 \<Longrightarrow> \<exists>lg' ph'. scan_limits c d ns (lg, ph) = Inr (lg', ph')"
proof (induction ns arbitrary: lg ph)
  case Nil show ?case by simp
next
  case (Cons n ns)
  show ?case
  proof (cases "0 < sint (limit n)")
    case False then show ?thesis by simp
  next
    case True
    from Cons.IH [OF Cons.prems] True Cons.prems show ?thesis
      by (simp add: normalized_limit_no_trap)
  qed
qed

lemma scan_limits_cong:
  "map limit ns = map limit ms \<Longrightarrow> map io_tasks_per_scan_operator ns = map io_tasks_per_scan_operator ms \<Longrightarrow>
   scan_limits c d ns acc = scan_limits c d ms acc"
proof (induction ns arbitrary: ms acc)
  case Nil then show ?case by simp
next
  case (Cons n ns)
  then obtain m ms' where ms: "ms = m # ms'" by (cases ms) auto
  obtain lg ph where acc: "acc = (lg, ph)" by (cases acc)
  from Cons.prems ms have "limit n = limit m" "io_tasks_per_scan_operator n = io_tasks_per_scan_operator m"
    "map limit ns = map limit ms'" "map io_tasks_per_scan_operator ns = map io_tasks_per_scan_operator ms'"
    by simp_all
  with Cons.IH [of ms'] show ?case by (simp add: ms acc split: sum.splits)
qed

lemma prepare_scan_node_keeps_limit:
  "limit (snd (snd (prepare_scan_node env req dop etip mode n st))) = limit n
   \<and> io_tasks_per_scan_operator (snd (snd (prepare_scan_node env req dop etip mode n st))) = io_tasks_per_scan_operator n"
  by (simp add: prepare_scan_node_def Let_def split: sum.splits)

lemma loop_keeps_limits:
  "prepare_scan_nodes env req dop etip mode ns st = (status, st', ns') \<Longrightarrow>
   map limit ns' = map limit ns \<and> map io_tasks_per_scan_operator ns' = map io_tasks_per_scan_operator ns"
proof (induction ns arbitrary: st status st' ns')
  case Nil then show ?case by simp
next
  case (Cons m ns)
  obtain r st1 n1 where step: "prepare_scan_node env req dop etip mode m st = (r, st1, n1)"
    by (cases "prepare_scan_node env req dop etip mode m st") auto
  have k: "limit n1 = limit m" "io_tasks_per_scan_operator n1 = io_tasks_per_scan_operator m"
    using prepare_scan_node_keeps_limit [of env req dop etip mode m st] step by simp_all
  show ?case
  proof (cases r)
    case OK
    obtain r2 st2 ns2 where rest: "prepare_scan_nodes env req dop etip mode ns st1 = (r2, st2, ns2)"
      by (cases "prepare_scan_nodes env req dop etip mode ns st1") auto
    with Cons.prems step OK have "ns' = n1 # ns2" by simp
    with Cons.IH [OF rest] k show ?thesis by simp
  next
    case (Error e)
    with Cons.prems step have "ns' = n1 # ns" by simp
    with k show ?thesis by simp
  qed
qed

lemma set_scan_limit_ceiling:
  assumes "this_wg s = Some wg" "0 < sint (big_query_scan_rows_limit wg)" "the_query_ctx s = Some q"
  shows "the_query_ctx (set_scan_limit (lg, ph) s) =
     Some (q\<lparr>scan_limit := (if 0 \<le> sint lg \<and> sint lg \<le> sint (big_query_scan_rows_limit wg)
                             then int64_max (big_query_scan_rows_limit wg) ph
                             else big_query_scan_rows_limit wg)\<rparr>)"
  using assms
  by (auto simp add: set_scan_limit_def update_query_ctx_def the_query_ctx_def split: option.splits)

lemma set_scan_limit_no_ceiling:
  assumes "this_wg s = None \<or> (\<exists>wg. this_wg s = Some wg \<and> sint (big_query_scan_rows_limit wg) \<le> 0)"
  shows "set_scan_limit l s = s"
  using assms by (auto simp add: set_scan_limit_def Let_def)

lemma prepare_exec_plan_scan_limit:
  assumes run0: "prepare_exec_plan exec_env request s = (OK, s')"
      and tree: "create_tree exec_env = Inr plan_scan_nodes"
      and wg: "this_wg s = Some wg" "0 < sint (big_query_scan_rows_limit wg)"
      and q: "the_query_ctx s = Some q"
  shows "\<exists>logical physical.
          scan_limits (chunk_size exec_env) (calc_dop exec_env request) plan_scan_nodes (0, 0)
            = Inr (logical, physical)
          \<and> the_query_ctx s' =
              Some (q\<lparr>scan_limit :=
                (if 0 \<le> sint logical \<and> sint logical \<le> sint (big_query_scan_rows_limit wg)
                 then int64_max (big_query_scan_rows_limit wg) physical
                 else big_query_scan_rows_limit wg)\<rparr>)"
proof -
  let ?c = "chunk_size exec_env" and ?d = "calc_dop exec_env request"
  from prepare_exec_plan_OK [OF run0] tree obtain fc st ns' limits where
    run: "prepare_scan_nodes exec_env request ?d
            (requested_tablet_internal_parallel request) (requested_parallel_mode request) plan_scan_nodes
            (set_up_cache_param request (fc\<lparr>scan_nodes := plan_scan_nodes\<rparr>), requested_shared_scan request)
          = (OK, st, ns')"
    and l: "scan_limits ?c ?d ns' (0, 0) = Inr limits"
    and s': "s' = set_scan_limit limits (s\<lparr>this_fragment_ctx := Some ((fst st)\<lparr>scan_nodes := ns'\<rparr>)\<rparr>)"
    by auto
  let ?s1 = "s\<lparr>this_fragment_ctx := Some ((fst st)\<lparr>scan_nodes := ns'\<rparr>)\<rparr>"
  have same: "scan_limits ?c ?d ns' (0, 0) = scan_limits ?c ?d plan_scan_nodes (0, 0)"
    using loop_keeps_limits [OF run] by (intro scan_limits_cong) simp_all
  obtain lg ph where lim: "limits = (lg, ph)" by (cases limits)
  have wg1: "this_wg ?s1 = Some wg" and q1: "the_query_ctx ?s1 = Some q"
    using wg q by (simp_all add: the_query_ctx_def split: option.splits)
  have res: "the_query_ctx s' =
     Some (q\<lparr>scan_limit := (if 0 \<le> sint lg \<and> sint lg \<le> sint (big_query_scan_rows_limit wg)
                             then int64_max (big_query_scan_rows_limit wg) ph
                             else big_query_scan_rows_limit wg)\<rparr>)"
    unfolding s' lim by (rule set_scan_limit_ceiling [OF wg1 wg(2) q1])
  from l same lim have "scan_limits ?c ?d plan_scan_nodes (0, 0) = Inr (lg, ph)" by simp
  with res show ?thesis by blast
qed


text \<open>
  C4. In the 64-bit arithmetic of the code, a scan node with a positive limit, under a
  positive chunk size \<open>c\<close> with \<open>limit + c - 1\<close> at most \<^verbatim>\<open>INT64_MAX\<close>, and a fragment dop
  \<open>d\<close>, adds its limit to the logical scan limit and the 64-bit value of
  \<open>(limit + c - 1) div c * c * d * io_tasks_per_scan_operator\<close> to the physical one; the
  first factor is the limit rounded up to a multiple of \<open>c\<close>, and the sum gets exactly
  that integer when it fits 64 bits. Over a list of such nodes the two limits are the
  64-bit values of the two sums. If some scan node has no positive limit and no
  division trapped, the logical limit is \<open>- 1\<close>, and under a positive ceiling the scan
  limit of the query is then the ceiling. When the resource group has a positive
  big-query scan-rows ceiling, a successful plan preparation sets the scan limit of the
  query to the larger of the ceiling and the physical limit if the logical limit is at
  least \<open>0\<close> and at most the ceiling, and to the ceiling otherwise. Without a positive
  ceiling no query context is changed.
\<close>

theorem C4_scan_limit:
  "(0 < sint (limit scan_node) \<and> 0 < sint c \<and> sint (limit scan_node) + sint c - 1 < 2 ^ 63 \<longrightarrow>
      scan_limits c d (scan_node # ns) (lg, ph) =
        scan_limits c d ns
          (lg + limit scan_node, ph + word_of_int (spec_physical_term c d scan_node))
      \<and> normalized_limit c (limit scan_node)
          = Inr (word_of_int ((sint (limit scan_node) + sint c - 1) div sint c * sint c))
      \<and> sint c dvd (sint (limit scan_node) + sint c - 1) div sint c * sint c
      \<and> sint (limit scan_node) \<le> (sint (limit scan_node) + sint c - 1) div sint c * sint c
      \<and> (sint (limit scan_node) + sint c - 1) div sint c * sint c < sint (limit scan_node) + sint c
      \<and> (- (2 ^ 63) \<le> spec_physical_term c d scan_node \<and> spec_physical_term c d scan_node < 2 ^ 63 \<longrightarrow>
           sint (word_of_int (spec_physical_term c d scan_node) :: 64 word)
             = spec_physical_term c d scan_node))
   \<and> (0 < sint c \<and> (\<forall>n \<in> set ps. 0 < sint (limit n) \<and> sint (limit n) + sint c - 1 < 2 ^ 63) \<longrightarrow>
      scan_limits c d ps (0, 0) =
        Inr (word_of_int (sum_list (map (\<lambda>n. sint (limit n)) ps)),
             word_of_int (sum_list (map (spec_physical_term c d) ps))))
   \<and> ((\<exists>n \<in> set us. sint (limit n) \<le> 0) \<and> c \<noteq> 0 \<longrightarrow>
      (\<exists>physical. scan_limits c d us (0, 0) = Inr (- 1, physical)))
   \<and> (prepare_exec_plan exec_env request s = (OK, s') \<and> create_tree exec_env = Inr plan_scan_nodes
        \<and> this_wg s = Some wg \<and> 0 < sint (big_query_scan_rows_limit wg) \<and> the_query_ctx s = Some q
      \<longrightarrow> (\<exists>logical physical.
             scan_limits (chunk_size exec_env) (calc_dop exec_env request) plan_scan_nodes (0, 0)
               = Inr (logical, physical)
             \<and> the_query_ctx s' =
                 Some (q\<lparr>scan_limit :=
                   (if 0 \<le> sint logical \<and> sint logical \<le> sint (big_query_scan_rows_limit wg)
                    then int64_max (big_query_scan_rows_limit wg) physical
                    else big_query_scan_rows_limit wg)\<rparr>)))
   \<and> (prepare_exec_plan exec_env request s = (OK, s') \<and> create_tree exec_env = Inr plan_scan_nodes
        \<and> this_wg s = Some wg \<and> 0 < sint (big_query_scan_rows_limit wg) \<and> the_query_ctx s = Some q
        \<and> (\<exists>n \<in> set plan_scan_nodes. sint (limit n) \<le> 0)
      \<longrightarrow> the_query_ctx s' = Some (q\<lparr>scan_limit := big_query_scan_rows_limit wg\<rparr>))
   \<and> (prepare_exec_plan exec_env request s = (OK, s')
        \<and> (this_wg s = None \<or> (\<exists>wg. this_wg s = Some wg \<and> sint (big_query_scan_rows_limit wg) \<le> 0))
      \<longrightarrow> query_context_mgr s' = query_context_mgr s)"
proof (intro conjI impI)
  assume a: "0 < sint (limit scan_node) \<and> 0 < sint c \<and> sint (limit scan_node) + sint c - 1 < 2 ^ 63"
  then have p: "0 < sint (limit scan_node)" "0 < sint c" "sint (limit scan_node) + sint c - 1 < 2 ^ 63"
    by blast+
  show "scan_limits c d (scan_node # ns) (lg, ph) =
        scan_limits c d ns
          (lg + limit scan_node, ph + word_of_int (spec_physical_term c d scan_node))"
    by (rule scan_limits_step [OF p])
  show "normalized_limit c (limit scan_node)
          = Inr (word_of_int ((sint (limit scan_node) + sint c - 1) div sint c * sint c))"
    by (rule normalized_limit_value [OF p])
  from round_up_int [OF p(1,2)]
  show "sint c dvd (sint (limit scan_node) + sint c - 1) div sint c * sint c"
    and "sint (limit scan_node) \<le> (sint (limit scan_node) + sint c - 1) div sint c * sint c"
    and "(sint (limit scan_node) + sint c - 1) div sint c * sint c < sint (limit scan_node) + sint c"
    by blast+
next
  assume "- (2 ^ 63) \<le> spec_physical_term c d scan_node \<and> spec_physical_term c d scan_node < 2 ^ 63"
  then show "sint (word_of_int (spec_physical_term c d scan_node) :: 64 word)
             = spec_physical_term c d scan_node"
    by (intro sint_word_of_int_64) blast+
next
  assume "0 < sint c \<and> (\<forall>n \<in> set ps. 0 < sint (limit n) \<and> sint (limit n) + sint c - 1 < 2 ^ 63)"
  then have c: "0 < sint c"
    and all: "\<forall>n \<in> set ps. 0 < sint (limit n) \<and> sint (limit n) + sint c - 1 < 2 ^ 63"
    by blast+
  show "scan_limits c d ps (0, 0) =
        Inr (word_of_int (sum_list (map (\<lambda>n. sint (limit n)) ps)),
             word_of_int (sum_list (map (spec_physical_term c d) ps)))"
    unfolding scan_limits_all_positive [OF c all] by simp
next
  assume a: "(\<exists>n \<in> set us. sint (limit n) \<le> 0) \<and> c \<noteq> 0"
  then obtain lg' ph' where r: "scan_limits c d us (0, 0) = Inr (lg', ph')"
    using scan_limits_no_trap [of c d us 0 0] by blast
  with a scan_limits_unlimited [of us c d 0 0 lg' ph'] have "lg' = - 1" by blast
  with r show "\<exists>physical. scan_limits c d us (0, 0) = Inr (- 1, physical)" by blast
next
  assume "prepare_exec_plan exec_env request s = (OK, s') \<and> create_tree exec_env = Inr plan_scan_nodes
        \<and> this_wg s = Some wg \<and> 0 < sint (big_query_scan_rows_limit wg) \<and> the_query_ctx s = Some q"
  then show "\<exists>logical physical.
             scan_limits (chunk_size exec_env) (calc_dop exec_env request) plan_scan_nodes (0, 0)
               = Inr (logical, physical)
             \<and> the_query_ctx s' =
                 Some (q\<lparr>scan_limit :=
                   (if 0 \<le> sint logical \<and> sint logical \<le> sint (big_query_scan_rows_limit wg)
                    then int64_max (big_query_scan_rows_limit wg) physical
                    else big_query_scan_rows_limit wg)\<rparr>)"
    by (elim conjE) (rule prepare_exec_plan_scan_limit)
next
  assume a: "prepare_exec_plan exec_env request s = (OK, s') \<and> create_tree exec_env = Inr plan_scan_nodes
        \<and> this_wg s = Some wg \<and> 0 < sint (big_query_scan_rows_limit wg) \<and> the_query_ctx s = Some q
        \<and> (\<exists>n \<in> set plan_scan_nodes. sint (limit n) \<le> 0)"
  then have u: "\<exists>n \<in> set plan_scan_nodes. sint (limit n) \<le> 0" by blast
  from a prepare_exec_plan_scan_limit [of exec_env request s s' plan_scan_nodes wg q]
  obtain logical physical where
    l: "scan_limits (chunk_size exec_env) (calc_dop exec_env request) plan_scan_nodes (0, 0)
               = Inr (logical, physical)"
    and r: "the_query_ctx s' =
                 Some (q\<lparr>scan_limit :=
                   (if 0 \<le> sint logical \<and> sint logical \<le> sint (big_query_scan_rows_limit wg)
                    then int64_max (big_query_scan_rows_limit wg) physical
                    else big_query_scan_rows_limit wg)\<rparr>)"
    by blast
  from scan_limits_unlimited [OF u l] have "sint logical = - 1" by simp
  with r show "the_query_ctx s' = Some (q\<lparr>scan_limit := big_query_scan_rows_limit wg\<rparr>)" by simp
next
  assume a: "prepare_exec_plan exec_env request s = (OK, s')
        \<and> (this_wg s = None \<or> (\<exists>wg. this_wg s = Some wg \<and> sint (big_query_scan_rows_limit wg) \<le> 0))"
  then have run0: "prepare_exec_plan exec_env request s = (OK, s')" by blast
  from prepare_exec_plan_OK [OF run0] obtain fc nodes st ns' limits where
    s': "s' = set_scan_limit limits (s\<lparr>this_fragment_ctx := Some ((fst st)\<lparr>scan_nodes := ns'\<rparr>)\<rparr>)"
    by auto
  have "set_scan_limit limits (s\<lparr>this_fragment_ctx := Some ((fst st)\<lparr>scan_nodes := ns'\<rparr>)\<rparr>)
        = s\<lparr>this_fragment_ctx := Some ((fst st)\<lparr>scan_nodes := ns'\<rparr>)\<rparr>"
    using a by (intro set_scan_limit_no_ceiling) simp
  with s' show "query_context_mgr s' = query_context_mgr s" by simp
qed

subsection \<open>Pipelines, drivers and group-initialize events\<close>

lemma set_morsel_queue_factory_keeps:
  "pipelines (set_morsel_queue_factory p fc) = pipelines fc
   \<and> pipeline_store (set_morsel_queue_factory p fc) = pipeline_store fc
   \<and> is_adaptive_group_initial_active (op_store (set_morsel_queue_factory p fc) a)
       = is_adaptive_group_initial_active (op_store fc a)
   \<and> group_leader (op_store (set_morsel_queue_factory p fc) a) = group_leader (op_store fc a)
   \<and> adaptive_blocking_event (op_store (set_morsel_queue_factory p fc) a)
       = adaptive_blocking_event (op_store fc a)
   \<and> group_dependent_pipelines (op_store (set_morsel_queue_factory p fc) a)
       = group_dependent_pipelines (op_store fc a)
   \<and> group_initialize_event (op_store (set_morsel_queue_factory p fc) a)
       = group_initialize_event (op_store fc a)"
  by (simp add: set_morsel_queue_factory_def Let_def)

lemma fold_set_morsel_queue_factory_keeps:
  "pipelines (fold set_morsel_queue_factory ps fc) = pipelines fc
   \<and> pipeline_store (fold set_morsel_queue_factory ps fc) = pipeline_store fc
   \<and> is_adaptive_group_initial_active (op_store (fold set_morsel_queue_factory ps fc) a)
       = is_adaptive_group_initial_active (op_store fc a)
   \<and> group_leader (op_store (fold set_morsel_queue_factory ps fc) a) = group_leader (op_store fc a)
   \<and> adaptive_blocking_event (op_store (fold set_morsel_queue_factory ps fc) a)
       = adaptive_blocking_event (op_store fc a)
   \<and> group_dependent_pipelines (op_store (fold set_morsel_queue_factory ps fc) a)
       = group_dependent_pipelines (op_store fc a)
   \<and> group_initialize_event (op_store (fold set_morsel_queue_factory ps fc) a)
       = group_initialize_event (op_store fc a)"
proof (induction ps arbitrary: fc)
  case Nil show ?case by simp
next
  case (Cons p ps)
  show ?case
    using Cons.IH [of "set_morsel_queue_factory p fc"] set_morsel_queue_factory_keeps [of p fc a]
    by simp
qed

lemma map_of_emplace_back_in_group:
  "map_of (emplace_back_in_group l p g) =
     (map_of g)(l \<mapsto> (case map_of g l of None \<Rightarrow> [] | Some ps \<Rightarrow> ps) @ [p])"
  by (induction g) (auto simp add: fun_eq_iff)

lemma keys_emplace_back_in_group:
  "fst ` set (emplace_back_in_group l p g) = insert l (fst ` set g)"
  by (induction l p g rule: emplace_back_in_group.induct) auto

lemma distinct_emplace_back_in_group:
  "distinct (map fst g) \<Longrightarrow> distinct (map fst (emplace_back_in_group l p g))"
proof (induction g)
  case Nil show ?case by simp
next
  case (Cons e g)
  obtain k ps where e: "e = (k, ps)" by (cases e)
  from Cons have d: "k \<notin> fst ` set g" "distinct (map fst (emplace_back_in_group l p g))"
    by (simp_all add: e)
  show ?case
  proof (cases "k = l")
    case True
    with Cons.prems show ?thesis by (simp add: e)
  next
    case False
    with d keys_emplace_back_in_group [of l p g] show ?thesis by (simp add: e)
  qed
qed

lemma instantiate_or_defer_step:
  "op_store (snd (instantiate_or_defer p (g, fc))) = op_store fc
   \<and> pipelines (snd (instantiate_or_defer p (g, fc))) = pipelines fc
   \<and> deferred (snd (instantiate_or_defer p (g, fc))) = deferred fc
   \<and> leader_of (snd (instantiate_or_defer p (g, fc))) = leader_of fc
   \<and> (\<forall>q. pipeline_event (pipeline_store (snd (instantiate_or_defer p (g, fc))) q)
          = pipeline_event (pipeline_store fc q))
   \<and> (\<forall>q. degree_of_parallelism (pipeline_store (snd (instantiate_or_defer p (g, fc))) q)
          = degree_of_parallelism (pipeline_store fc q))
   \<and> (\<forall>q. drivers (pipeline_store (snd (instantiate_or_defer p (g, fc))) q)
          = (if q = p \<and> \<not> deferred fc p
             then map (Driver p) [0..<degree_of_parallelism (pipeline_store fc p)]
             else drivers (pipeline_store fc q)))
   \<and> fst (instantiate_or_defer p (g, fc))
       = (if deferred fc p then emplace_back_in_group (leader_of fc p) p g else g)"
  by (auto simp add: instantiate_or_defer_def Let_def deferred_def leader_of_def instantiate_drivers_def
      fun_eq_iff)

lemma fold_instantiate_or_defer:
  "op_store (snd (fold instantiate_or_defer ps (g, fc))) = op_store fc
   \<and> pipelines (snd (fold instantiate_or_defer ps (g, fc))) = pipelines fc
   \<and> deferred (snd (fold instantiate_or_defer ps (g, fc))) = deferred fc
   \<and> leader_of (snd (fold instantiate_or_defer ps (g, fc))) = leader_of fc
   \<and> (\<forall>q. pipeline_event (pipeline_store (snd (fold instantiate_or_defer ps (g, fc))) q)
          = pipeline_event (pipeline_store fc q))
   \<and> (\<forall>q. degree_of_parallelism (pipeline_store (snd (fold instantiate_or_defer ps (g, fc))) q)
          = degree_of_parallelism (pipeline_store fc q))
   \<and> (\<forall>q. drivers (pipeline_store (snd (fold instantiate_or_defer ps (g, fc))) q)
          = (if q \<in> set ps \<and> \<not> deferred fc q
             then map (Driver q) [0..<degree_of_parallelism (pipeline_store fc q)]
             else drivers (pipeline_store fc q)))
   \<and> (distinct (map fst g) \<longrightarrow> distinct (map fst (fst (fold instantiate_or_defer ps (g, fc)))))
   \<and> (\<forall>l. map_of (fst (fold instantiate_or_defer ps (g, fc))) l
          = (if filter (\<lambda>p. deferred fc p \<and> leader_of fc p = l) ps = [] then map_of g l
             else Some ((case map_of g l of None \<Rightarrow> [] | Some x \<Rightarrow> x)
                          @ filter (\<lambda>p. deferred fc p \<and> leader_of fc p = l) ps)))"
proof (induction ps arbitrary: g fc)
  case Nil show ?case by simp
next
  case (Cons p ps)
  obtain g1 fc1 where step: "instantiate_or_defer p (g, fc) = (g1, fc1)"
    by (cases "instantiate_or_defer p (g, fc)")
  note s = instantiate_or_defer_step [of p g fc, unfolded step fst_conv snd_conv]
  note ih = Cons.IH [of g1 fc1]
  have f: "fold instantiate_or_defer (p # ps) (g, fc) = fold instantiate_or_defer ps (g1, fc1)"
    using step by simp
  from s have s1: "op_store fc1 = op_store fc" and s2: "pipelines fc1 = pipelines fc"
    and s3: "deferred fc1 = deferred fc" and s4: "leader_of fc1 = leader_of fc"
    and s5: "\<And>q. pipeline_event (pipeline_store fc1 q) = pipeline_event (pipeline_store fc q)"
    and s6: "\<And>q. degree_of_parallelism (pipeline_store fc1 q) = degree_of_parallelism (pipeline_store fc q)"
    and s7: "\<And>q. drivers (pipeline_store fc1 q)
          = (if q = p \<and> \<not> deferred fc p
             then map (Driver p) [0..<degree_of_parallelism (pipeline_store fc p)]
             else drivers (pipeline_store fc q))"
    and s8: "g1 = (if deferred fc p then emplace_back_in_group (leader_of fc p) p g else g)"
    by blast+
  have m1: "map_of g1 = (if deferred fc p
          then (map_of g)(leader_of fc p \<mapsto>
                 (case map_of g (leader_of fc p) of None \<Rightarrow> [] | Some ps \<Rightarrow> ps) @ [p])
          else map_of g)"
    by (simp add: s8 map_of_emplace_back_in_group)
  have d1: "distinct (map fst g) \<Longrightarrow> distinct (map fst g1)"
    by (simp add: s8 distinct_emplace_back_in_group)
  show ?case unfolding f
  proof (intro conjI allI impI)
    show "op_store (snd (fold instantiate_or_defer ps (g1, fc1))) = op_store fc"
      using ih s1 by simp
    show "pipelines (snd (fold instantiate_or_defer ps (g1, fc1))) = pipelines fc"
      using ih s2 by simp
    show "deferred (snd (fold instantiate_or_defer ps (g1, fc1))) = deferred fc"
      using ih s3 by simp
    show "leader_of (snd (fold instantiate_or_defer ps (g1, fc1))) = leader_of fc"
      using ih s4 by simp
    show "pipeline_event (pipeline_store (snd (fold instantiate_or_defer ps (g1, fc1))) q)
          = pipeline_event (pipeline_store fc q)" for q
      using ih s5 by simp
    show "degree_of_parallelism (pipeline_store (snd (fold instantiate_or_defer ps (g1, fc1))) q)
          = degree_of_parallelism (pipeline_store fc q)" for q
      using ih s6 by simp
    show "drivers (pipeline_store (snd (fold instantiate_or_defer ps (g1, fc1))) q)
          = (if q \<in> set (p # ps) \<and> \<not> deferred fc q
             then map (Driver q) [0..<degree_of_parallelism (pipeline_store fc q)]
             else drivers (pipeline_store fc q))" for q
    proof -
      from ih have "drivers (pipeline_store (snd (fold instantiate_or_defer ps (g1, fc1))) q)
          = (if q \<in> set ps \<and> \<not> deferred fc1 q
             then map (Driver q) [0..<degree_of_parallelism (pipeline_store fc1 q)]
             else drivers (pipeline_store fc1 q))" by blast
      then show ?thesis by (auto simp add: s3 s6 s7)
    qed
    show "distinct (map fst (fst (fold instantiate_or_defer ps (g1, fc1))))"
      if "distinct (map fst g)"
      using ih d1 [OF that] by blast
    show "map_of (fst (fold instantiate_or_defer ps (g1, fc1))) l
          = (if filter (\<lambda>p. deferred fc p \<and> leader_of fc p = l) (p # ps) = [] then map_of g l
             else Some ((case map_of g l of None \<Rightarrow> [] | Some x \<Rightarrow> x)
                          @ filter (\<lambda>p. deferred fc p \<and> leader_of fc p = l) (p # ps)))" for l
    proof -
      from ih have "map_of (fst (fold instantiate_or_defer ps (g1, fc1))) l
          = (if filter (\<lambda>p. deferred fc1 p \<and> leader_of fc1 p = l) ps = [] then map_of g1 l
             else Some ((case map_of g1 l of None \<Rightarrow> [] | Some x \<Rightarrow> x)
                          @ filter (\<lambda>p. deferred fc1 p \<and> leader_of fc1 p = l) ps))" by blast
      then show ?thesis by (auto simp add: s3 s4 m1)
    qed
  qed
qed

lemma set_group_initialize_event_keeps:
  "pipeline_store (set_group_initialize_event e fc) = pipeline_store fc
   \<and> pipelines (set_group_initialize_event e fc) = pipelines fc
   \<and> fc_fragment_instance_id (set_group_initialize_event e fc) = fc_fragment_instance_id fc
   \<and> driver_token (set_group_initialize_event e fc) = driver_token fc"
  by (simp add: set_group_initialize_event_def Let_def)

lemma fold_set_group_initialize_event:
  "distinct (map fst g) \<Longrightarrow>
   pipeline_store (fold set_group_initialize_event g fc) = pipeline_store fc
   \<and> pipelines (fold set_group_initialize_event g fc) = pipelines fc
   \<and> fc_fragment_instance_id (fold set_group_initialize_event g fc) = fc_fragment_instance_id fc
   \<and> driver_token (fold set_group_initialize_event g fc) = driver_token fc
   \<and> (\<forall>l. op_store (fold set_group_initialize_event g fc) l
          = (case map_of g l of
               None \<Rightarrow> op_store fc l
             | Some ps \<Rightarrow>
                 (op_store fc l)\<lparr>group_initialize_event :=
                    Some (group_initialize_event_of (pipeline_store fc) (op_store fc l) ps)\<rparr>))"
proof (induction g arbitrary: fc)
  case Nil show ?case by simp
next
  case (Cons e g)
  obtain k ps where e: "e = (k, ps)" by (cases e)
  let ?fc1 = "set_group_initialize_event (k, ps) fc"
  from Cons.prems have d: "distinct (map fst g)" and nk: "map_of g k = None"
    by (simp_all add: e map_of_eq_None_iff)
  note ih = Cons.IH [OF d, of ?fc1]
  note k1 = set_group_initialize_event_keeps [of "(k, ps)" fc]
  have o1: "op_store ?fc1 = (op_store fc)
      (k := (op_store fc k)\<lparr>group_initialize_event :=
               Some (group_initialize_event_of (pipeline_store fc) (op_store fc k) ps)\<rparr>)"
    by (simp add: set_group_initialize_event_def Let_def)
  have f: "fold set_group_initialize_event (e # g) fc = fold set_group_initialize_event g ?fc1"
    by (simp add: e)
  show ?case unfolding f
  proof (intro conjI allI)
    show "pipeline_store (fold set_group_initialize_event g ?fc1) = pipeline_store fc"
      using ih k1 by simp
    show "pipelines (fold set_group_initialize_event g ?fc1) = pipelines fc"
      using ih k1 by simp
    show "fc_fragment_instance_id (fold set_group_initialize_event g ?fc1) = fc_fragment_instance_id fc"
      using ih k1 by simp
    show "driver_token (fold set_group_initialize_event g ?fc1) = driver_token fc"
      using ih k1 by simp
    show "op_store (fold set_group_initialize_event g ?fc1) l
          = (case map_of (e # g) l of
               None \<Rightarrow> op_store fc l
             | Some ps \<Rightarrow>
                 (op_store fc l)\<lparr>group_initialize_event :=
                    Some (group_initialize_event_of (pipeline_store fc) (op_store fc l) ps)\<rparr>)" for l
    proof -
      from ih have r: "op_store (fold set_group_initialize_event g ?fc1) l
          = (case map_of g l of
               None \<Rightarrow> op_store ?fc1 l
             | Some ps \<Rightarrow>
                 (op_store ?fc1 l)\<lparr>group_initialize_event :=
                    Some (group_initialize_event_of (pipeline_store ?fc1) (op_store ?fc1 l) ps)\<rparr>)"
        by blast
      show ?thesis
      proof (cases "l = k")
        case True
        with nk have "map_of g l = None" by simp
        with r have "op_store (fold set_group_initialize_event g ?fc1) l = op_store ?fc1 l" by simp
        then show ?thesis using True by (simp add: e o1)
      next
        case False
        then have "op_store ?fc1 l = op_store fc l" by (simp add: o1)
        moreover have "pipeline_store ?fc1 = pipeline_store fc" using k1 by simp
        ultimately show ?thesis using r False by (simp add: e split: option.splits)
      qed
    qed
  qed
qed

lemma fold_add_dependency:
  "fold (\<lambda>dp ev. add_dependency (f dp) ev) ds ev = ev\<lparr>dependencies := dependencies ev @ map f ds\<rparr>"
  by (induction ds arbitrary: ev) (simp_all add: add_dependency_def)

lemma group_initialize_event_of_eq:
  "group_initialize_event_of pstore leader_source_op ps =
     \<lparr>event_pipelines = ps,
      dependencies =
        (case adaptive_blocking_event leader_source_op of Some b \<Rightarrow> [b] | None \<Rightarrow> [])
        @ map (\<lambda>dp. pipeline_event (pstore dp)) (group_dependent_pipelines leader_source_op)\<rparr>"
  unfolding group_initialize_event_of_def Let_def fold_add_dependency
  by (simp add: add_dependency_def split: option.splits)

lemma deferred_after_morsels:
  "deferred (fold set_morsel_queue_factory ps fc) = deferred fc
   \<and> leader_of (fold set_morsel_queue_factory ps fc) = leader_of fc"
  using fold_set_morsel_queue_factory_keeps [of ps fc]
  by (simp add: deferred_def leader_of_def fun_eq_iff)

lemma instantiate_pipelines_drivers:
  "drivers (pipeline_store (instantiate_pipelines fc) p) =
     (if p \<in> set (pipelines fc) \<and> \<not> deferred fc p
      then map (Driver p) [0..<degree_of_parallelism (pipeline_store fc p)]
      else drivers (pipeline_store fc p))"
proof -
  let ?fc1 = "fold set_morsel_queue_factory (pipelines fc) fc"
  let ?st = "fold instantiate_or_defer (pipelines fc) ([], ?fc1)"
  have k: "pipelines ?fc1 = pipelines fc" "pipeline_store ?fc1 = pipeline_store fc"
    using fold_set_morsel_queue_factory_keeps [of "pipelines fc" fc] by simp_all
  note f = fold_instantiate_or_defer [of "pipelines fc" "[]" ?fc1]
  have "distinct (map fst (fst ?st))" using f by simp
  from fold_set_group_initialize_event [OF this, of "snd ?st"]
  have ps: "pipeline_store (fold set_group_initialize_event (fst ?st) (snd ?st)) = pipeline_store (snd ?st)"
    by blast
  have "instantiate_pipelines fc = snd ?st
      \<or> instantiate_pipelines fc = fold set_group_initialize_event (fst ?st) (snd ?st)"
    using k by (simp add: instantiate_pipelines_def Let_def create_adaptive_group_initialize_events_def)
  with ps have "pipeline_store (instantiate_pipelines fc) = pipeline_store (snd ?st)"
    by auto
  moreover have "drivers (pipeline_store (snd ?st) p)
          = (if p \<in> set (pipelines fc) \<and> \<not> deferred ?fc1 p
             then map (Driver p) [0..<degree_of_parallelism (pipeline_store ?fc1 p)]
             else drivers (pipeline_store ?fc1 p))"
    using f by blast
  ultimately show ?thesis by (simp add: deferred_after_morsels k)
qed

lemma instantiate_pipelines_event:
  "group_initialize_event (op_store (instantiate_pipelines fc) leader) =
     (if deferred_group fc leader = [] then group_initialize_event (op_store fc leader)
      else Some \<lparr>event_pipelines = deferred_group fc leader,
                 dependencies = spec_group_dependencies fc leader\<rparr>)"
proof -
  let ?fc1 = "fold set_morsel_queue_factory (pipelines fc) fc"
  let ?st = "fold instantiate_or_defer (pipelines fc) ([], ?fc1)"
  note k = fold_set_morsel_queue_factory_keeps [of "pipelines fc" fc]
  note d = deferred_after_morsels [of "pipelines fc" fc]
  note f = fold_instantiate_or_defer [of "pipelines fc" "[]" ?fc1]
  have ops: "op_store (snd ?st) = op_store ?fc1" using f by blast
  have pev: "\<And>q. pipeline_event (pipeline_store (snd ?st) q) = pipeline_event (pipeline_store fc q)"
    using f k by simp
  have grp: "\<And>l. map_of (fst ?st) l = (if deferred_group fc l = [] then None else Some (deferred_group fc l))"
    using f by (simp add: d deferred_group_def)
  have dist: "distinct (map fst (fst ?st))" using f by simp
  show ?thesis
  proof (cases "fst ?st = []")
    case True
    then have "map_of (fst ?st) leader = None" by simp
    with grp have e: "deferred_group fc leader = []" by (simp split: if_splits)
    have "instantiate_pipelines fc = snd ?st"
      using True k by (simp add: instantiate_pipelines_def Let_def)
    then show ?thesis using e ops k by simp
  next
    case False
    have ip: "instantiate_pipelines fc = fold set_group_initialize_event (fst ?st) (snd ?st)"
      using False k
      by (simp add: instantiate_pipelines_def Let_def create_adaptive_group_initialize_events_def)
    note ev = fold_set_group_initialize_event [OF dist, of "snd ?st"]
    have os: "op_store (instantiate_pipelines fc) leader
          = (case map_of (fst ?st) leader of
               None \<Rightarrow> op_store ?fc1 leader
             | Some ps \<Rightarrow>
                 (op_store ?fc1 leader)\<lparr>group_initialize_event :=
                    Some (group_initialize_event_of (pipeline_store (snd ?st)) (op_store ?fc1 leader) ps)\<rparr>)"
      unfolding ip using ev [unfolded ops] by blast
    show ?thesis
    proof (cases "deferred_group fc leader = []")
      case True
      then show ?thesis using grp k by (simp add: os)
    next
      case False
      have "group_initialize_event (op_store (instantiate_pipelines fc) leader)
            = Some (group_initialize_event_of (pipeline_store (snd ?st)) (op_store ?fc1 leader)
                     (deferred_group fc leader))"
        using False grp by (simp add: os)
      also have "group_initialize_event_of (pipeline_store (snd ?st)) (op_store ?fc1 leader)
                     (deferred_group fc leader)
          = \<lparr>event_pipelines = deferred_group fc leader,
             dependencies = spec_group_dependencies fc leader\<rparr>"
        using k by (simp add: group_initialize_event_of_eq spec_group_dependencies_def pev)
      finally show ?thesis using False by simp
    qed
  qed
qed

lemma unready_pipeline_groups_of_spec:
  "distinct (map fst (unready_pipeline_groups_of fc))
   \<and> map_of (unready_pipeline_groups_of fc) l
       = (if deferred_group fc l = [] then None else Some (deferred_group fc l))"
proof -
  let ?fc1 = "fold set_morsel_queue_factory (pipelines fc) fc"
  let ?st = "fold instantiate_or_defer (pipelines fc) ([], ?fc1)"
  note k = fold_set_morsel_queue_factory_keeps [of "pipelines fc" fc]
  note d = deferred_after_morsels [of "pipelines fc" fc]
  note f = fold_instantiate_or_defer [of "pipelines fc" "[]" ?fc1]
  have u: "unready_pipeline_groups_of fc = fst ?st"
    using k by (simp add: unready_pipeline_groups_of_def Let_def)
  have grp: "map_of (fst ?st) l = (if deferred_group fc l = [] then None else Some (deferred_group fc l))"
    using f by (simp add: d deferred_group_def)
  have dist: "distinct (map fst (fst ?st))" using f by simp
  from grp dist show ?thesis unfolding u by simp
qed

lemma instantiate_pipelines_groups:
  "instantiate_pipelines fc =
     (let fc1 = fold set_morsel_queue_factory (pipelines fc) fc;
          fc2 = snd (fold instantiate_or_defer (pipelines fc1) ([], fc1))
      in if unready_pipeline_groups_of fc = [] then fc2
         else fold set_group_initialize_event (unready_pipeline_groups_of fc) fc2)"
  by (simp add: instantiate_pipelines_def unready_pipeline_groups_of_def Let_def
      create_adaptive_group_initialize_events_def)

lemma and_then_OK:
  "and_then r f = (OK, s') \<longleftrightarrow> (\<exists>s1. r = (OK, s1) \<and> f s1 = (OK, s'))"
  by (cases r) (auto simp add: and_then_def split: Status.splits)

lemma and_then_Error:
  "and_then r f = (Error e, s') \<longleftrightarrow>
     (r = (Error e, s') \<or> (\<exists>s1. r = (OK, s1) \<and> f s1 = (Error e, s')))"
  by (cases r) (auto simp add: and_then_def split: Status.splits)

lemma try_acquire_cases:
  "try_acquire n limiter =
     (if num_total_drivers limiter + n \<le> max_num_drivers limiter
      then (Inr n, limiter\<lparr>requests := requests limiter @ [n],
                            num_total_drivers := num_total_drivers limiter + n\<rparr>)
      else (Inl ResourceExhausted, limiter\<lparr>requests := requests limiter @ [n]\<rparr>))"
  by (simp add: try_acquire_def Let_def)

lemma set_up_sink_fragment_ctx:
  "set_up_sink exec_env request s = (status, s') \<Longrightarrow> this_fragment_ctx s' = this_fragment_ctx s"
  by (auto simp add: set_up_sink_def and_then_def update_query_ctx_def
      split: option.splits if_splits Status.splits)

lemma set_up_pipelines_OK:
  "set_up_pipelines exec_env s = (OK, s') \<Longrightarrow> this_fragment_ctx s = Some fragment_ctx \<Longrightarrow>
   this_fragment_ctx s' = Some (instantiate_pipelines (fragment_ctx\<lparr>pipelines := builder_build exec_env\<rparr>))"
  by (auto simp add: set_up_pipelines_def and_then_def split: Status.splits)

lemma acquire_driver_token_OK:
  "acquire_driver_token s = (OK, s') \<Longrightarrow> this_fragment_ctx s = Some fragment_ctx \<Longrightarrow>
   this_fragment_ctx s' = Some (fragment_ctx\<lparr>driver_token := Some (total_dop fragment_ctx)\<rparr>)"
  by (auto simp add: acquire_driver_token_def try_acquire_cases split: if_splits)

lemma prepare_pipeline_driver_OK:
  assumes "prepare_pipeline_driver exec_env request s = (OK, s')"
      and "this_fragment_ctx s = Some fragment_ctx"
  shows "this_fragment_ctx s' =
         Some ((instantiate_pipelines (fragment_ctx\<lparr>pipelines := builder_build exec_env\<rparr>))
                 \<lparr>driver_token :=
                    Some (total_dop (instantiate_pipelines (fragment_ctx\<lparr>pipelines := builder_build exec_env\<rparr>)))\<rparr>)"
proof -
  from assms(1) obtain s1 s2 where 1: "set_up_sink exec_env request s = (OK, s1)"
    and 2: "set_up_pipelines exec_env s1 = (OK, s2)" and 3: "acquire_driver_token s2 = (OK, s')"
    unfolding prepare_pipeline_driver_def and_then_OK by blast
  from set_up_sink_fragment_ctx [OF 1] assms(2) have "this_fragment_ctx s1 = Some fragment_ctx" by simp
  from set_up_pipelines_OK [OF 2 this] acquire_driver_token_OK [OF 3] show ?thesis by simp
qed

text \<open>
  C3. A pipeline whose source operator factory is not initially active in its adaptive
  group gets no drivers during pipeline-driver preparation: its drivers are what they
  were after construction, none when the builder left none, while every other pipeline
  of the fragment gets one driver per lane. The deferred pipelines are collected per
  group leader: the map the loop builds has one entry for each leader with at least
  one deferred pipeline, holding exactly those pipelines, and no entry for any other
  leader. One event is created per entry, so a leader with at least one deferred
  pipeline receives exactly one group-initialize event, for exactly those pipelines,
  whose dependencies are the leader's adaptive-blocking event (when present) followed
  by the pipeline event of every pipeline the leader declares a dependency on; a leader
  with no deferred pipeline receives no event. A successful \<^verbatim>\<open>_prepare_pipeline_driver\<close>
  leaves the fragment context in exactly that state, with the driver token added.
\<close>

theorem C3_deferred_pipelines:
  "(deferred fragment_ctx p \<longrightarrow>
      drivers (pipeline_store (instantiate_pipelines fragment_ctx) p)
        = drivers (pipeline_store fragment_ctx p))
   \<and> (deferred fragment_ctx p \<and> drivers (pipeline_store fragment_ctx p) = [] \<longrightarrow>
      drivers (pipeline_store (instantiate_pipelines fragment_ctx) p) = [])
   \<and> (p \<in> set (pipelines fragment_ctx) \<and> \<not> deferred fragment_ctx p \<longrightarrow>
      drivers (pipeline_store (instantiate_pipelines fragment_ctx) p)
        = map (Driver p) [0..<degree_of_parallelism (pipeline_store fragment_ctx p)])
   \<and> (deferred_group fragment_ctx leader \<noteq> [] \<longrightarrow>
      group_initialize_event (op_store (instantiate_pipelines fragment_ctx) leader)
        = Some \<lparr>event_pipelines = deferred_group fragment_ctx leader,
                dependencies = spec_group_dependencies fragment_ctx leader\<rparr>)
   \<and> (deferred_group fragment_ctx leader = [] \<longrightarrow>
      group_initialize_event (op_store (instantiate_pipelines fragment_ctx) leader)
        = group_initialize_event (op_store fragment_ctx leader))
   \<and> (prepare_pipeline_driver exec_env request s = (OK, s') \<and> this_fragment_ctx s = Some fragment_ctx \<longrightarrow>
      this_fragment_ctx s' =
         Some ((instantiate_pipelines (fragment_ctx\<lparr>pipelines := builder_build exec_env\<rparr>))
                 \<lparr>driver_token :=
                    Some (total_dop (instantiate_pipelines
                            (fragment_ctx\<lparr>pipelines := builder_build exec_env\<rparr>)))\<rparr>))
   \<and> distinct (map fst (unready_pipeline_groups_of fragment_ctx))
   \<and> map_of (unready_pipeline_groups_of fragment_ctx) leader
       = (if deferred_group fragment_ctx leader = [] then None
          else Some (deferred_group fragment_ctx leader))"
proof (intro conjI impI)
  show "distinct (map fst (unready_pipeline_groups_of fragment_ctx))"
    using unready_pipeline_groups_of_spec [of fragment_ctx leader] by blast
  show "map_of (unready_pipeline_groups_of fragment_ctx) leader
       = (if deferred_group fragment_ctx leader = [] then None
          else Some (deferred_group fragment_ctx leader))"
    using unready_pipeline_groups_of_spec [of fragment_ctx leader] by blast
next
  assume "prepare_pipeline_driver exec_env request s = (OK, s') \<and> this_fragment_ctx s = Some fragment_ctx"
  then show "this_fragment_ctx s' =
         Some ((instantiate_pipelines (fragment_ctx\<lparr>pipelines := builder_build exec_env\<rparr>))
                 \<lparr>driver_token :=
                    Some (total_dop (instantiate_pipelines
                            (fragment_ctx\<lparr>pipelines := builder_build exec_env\<rparr>)))\<rparr>)"
    by (elim conjE) (rule prepare_pipeline_driver_OK)
next
  assume "deferred fragment_ctx p"
  then show "drivers (pipeline_store (instantiate_pipelines fragment_ctx) p)
        = drivers (pipeline_store fragment_ctx p)"
    by (simp add: instantiate_pipelines_drivers)
next
  assume "deferred fragment_ctx p \<and> drivers (pipeline_store fragment_ctx p) = []"
  then show "drivers (pipeline_store (instantiate_pipelines fragment_ctx) p) = []"
    by (simp add: instantiate_pipelines_drivers)
next
  assume "p \<in> set (pipelines fragment_ctx) \<and> \<not> deferred fragment_ctx p"
  then show "drivers (pipeline_store (instantiate_pipelines fragment_ctx) p)
        = map (Driver p) [0..<degree_of_parallelism (pipeline_store fragment_ctx p)]"
    by (simp add: instantiate_pipelines_drivers)
next
  assume "deferred_group fragment_ctx leader \<noteq> []"
  then show "group_initialize_event (op_store (instantiate_pipelines fragment_ctx) leader)
        = Some \<lparr>event_pipelines = deferred_group fragment_ctx leader,
                dependencies = spec_group_dependencies fragment_ctx leader\<rparr>"
    by (simp add: instantiate_pipelines_event)
next
  assume "deferred_group fragment_ctx leader = []"
  then show "group_initialize_event (op_store (instantiate_pipelines fragment_ctx) leader)
        = group_initialize_event (op_store fragment_ctx leader)"
    by (simp add: instantiate_pipelines_event)
qed

subsection \<open>Execution and failure cleanup\<close>

lemma prepare_drivers_all_OK:
  "\<forall>d \<in> set ds. driver_prepare exec_env d = OK \<Longrightarrow>
   prepare_drivers exec_env ds s = (OK, s\<lparr>prepared_drivers := prepared_drivers s @ ds\<rparr>)"
  by (induction ds arbitrary: s) simp_all

lemma prepare_drivers_first_error:
  "\<forall>d \<in> set pre. driver_prepare exec_env d = OK \<Longrightarrow> driver_prepare exec_env d = Error e \<Longrightarrow>
   prepare_drivers exec_env (pre @ d # post) s
     = (Error e, s\<lparr>prepared_drivers := prepared_drivers s @ pre @ [d]\<rparr>)"
  by (induction pre arbitrary: s) simp_all

lemma submit_drivers_eq: "submit_drivers ds s = s\<lparr>run_queue := run_queue s @ ds\<rparr>"
  by (induction ds arbitrary: s) (simp_all add: submit_drivers_def)

lemma set_active_drivers:
  "set (active_drivers fc) =
     (\<Union>p \<in> {p \<in> set (pipelines fc). \<not> deferred fc p}. set (drivers (pipeline_store fc p)))"
  by (auto simp add: active_drivers_def deferred_def Let_def split: if_splits)

lemma count_down_fragments_keeps:
  "run_queue (count_down_fragments s) = run_queue s
   \<and> prepared_drivers (count_down_fragments s) = prepared_drivers s
   \<and> this_fragment_ctx (count_down_fragments s) = this_fragment_ctx s
   \<and> this_query_ctx (count_down_fragments s) = this_query_ctx s
   \<and> driver_limiter (count_down_fragments s) = driver_limiter s"
  by (simp add: count_down_fragments_def split: option.splits)

lemma update_query_ctx_keeps:
  "run_queue (update_query_ctx f s) = run_queue s
   \<and> prepared_drivers (update_query_ctx f s) = prepared_drivers s
   \<and> this_fragment_ctx (update_query_ctx f s) = this_fragment_ctx s
   \<and> this_query_ctx (update_query_ctx f s) = this_query_ctx s
   \<and> this_wg (update_query_ctx f s) = this_wg s
   \<and> driver_limiter (update_query_ctx f s) = driver_limiter s"
  by (simp add: update_query_ctx_def split: option.splits)

lemma fail_cleanup_keeps:
  "run_queue (fail_cleanup b s) = run_queue s
   \<and> prepared_drivers (fail_cleanup b s) = prepared_drivers s
   \<and> this_query_ctx (fail_cleanup b s) = this_query_ctx s"
  by (simp add: fail_cleanup_def count_down_fragments_keeps update_query_ctx_keeps Let_def
      split: option.splits)

lemma fail_cleanup_resets:
  "this_query_ctx s \<noteq> None \<Longrightarrow> this_fragment_ctx (fail_cleanup b s) = None"
  by (auto simp add: fail_cleanup_def count_down_fragments_keeps Let_def split: option.splits)

lemma fail_cleanup_null: "this_query_ctx s = None \<Longrightarrow> fail_cleanup b s = s"
  by (simp add: fail_cleanup_def)

lemma registered_count_down:
  "registered qid fid (count_down_fragments s) \<Longrightarrow> registered qid fid s"
  by (auto simp add: registered_def count_down_fragments_def split: option.splits if_splits)

lemma registered_update_query_ctx:
  "(\<And>q. fragment_mgr (f q) = fragment_mgr q) \<Longrightarrow>
   registered qid fid (update_query_ctx f s) = registered qid fid s"
  by (auto simp add: registered_def update_query_ctx_def split: option.splits)

lemma not_registered_unregister:
  "this_query_ctx s = Some qid \<Longrightarrow> \<not> registered qid fid (update_query_ctx (unregister fid) s)"
  by (auto simp add: registered_def update_query_ctx_def unregister_def split: option.splits)

lemma registered_fields:
  "registered qid fid (s\<lparr>this_fragment_ctx := x\<rparr>) = registered qid fid s"
  "registered qid fid (s\<lparr>driver_limiter := y\<rparr>) = registered qid fid s"
  "registered qid fid (s\<lparr>this_wg := w\<rparr>) = registered qid fid s"
  "registered qid fid (s\<lparr>this_query_ctx := z\<rparr>) = registered qid fid s"
  "registered qid fid (s\<lparr>prepared_drivers := u\<rparr>) = registered qid fid s"
  "registered qid fid (s\<lparr>run_queue := v\<rparr>) = registered qid fid s"
  by (simp_all add: registered_def)


lemma fail_cleanup_True_unregisters:
  assumes "this_query_ctx s = Some qid" "this_fragment_ctx s = Some fc"
  shows "\<not> registered qid (fc_fragment_instance_id fc) (fail_cleanup True s)"
proof
  assume "registered qid (fc_fragment_instance_id fc) (fail_cleanup True s)"
  then have "registered qid (fc_fragment_instance_id fc)
      (update_query_ctx (unregister (fc_fragment_instance_id fc)) s)"
    using assms
    by (auto simp add: fail_cleanup_def Let_def registered_fields dest!: registered_count_down)
  with not_registered_unregister [OF assms(1)] show False by blast
qed


text \<open>
  C9. \<^verbatim>\<open>execute\<close> visits the drivers of exactly the pipelines whose source operator
  factory is initially active in its adaptive group. It first calls \<^verbatim>\<open>prepare\<close> on them
  in order. If every call succeeds, it returns \<^verbatim>\<open>OK\<close> having prepared and then submitted
  exactly those drivers. If a call fails, it returns that error at once: the drivers up
  to the failing one have been prepared, none has been submitted, and the failure
  cleanup has run, after which the executor holds no fragment context and the fragment
  is no longer in the registry of its query. Drivers of deferred pipelines are neither
  prepared nor submitted.
\<close>

theorem C9_execute:
  assumes "this_fragment_ctx s = Some fragment_ctx"
  shows
    "(set (active_drivers fragment_ctx) =
       (\<Union>p \<in> {p \<in> set (pipelines fragment_ctx). \<not> deferred fragment_ctx p}.
           set (drivers (pipeline_store fragment_ctx p))))
     \<and> ((\<forall>d \<in> set (active_drivers fragment_ctx). driver_prepare exec_env d = OK) \<longrightarrow>
       execute exec_env s =
         (OK, s\<lparr>prepared_drivers := prepared_drivers s @ active_drivers fragment_ctx,
                 run_queue := run_queue s @ active_drivers fragment_ctx\<rparr>))
     \<and> (active_drivers fragment_ctx = pre @ d # post
         \<and> (\<forall>x \<in> set pre. driver_prepare exec_env x = OK) \<and> driver_prepare exec_env d = Error e \<longrightarrow>
       execute exec_env s =
         (Error e, fail_cleanup True (s\<lparr>prepared_drivers := prepared_drivers s @ pre @ [d]\<rparr>))
       \<and> prepared_drivers (snd (execute exec_env s)) = prepared_drivers s @ pre @ [d]
       \<and> run_queue (snd (execute exec_env s)) = run_queue s
       \<and> (this_query_ctx s = Some qid \<longrightarrow>
            this_fragment_ctx (snd (execute exec_env s)) = None
            \<and> \<not> registered qid (fc_fragment_instance_id fragment_ctx) (snd (execute exec_env s))))"
proof (intro conjI)
  show "set (active_drivers fragment_ctx) =
       (\<Union>p \<in> {p \<in> set (pipelines fragment_ctx). \<not> deferred fragment_ctx p}.
           set (drivers (pipeline_store fragment_ctx p)))"
    by (rule set_active_drivers)
  show "(\<forall>d \<in> set (active_drivers fragment_ctx). driver_prepare exec_env d = OK) \<longrightarrow>
       execute exec_env s =
         (OK, s\<lparr>prepared_drivers := prepared_drivers s @ active_drivers fragment_ctx,
                 run_queue := run_queue s @ active_drivers fragment_ctx\<rparr>)"
    using assms
    by (simp add: execute_def Let_def prepare_drivers_all_OK submit_drivers_eq)
  show "active_drivers fragment_ctx = pre @ d # post
         \<and> (\<forall>x \<in> set pre. driver_prepare exec_env x = OK) \<and> driver_prepare exec_env d = Error e \<longrightarrow>
       execute exec_env s =
         (Error e, fail_cleanup True (s\<lparr>prepared_drivers := prepared_drivers s @ pre @ [d]\<rparr>))
       \<and> prepared_drivers (snd (execute exec_env s)) = prepared_drivers s @ pre @ [d]
       \<and> run_queue (snd (execute exec_env s)) = run_queue s
       \<and> (this_query_ctx s = Some qid \<longrightarrow>
            this_fragment_ctx (snd (execute exec_env s)) = None
            \<and> \<not> registered qid (fc_fragment_instance_id fragment_ctx) (snd (execute exec_env s)))"
  proof (rule impI)
    assume a: "active_drivers fragment_ctx = pre @ d # post
         \<and> (\<forall>x \<in> set pre. driver_prepare exec_env x = OK) \<and> driver_prepare exec_env d = Error e"
    let ?s1 = "s\<lparr>prepared_drivers := prepared_drivers s @ pre @ [d]\<rparr>"
    from a have "prepare_drivers exec_env (active_drivers fragment_ctx) s = (Error e, ?s1)"
      by (simp add: prepare_drivers_first_error)
    with assms have ex: "execute exec_env s = (Error e, fail_cleanup True ?s1)"
      by (simp add: execute_def Let_def)
    have f1: "this_fragment_ctx ?s1 = Some fragment_ctx" using assms by simp
    have "this_query_ctx s = Some qid \<Longrightarrow>
            this_fragment_ctx (fail_cleanup True ?s1) = None
            \<and> \<not> registered qid (fc_fragment_instance_id fragment_ctx) (fail_cleanup True ?s1)"
      using fail_cleanup_resets [of ?s1 True] fail_cleanup_True_unregisters [of ?s1 qid fragment_ctx] f1
      by simp
    then show "execute exec_env s =
         (Error e, fail_cleanup True (s\<lparr>prepared_drivers := prepared_drivers s @ pre @ [d]\<rparr>))
       \<and> prepared_drivers (snd (execute exec_env s)) = prepared_drivers s @ pre @ [d]
       \<and> run_queue (snd (execute exec_env s)) = run_queue s
       \<and> (this_query_ctx s = Some qid \<longrightarrow>
            this_fragment_ctx (snd (execute exec_env s)) = None
            \<and> \<not> registered qid (fc_fragment_instance_id fragment_ctx) (snd (execute exec_env s)))"
      unfolding ex by (simp add: fail_cleanup_keeps)
  qed
qed

subsection \<open>The steps of prepare\<close>

lemma and_then_assoc:
  "and_then (and_then r f) g = and_then r (\<lambda>s. and_then (f s) g)"
  by (cases r) (auto simp add: and_then_def split: Status.splits)

lemma prepare_steps_split:
  "prepare_steps exec_env request s =
     and_then (before_admission exec_env request s)
       (\<lambda>s. and_then (acquire_driver_token s) (after_admission exec_env request))"
  unfolding prepare_steps_def before_admission_def after_admission_def prepare_pipeline_driver_def
    and_then_assoc ..

lemma and_then_cases:
  "and_then r f = (st, s') \<Longrightarrow>
     (\<exists>e. r = (Error e, s') \<and> st = Error e) \<or> (\<exists>s1. r = (OK, s1) \<and> f s1 = (st, s'))"
  by (cases r) (auto simp add: and_then_def split: Status.splits)


lemma in_preparationI:
  "this_query_ctx s = Some (query_id request) \<Longrightarrow>
   \<not> registered (query_id request) (fragment_instance_id request) s \<Longrightarrow>
   this_fragment_ctx s = Some fc \<Longrightarrow>
   fc_fragment_instance_id fc = fragment_instance_id request \<Longrightarrow> driver_token fc = None \<Longrightarrow>
   (\<And>p. degree_of_parallelism (pipeline_store fc p) = degree_of_parallelism (builder_pipelines exec_env p)) \<Longrightarrow>
   in_preparation exec_env request s"
  by (simp add: in_preparation_def)

lemma in_preparationD:
  assumes "in_preparation exec_env request s"
  obtains fc where "this_query_ctx s = Some (query_id request)"
    "\<not> registered (query_id request) (fragment_instance_id request) s"
    "this_fragment_ctx s = Some fc"
    "fc_fragment_instance_id fc = fragment_instance_id request" "driver_token fc = None"
    "\<And>p. degree_of_parallelism (pipeline_store fc p) = degree_of_parallelism (builder_pipelines exec_env p)"
  using assms by (auto simp add: in_preparation_def split: option.splits)

lemma prepare_query_ctx_frame:
  assumes "prepare_query_ctx exec_env request s = (st, s')"
  shows "driver_limiter s' = driver_limiter s"
    and "st = OK \<Longrightarrow> this_query_ctx s' = Some (query_id request)
            \<and> \<not> registered (query_id request) (fragment_instance_id request) s'"
    and "st \<noteq> OK \<Longrightarrow> s' = s \<and> st = Error DuplicateRpcInvocation
            \<and> registered (query_id request) (fragment_instance_id request) s"
proof -
  let ?qid = "query_id request" and ?fid = "fragment_instance_id request"
  have reg: "\<not> registered ?qid ?fid s \<Longrightarrow>
      \<not> registered ?qid ?fid ((get_or_register ?qid s)\<lparr>this_query_ctx := Some ?qid\<rparr>)"
    by (auto simp add: registered_def get_or_register_def Let_def QueryContext_new_def
        split: option.splits)
  have lim: "driver_limiter ((get_or_register ?qid s)\<lparr>this_query_ctx := Some ?qid\<rparr>) = driver_limiter s"
    and q: "this_query_ctx ((get_or_register ?qid s)\<lparr>this_query_ctx := Some ?qid\<rparr>) = Some ?qid"
    by (simp_all add: get_or_register_def Let_def)
  show "driver_limiter s' = driver_limiter s"
    using assms lim
    by (auto simp add: prepare_query_ctx_def Let_def update_query_ctx_keeps split: if_splits option.splits)
  show "st = OK \<Longrightarrow> this_query_ctx s' = Some ?qid \<and> \<not> registered ?qid ?fid s'"
    using assms reg q
    by (auto simp add: prepare_query_ctx_def Let_def update_query_ctx_keeps registered_update_query_ctx
        extend_delivery_lifetime_def extend_query_lifetime_def split: if_splits option.splits)
  show "st \<noteq> OK \<Longrightarrow> s' = s \<and> st = Error DuplicateRpcInvocation \<and> registered ?qid ?fid s"
    using assms by (auto simp add: prepare_query_ctx_def Let_def split: if_splits)
qed

lemma prepare_fragment_ctx_frame:
  assumes "prepare_fragment_ctx exec_env request s = (st, s')"
  shows "driver_limiter s' = driver_limiter s \<and> st = OK
    \<and> (this_query_ctx s = Some (query_id request)
         \<and> \<not> registered (query_id request) (fragment_instance_id request) s
       \<longrightarrow> in_preparation exec_env request s')"
  using assms
  by (auto simp add: prepare_fragment_ctx_def Let_def in_preparation_def registered_fields
      FragmentContext_new_def split: option.splits)

lemma prepare_workgroup_frame:
  assumes "prepare_workgroup exec_env request s = (st, s')"
  shows "driver_limiter s' = driver_limiter s
    \<and> (st = OK \<longrightarrow> in_preparation exec_env request s \<longrightarrow> in_preparation exec_env request s')
    \<and> (st \<noteq> OK \<longrightarrow> s' = s)"
  using assms
  by (auto simp add: prepare_workgroup_def Let_def in_preparation_def registered_fields
      update_query_ctx_keeps registered_update_query_ctx split: option.splits Status.splits)


lemma prepare_runtime_state_frame:
  assumes "prepare_runtime_state exec_env request s = (st, s')"
  shows "driver_limiter s' = driver_limiter s
    \<and> (st = OK \<longrightarrow> in_preparation exec_env request s \<longrightarrow> in_preparation exec_env request s')"
  using assms
  by (auto simp add: prepare_runtime_state_def Let_def in_preparation_def registered_fields
      update_query_ctx_keeps registered_update_query_ctx
      split: option.splits Status.splits if_splits prod.splits)

lemma prepare_global_dict_frame:
  assumes "prepare_global_dict exec_env request s = (st, s')"
  shows "s' = s"
  using assms by (auto simp add: prepare_global_dict_def split: if_splits)

lemma prepare_scan_node_frame:
  "fc_fragment_instance_id (fst (fst (snd (prepare_scan_node env req dop etip mode n st))))
     = fc_fragment_instance_id (fst st)
   \<and> driver_token (fst (fst (snd (prepare_scan_node env req dop etip mode n st)))) = driver_token (fst st)
   \<and> pipeline_store (fst (fst (snd (prepare_scan_node env req dop etip mode n st)))) = pipeline_store (fst st)"
  by (simp add: prepare_scan_node_def Let_def split: sum.splits)

lemma prepare_scan_nodes_frame:
  "prepare_scan_nodes env req dop etip mode ns st = (status, st', ns') \<Longrightarrow>
   fc_fragment_instance_id (fst st') = fc_fragment_instance_id (fst st)
   \<and> driver_token (fst st') = driver_token (fst st)
   \<and> pipeline_store (fst st') = pipeline_store (fst st)"
proof (induction ns arbitrary: st status st' ns')
  case Nil then show ?case by simp
next
  case (Cons m ns)
  obtain r st1 n1 where step: "prepare_scan_node env req dop etip mode m st = (r, st1, n1)"
    by (cases "prepare_scan_node env req dop etip mode m st") auto
  have k: "fc_fragment_instance_id (fst st1) = fc_fragment_instance_id (fst st)
      \<and> driver_token (fst st1) = driver_token (fst st) \<and> pipeline_store (fst st1) = pipeline_store (fst st)"
    using prepare_scan_node_frame [of env req dop etip mode m st] step by simp
  show ?case
  proof (cases r)
    case OK
    obtain r2 st2 ns2 where rest: "prepare_scan_nodes env req dop etip mode ns st1 = (r2, st2, ns2)"
      by (cases "prepare_scan_nodes env req dop etip mode ns st1") auto
    with Cons.prems step OK have "st' = st2" by simp
    with Cons.IH [OF rest] k show ?thesis by simp
  next
    case (Error e)
    with Cons.prems step have "st' = st1" by simp
    with k show ?thesis by simp
  qed
qed

lemma set_up_cache_param_frame:
  "fc_fragment_instance_id (set_up_cache_param req fc) = fc_fragment_instance_id fc
   \<and> driver_token (set_up_cache_param req fc) = driver_token fc
   \<and> pipeline_store (set_up_cache_param req fc) = pipeline_store fc"
  by (simp add: set_up_cache_param_def split: option.splits)

lemma set_scan_limit_frame:
  "driver_limiter (set_scan_limit l s) = driver_limiter s
   \<and> this_query_ctx (set_scan_limit l s) = this_query_ctx s
   \<and> registered qid fid (set_scan_limit l s) = registered qid fid s"
  by (simp add: set_scan_limit_def Let_def update_query_ctx_keeps registered_update_query_ctx
      split: option.splits)

lemma prepare_exec_plan_frame:
  assumes "prepare_exec_plan exec_env request s = (st, s')"
  shows "driver_limiter s' = driver_limiter s
    \<and> (st = OK \<longrightarrow> in_preparation exec_env request s \<longrightarrow> in_preparation exec_env request s')"
proof (cases "this_fragment_ctx s")
  case None
  with assms show ?thesis by (simp add: prepare_exec_plan_def in_preparation_def)
next
  case (Some fc)
  show ?thesis
  proof (cases "create_tree exec_env")
    case (Inl e)
    with assms Some show ?thesis by (simp add: prepare_exec_plan_def)
  next
    case (Inr nodes)
    let ?st0 = "(set_up_cache_param request (fc\<lparr>scan_nodes := nodes\<rparr>), requested_shared_scan request)"
    obtain r st1 ns where run: "prepare_scan_nodes exec_env request (calc_dop exec_env request)
        (requested_tablet_internal_parallel request) (requested_parallel_mode request) nodes ?st0
        = (r, st1, ns)"
      by (cases "prepare_scan_nodes exec_env request (calc_dop exec_env request)
        (requested_tablet_internal_parallel request) (requested_parallel_mode request) nodes ?st0") auto
    from prepare_scan_nodes_frame [OF run] set_up_cache_param_frame [of request "fc\<lparr>scan_nodes := nodes\<rparr>"]
    have k: "fc_fragment_instance_id (fst st1) = fc_fragment_instance_id fc"
      "driver_token (fst st1) = driver_token fc" "pipeline_store (fst st1) = pipeline_store fc"
      by simp_all
    show ?thesis
    proof (cases r)
      case OK
      show ?thesis
      proof (cases "scan_limits (chunk_size exec_env) (calc_dop exec_env request) ns (0, 0)")
        case (Inl e)
        with assms Some \<open>create_tree exec_env = Inr nodes\<close> run OK show ?thesis
          by (auto simp add: prepare_exec_plan_def)
      next
        case (Inr limits)
        with assms Some \<open>create_tree exec_env = Inr nodes\<close> run OK
        have s': "s' = set_scan_limit limits
            (s\<lparr>this_fragment_ctx := Some ((fst st1)\<lparr>scan_nodes := ns\<rparr>)\<rparr>)" and st: "st = OK"
          by (simp_all add: prepare_exec_plan_def)
        show ?thesis unfolding s' st using Some k
          by (auto simp add: in_preparation_def set_scan_limit_frame registered_fields)
      qed
    next
      case (Error e)
      with assms Some Inr run show ?thesis by (auto simp add: prepare_exec_plan_def)
    qed
  qed
qed

lemma set_up_sink_frame:
  assumes "set_up_sink exec_env request s = (st, s')"
  shows "driver_limiter s' = driver_limiter s
    \<and> (st = OK \<longrightarrow> in_preparation exec_env request s \<longrightarrow> in_preparation exec_env request s')"
  using assms
  by (auto simp add: set_up_sink_def and_then_def in_preparation_def registered_fields
      update_query_ctx_keeps registered_update_query_ctx
      split: option.splits Status.splits if_splits)


lemma fold_keeps:
  "(\<And>x s. h (f x s) = h s) \<Longrightarrow> h (fold f xs s) = h s"
  by (induction xs arbitrary: s) simp_all

lemma instantiate_pipelines_frame:
  "fc_fragment_instance_id (instantiate_pipelines fc) = fc_fragment_instance_id fc
   \<and> driver_token (instantiate_pipelines fc) = driver_token fc
   \<and> pipelines (instantiate_pipelines fc) = pipelines fc
   \<and> (\<forall>p. degree_of_parallelism (pipeline_store (instantiate_pipelines fc) p)
          = degree_of_parallelism (pipeline_store fc p))"
proof -
  let ?h = "\<lambda>fc. (fc_fragment_instance_id fc, driver_token fc)"
  let ?fc1 = "fold set_morsel_queue_factory (pipelines fc) fc"
  let ?st = "fold instantiate_or_defer (pipelines fc) ([], ?fc1)"
  have h1: "?h ?fc1 = ?h fc"
    using fold_keeps [of ?h set_morsel_queue_factory "pipelines fc" fc]
    by (simp add: set_morsel_queue_factory_def Let_def)
  have h2: "?h (snd ?st) = ?h ?fc1"
    using fold_keeps [of "\<lambda>st. ?h (snd st)" instantiate_or_defer "pipelines fc" "([], ?fc1)"]
    by (simp add: instantiate_or_defer_def Let_def)
  note k = fold_set_morsel_queue_factory_keeps [of "pipelines fc" fc]
  note f = fold_instantiate_or_defer [of "pipelines fc" "[]" ?fc1]
  have snd_frame: "?h (snd ?st) = ?h fc" "pipelines (snd ?st) = pipelines fc"
    "\<And>p. degree_of_parallelism (pipeline_store (snd ?st) p) = degree_of_parallelism (pipeline_store fc p)"
    using h1 h2 f k by simp_all
  have dist: "distinct (map fst (fst ?st))" using f by simp
  note ev = fold_set_group_initialize_event [OF dist, of "snd ?st"]
  have "instantiate_pipelines fc = snd ?st
      \<or> instantiate_pipelines fc = fold set_group_initialize_event (fst ?st) (snd ?st)"
    using k by (simp add: instantiate_pipelines_def Let_def create_adaptive_group_initialize_events_def)
  then show ?thesis
    using snd_frame ev by auto
qed

lemma set_up_pipelines_frame:
  assumes "set_up_pipelines exec_env s = (st, s')"
  shows "driver_limiter s' = driver_limiter s
    \<and> (st = OK \<longrightarrow> in_preparation exec_env request s \<longrightarrow>
          in_preparation exec_env request s'
          \<and> (\<exists>fc. this_fragment_ctx s' = Some fc \<and> total_dop fc = fragment_total_dop exec_env))"
proof (cases "this_fragment_ctx s")
  case None
  with assms show ?thesis by (simp add: set_up_pipelines_def in_preparation_def)
next
  case (Some fc)
  let ?fc1 = "fc\<lparr>pipelines := builder_build exec_env\<rparr>"
  let ?fc2 = "instantiate_pipelines ?fc1"
  note fr = instantiate_pipelines_frame [of ?fc1]
  show ?thesis
  proof (cases "prepare_all_pipelines exec_env")
    case (Error e)
    with assms Some show ?thesis by (auto simp add: set_up_pipelines_def and_then_def)
  next
    case OK
    with assms Some have s': "s' = s\<lparr>this_fragment_ctx := Some ?fc2\<rparr>" and st: "st = OK"
      by (simp_all add: set_up_pipelines_def and_then_def)
    have td: "(\<forall>p. degree_of_parallelism (pipeline_store fc p)
                  = degree_of_parallelism (builder_pipelines exec_env p))
        \<Longrightarrow> total_dop ?fc2 = fragment_total_dop exec_env"
      using fr by (simp add: total_dop_def fragment_total_dop_def)
    show ?thesis unfolding s' st using Some fr td
      by (auto simp add: in_preparation_def registered_fields)
  qed
qed

lemma acquire_driver_token_cases:
  assumes "this_fragment_ctx s = Some fc"
  shows "acquire_driver_token s =
     (if num_total_drivers (driver_limiter s) + total_dop fc \<le> max_num_drivers (driver_limiter s)
      then (OK, s\<lparr>this_fragment_ctx := Some (fc\<lparr>driver_token := Some (total_dop fc)\<rparr>),
                   driver_limiter := (driver_limiter s)
                     \<lparr>requests := requests (driver_limiter s) @ [total_dop fc],
                      num_total_drivers := num_total_drivers (driver_limiter s) + total_dop fc\<rparr>\<rparr>)
      else (Error ResourceExhausted,
            s\<lparr>driver_limiter := (driver_limiter s)
                  \<lparr>requests := requests (driver_limiter s) @ [total_dop fc]\<rparr>\<rparr>))"
  using assms by (simp add: acquire_driver_token_def try_acquire_cases)


lemma after_admission_OK:
  assumes "after_admission exec_env request s = (OK, s')"
      and "this_query_ctx s = Some qid" and "this_fragment_ctx s = Some fc"
  shows "driver_limiter s' = driver_limiter s \<and> this_fragment_ctx s' = Some fc
     \<and> this_query_ctx s' = Some qid
     \<and> (\<exists>q. query_context_mgr s' qid = Some q \<and> fragment_mgr q (fragment_instance_id request) = Some fc
             \<and> is_prepared q)
     \<and> registered qid (fragment_instance_id request) s'"
  using assms
  by (auto simp add: after_admission_def register_fragment_def register_ctx_def and_then_def
      the_query_ctx_def update_query_ctx_def registered_def
      split: Status.splits option.splits)


lemma before_admission_result:
  assumes "before_admission exec_env request s = (st, s')"
  shows "driver_limiter s' = driver_limiter s
     \<and> (st = OK \<longrightarrow> in_preparation exec_env request s'
           \<and> (\<exists>fc. this_fragment_ctx s' = Some fc \<and> total_dop fc = fragment_total_dop exec_env))"
proof -
  let ?L = "driver_limiter s"
  let ?P = "in_preparation exec_env request"
  note a = assms [unfolded before_admission_def]
  from and_then_cases [OF a] show ?thesis
  proof (elim disjE exE conjE)
    fix e assume "(check_mem_limit exec_env, s) = (Error e, s')" "st = Error e"
    then show ?thesis by simp
  next
    fix s0 assume "(check_mem_limit exec_env, s) = (OK, s0)"
      and a1: "and_then (prepare_query_ctx exec_env request s0) (\<lambda>s.
     and_then (prepare_fragment_ctx exec_env request s) (\<lambda>s.
     and_then (prepare_workgroup exec_env request s) (\<lambda>s.
     and_then (prepare_runtime_state exec_env request s) (\<lambda>s.
     and_then (prepare_global_dict exec_env request s) (\<lambda>s.
     and_then (prepare_exec_plan exec_env request s) (\<lambda>s.
     and_then (set_up_sink exec_env request s) (\<lambda>s.
     set_up_pipelines exec_env s))))))) = (st, s')"
    then have s0: "s0 = s" by simp
    from and_then_cases [OF a1] show ?thesis
    proof (elim disjE exE conjE)
      fix e assume "prepare_query_ctx exec_env request s0 = (Error e, s')" "st = Error e"
      with prepare_query_ctx_frame(1) [of exec_env request s0 "Error e" s'] s0 show ?thesis by simp
    next
      fix s1 assume q: "prepare_query_ctx exec_env request s0 = (OK, s1)"
        and a2: "and_then (prepare_fragment_ctx exec_env request s1) (\<lambda>s.
     and_then (prepare_workgroup exec_env request s) (\<lambda>s.
     and_then (prepare_runtime_state exec_env request s) (\<lambda>s.
     and_then (prepare_global_dict exec_env request s) (\<lambda>s.
     and_then (prepare_exec_plan exec_env request s) (\<lambda>s.
     and_then (set_up_sink exec_env request s) (\<lambda>s.
     set_up_pipelines exec_env s)))))) = (st, s')"
      from prepare_query_ctx_frame(1,2) [OF q] s0
      have l1: "driver_limiter s1 = ?L" and p1: "this_query_ctx s1 = Some (query_id request)"
        "\<not> registered (query_id request) (fragment_instance_id request) s1" by simp_all
      from and_then_cases [OF a2] show ?thesis
      proof (elim disjE exE conjE)
        fix e assume "prepare_fragment_ctx exec_env request s1 = (Error e, s')" "st = Error e"
        with prepare_fragment_ctx_frame [of exec_env request s1 "Error e" s'] show ?thesis by simp
      next
        fix s2 assume f: "prepare_fragment_ctx exec_env request s1 = (OK, s2)"
          and a3: "and_then (prepare_workgroup exec_env request s2) (\<lambda>s.
     and_then (prepare_runtime_state exec_env request s) (\<lambda>s.
     and_then (prepare_global_dict exec_env request s) (\<lambda>s.
     and_then (prepare_exec_plan exec_env request s) (\<lambda>s.
     and_then (set_up_sink exec_env request s) (\<lambda>s.
     set_up_pipelines exec_env s))))) = (st, s')"
        from prepare_fragment_ctx_frame [OF f] l1 p1
        have l2: "driver_limiter s2 = ?L" and p2: "?P s2" by simp_all
        from and_then_cases [OF a3] show ?thesis
        proof (elim disjE exE conjE)
          fix e assume "prepare_workgroup exec_env request s2 = (Error e, s')" "st = Error e"
          with prepare_workgroup_frame [of exec_env request s2 "Error e" s'] l2 show ?thesis by simp
        next
          fix s3 assume w: "prepare_workgroup exec_env request s2 = (OK, s3)"
            and a4: "and_then (prepare_runtime_state exec_env request s3) (\<lambda>s.
     and_then (prepare_global_dict exec_env request s) (\<lambda>s.
     and_then (prepare_exec_plan exec_env request s) (\<lambda>s.
     and_then (set_up_sink exec_env request s) (\<lambda>s.
     set_up_pipelines exec_env s)))) = (st, s')"
          from prepare_workgroup_frame [OF w] l2 p2
          have l3: "driver_limiter s3 = ?L" and p3: "?P s3" by simp_all
          from and_then_cases [OF a4] show ?thesis
          proof (elim disjE exE conjE)
            fix e assume "prepare_runtime_state exec_env request s3 = (Error e, s')" "st = Error e"
            with prepare_runtime_state_frame [of exec_env request s3 "Error e" s'] l3 show ?thesis by simp
          next
            fix s4 assume r: "prepare_runtime_state exec_env request s3 = (OK, s4)"
              and a5: "and_then (prepare_global_dict exec_env request s4) (\<lambda>s.
     and_then (prepare_exec_plan exec_env request s) (\<lambda>s.
     and_then (set_up_sink exec_env request s) (\<lambda>s.
     set_up_pipelines exec_env s))) = (st, s')"
            from prepare_runtime_state_frame [OF r] l3 p3
            have l4: "driver_limiter s4 = ?L" and p4: "?P s4" by simp_all
            from and_then_cases [OF a5] show ?thesis
            proof (elim disjE exE conjE)
              fix e assume "prepare_global_dict exec_env request s4 = (Error e, s')" "st = Error e"
              with prepare_global_dict_frame [of exec_env request s4 "Error e" s'] l4 show ?thesis by simp
            next
              fix s5 assume g: "prepare_global_dict exec_env request s4 = (OK, s5)"
                and a6: "and_then (prepare_exec_plan exec_env request s5) (\<lambda>s.
     and_then (set_up_sink exec_env request s) (\<lambda>s.
     set_up_pipelines exec_env s)) = (st, s')"
              from prepare_global_dict_frame [OF g] l4 p4
              have l5: "driver_limiter s5 = ?L" and p5: "?P s5" by simp_all
              from and_then_cases [OF a6] show ?thesis
              proof (elim disjE exE conjE)
                fix e assume "prepare_exec_plan exec_env request s5 = (Error e, s')" "st = Error e"
                with prepare_exec_plan_frame [of exec_env request s5 "Error e" s'] l5 show ?thesis by simp
              next
                fix s6 assume x: "prepare_exec_plan exec_env request s5 = (OK, s6)"
                  and a7: "and_then (set_up_sink exec_env request s6) (\<lambda>s.
     set_up_pipelines exec_env s) = (st, s')"
                from prepare_exec_plan_frame [OF x] l5 p5
                have l6: "driver_limiter s6 = ?L" and p6: "?P s6" by simp_all
                from and_then_cases [OF a7] show ?thesis
                proof (elim disjE exE conjE)
                  fix e assume "set_up_sink exec_env request s6 = (Error e, s')" "st = Error e"
                  with set_up_sink_frame [of exec_env request s6 "Error e" s'] l6 show ?thesis by simp
                next
                  fix s7 assume k: "set_up_sink exec_env request s6 = (OK, s7)"
                    and a8: "set_up_pipelines exec_env s7 = (st, s')"
                  from set_up_sink_frame [OF k] l6 p6
                  have l7: "driver_limiter s7 = ?L" and p7: "?P s7" by simp_all
                  from set_up_pipelines_frame [OF a8, of request] l7 p7 show ?thesis by simp
                qed
              qed
            qed
          qed
        qed
      qed
    qed
  qed
qed



lemma prepare_eq:
  "prepare exec_env request s =
     (case before_admission exec_env request s of
        (Error e, s1) \<Rightarrow> (Error e, fail_cleanup False s1)
      | (OK, s1) \<Rightarrow>
          (case acquire_driver_token s1 of
             (Error e, s2) \<Rightarrow> (Error e, fail_cleanup False s2)
           | (OK, s2) \<Rightarrow>
               (case after_admission exec_env request s2 of
                  (Error e, s3) \<Rightarrow> (Error e, fail_cleanup False s3)
                | (OK, s3) \<Rightarrow> (OK, s3))))"
proof -
  obtain st1 s1 where b: "before_admission exec_env request s = (st1, s1)"
    by (cases "before_admission exec_env request s")
  obtain st2 s2 where a: "acquire_driver_token s1 = (st2, s2)"
    by (cases "acquire_driver_token s1")
  obtain st3 s3 where f: "after_admission exec_env request s2 = (st3, s3)"
    by (cases "after_admission exec_env request s2")
  show ?thesis
  proof (cases st1)
    case (Error e)
    with b show ?thesis by (simp add: prepare_def prepare_steps_split and_then_def)
  next
    case OK
    note o1 = this
    show ?thesis
    proof (cases st2)
      case (Error e)
      with b a o1 show ?thesis by (simp add: prepare_def prepare_steps_split and_then_def)
    next
      case OK
      with b a f o1 show ?thesis
        by (cases st3) (simp_all add: prepare_def prepare_steps_split and_then_def)
    qed
  qed
qed

lemma prepare_OK_registered:
  assumes "prepare exec_env request s = (OK, s')"
  shows "registered (query_id request) (fragment_instance_id request) s'"
proof -
  from assms obtain s1 s2 where b: "before_admission exec_env request s = (OK, s1)"
    and a: "acquire_driver_token s1 = (OK, s2)" and f: "after_admission exec_env request s2 = (OK, s')"
    by (auto simp add: prepare_eq split: prod.splits Status.splits)
  from before_admission_result [OF b] have "in_preparation exec_env request s1" by simp
  then obtain fc where q: "this_query_ctx s1 = Some (query_id request)"
    and fc: "this_fragment_ctx s1 = Some fc" by (rule in_preparationD)
  from a acquire_driver_token_cases [OF fc] q
  have "this_query_ctx s2 = Some (query_id request)" "this_fragment_ctx s2 \<noteq> None"
    by (auto split: if_splits)
  then obtain fc2 where "this_fragment_ctx s2 = Some fc2" by auto
  from after_admission_OK [OF f \<open>this_query_ctx s2 = Some (query_id request)\<close> this]
  show ?thesis by simp
qed

text \<open>
  C1. On a new executor, which holds no query context yet, a \<^verbatim>\<open>prepare\<close> for a query id
  and a fragment instance id under which a fragment context is already registered
  changes nothing: the query context with its deadlines, the registry and the registered
  fragment context are as they were. It returns \<open>DuplicateRpcInvocation\<close> when the
  process-wide memory check at its head passes, and the error of that check otherwise.
  In particular, after a successful \<^verbatim>\<open>prepare\<close>, a second \<^verbatim>\<open>prepare\<close> for the same two ids
  on a new executor is such a duplicate. \<^verbatim>\<open>_prepare_query_ctx\<close> itself answers a
  registered fragment with \<open>DuplicateRpcInvocation\<close> and an unchanged state.
\<close>

theorem C1_duplicate_invocation:
  "(registered (query_id request) (fragment_instance_id request) s \<and> this_query_ctx s = None \<longrightarrow>
      prepare exec_env request s =
        (if check_mem_limit exec_env = OK then Error DuplicateRpcInvocation
         else check_mem_limit exec_env, s))
   \<and> (prepare exec_env' request' s0 = (OK, s)
        \<and> query_id request = query_id request'
        \<and> fragment_instance_id request = fragment_instance_id request' \<longrightarrow>
      prepare exec_env request (new_executor s) =
        (if check_mem_limit exec_env = OK then Error DuplicateRpcInvocation
         else check_mem_limit exec_env, new_executor s))
   \<and> (registered (query_id request) (fragment_instance_id request) s \<longrightarrow>
      prepare_query_ctx exec_env request s = (Error DuplicateRpcInvocation, s))"
proof -
  have dup: "prepare exec_env request t =
        (if check_mem_limit exec_env = OK then Error DuplicateRpcInvocation
         else check_mem_limit exec_env, t)"
    if r: "registered (query_id request) (fragment_instance_id request) t"
      and n: "this_query_ctx t = None" for t
  proof (cases "check_mem_limit exec_env")
    case OK
    with r have "prepare_steps exec_env request t = (Error DuplicateRpcInvocation, t)"
      by (simp add: prepare_steps_def and_then_def prepare_query_ctx_def)
    with OK n show ?thesis by (simp add: prepare_def fail_cleanup_null)
  next
    case (Error e)
    then have "prepare_steps exec_env request t = (Error e, t)"
      by (simp add: prepare_steps_def and_then_def)
    with Error n show ?thesis by (simp add: prepare_def fail_cleanup_null)
  qed
  show ?thesis
  proof (intro conjI impI)
    assume "registered (query_id request) (fragment_instance_id request) s \<and> this_query_ctx s = None"
    then show "prepare exec_env request s =
        (if check_mem_limit exec_env = OK then Error DuplicateRpcInvocation
         else check_mem_limit exec_env, s)"
      by (intro dup) blast+
  next
    assume a: "prepare exec_env' request' s0 = (OK, s)
        \<and> query_id request = query_id request'
        \<and> fragment_instance_id request = fragment_instance_id request'"
    then have "registered (query_id request) (fragment_instance_id request) s"
      using prepare_OK_registered [of exec_env' request' s0 s] by simp
    then have r: "registered (query_id request) (fragment_instance_id request) (new_executor s)"
      by (simp add: new_executor_def registered_def)
    have n: "this_query_ctx (new_executor s) = None" by (simp add: new_executor_def)
    from dup [OF r n]
    show "prepare exec_env request (new_executor s) =
        (if check_mem_limit exec_env = OK then Error DuplicateRpcInvocation
         else check_mem_limit exec_env, new_executor s)" .
  next
    assume "registered (query_id request) (fragment_instance_id request) s"
    then show "prepare_query_ctx exec_env request s = (Error DuplicateRpcInvocation, s)"
      by (simp add: prepare_query_ctx_def)
  qed
qed

subsection \<open>Admission\<close>


section \<open>The properties on the concrete inputs\<close>

text \<open>
  Each property above that has a hypothesis is applied here to the concrete inputs of the
  section on concrete inputs, with its hypotheses discharged by evaluation.
\<close>

theorem C1_duplicate_invocation_witness:
  "prepare env0 request0 state0 = (OK, snd (prepare env0 request0 state0))
   \<and> check_mem_limit env0 = OK
   \<and> check_mem_limit env_mem_limit = Error (CollaboratorError 3)
   \<and> registered (query_id request0) (fragment_instance_id request0)
        (new_executor (snd (prepare env0 request0 state0)))
   \<and> this_query_ctx (new_executor (snd (prepare env0 request0 state0))) = None
   \<and> prepare_query_ctx env0 request0 (new_executor (snd (prepare env0 request0 state0)))
        = (Error DuplicateRpcInvocation, new_executor (snd (prepare env0 request0 state0)))
   \<and> prepare env0 request0 (new_executor (snd (prepare env0 request0 state0)))
        = (Error DuplicateRpcInvocation, new_executor (snd (prepare env0 request0 state0)))
   \<and> prepare env_mem_limit request0 (new_executor (snd (prepare env0 request0 state0)))
        = (Error (CollaboratorError 3), new_executor (snd (prepare env0 request0 state0)))"
proof -
  let ?s = "snd (prepare env0 request0 state0)"
  have "fst (prepare env0 request0 state0) = OK" by code_simp
  then have eq: "prepare env0 request0 state0 = (OK, ?s)" by (simp add: prod_eq_iff)
  have mem: "check_mem_limit env0 = OK" by code_simp
  have mem2: "check_mem_limit env_mem_limit = Error (CollaboratorError 3)"
    by (simp add: env_mem_limit_def)
  have reg: "registered (query_id request0) (fragment_instance_id request0) (new_executor ?s)"
    by code_simp
  have nq: "this_query_ctx (new_executor ?s) = None" by (simp add: new_executor_def)
  note A = C1_duplicate_invocation [of request0 "new_executor ?s" env0 env0 request0 state0]
  note B = C1_duplicate_invocation [of request0 "new_executor ?s" env_mem_limit env0 request0 state0]
  have hyp: "registered (query_id request0) (fragment_instance_id request0) (new_executor ?s)
      \<and> this_query_ctx (new_executor ?s) = None"
    using reg nq by (intro conjI)
  have r1: "prepare env0 request0 (new_executor ?s) = (Error DuplicateRpcInvocation, new_executor ?s)"
    using A [THEN conjunct1, THEN mp, OF hyp] unfolding mem by simp
  have r2: "prepare env_mem_limit request0 (new_executor ?s)
      = (Error (CollaboratorError 3), new_executor ?s)"
    using B [THEN conjunct1, THEN mp, OF hyp] unfolding mem2 by simp
  have r3: "prepare_query_ctx env0 request0 (new_executor ?s)
      = (Error DuplicateRpcInvocation, new_executor ?s)"
    using A [THEN conjunct2, THEN conjunct2, THEN mp, OF reg] .
  show ?thesis
    using eq mem mem2 reg nq r3 r1 r2 by (intro conjI)
qed

text \<open>
  Two duplicate calls that do not behave as a duplicate call on a new executor whose
  memory check passes. With a failing memory check the call returns the error of the
  check. On the executor that has just prepared the fragment, a second \<^verbatim>\<open>prepare\<close>
  returns \<open>DuplicateRpcInvocation\<close>, and its deferred cleanup then counts the fragment
  down, after which the fragment registered by the first call is no longer registered.
\<close>

theorem C1_duplicate_invocation_counterexample:
  "registered (query_id request0) (fragment_instance_id request0)
      (new_executor (snd (prepare env0 request0 state0)))
   \<and> fst (prepare env_mem_limit request0 (new_executor (snd (prepare env0 request0 state0))))
       = Error (CollaboratorError 3)
   \<and> registered (query_id request0) (fragment_instance_id request0) (snd (prepare env0 request0 state0))
   \<and> fst (prepare env0 request0 (snd (prepare env0 request0 state0))) = Error DuplicateRpcInvocation
   \<and> \<not> registered (query_id request0) (fragment_instance_id request0)
         (snd (prepare env0 request0 (snd (prepare env0 request0 state0))))"
  by code_simp


theorem C3_deferred_pipelines_witness:
  "deferred fragment_ctx_built 1
   \<and> drivers (pipeline_store fragment_ctx_built 1) = []
   \<and> drivers (pipeline_store (instantiate_pipelines fragment_ctx_built) 1) = []
   \<and> 0 \<in> set (pipelines fragment_ctx_built) \<and> \<not> deferred fragment_ctx_built 0
   \<and> drivers (pipeline_store (instantiate_pipelines fragment_ctx_built) 0)
       = [Driver 0 0, Driver 0 1, Driver 0 2, Driver 0 3]
   \<and> deferred_group fragment_ctx_built 0 = [1]
   \<and> group_initialize_event (op_store (instantiate_pipelines fragment_ctx_built) 0)
       = Some \<lparr>event_pipelines = [1], dependencies = [20, 10]\<rparr>
   \<and> deferred_group fragment_ctx_built 1 = []
   \<and> group_initialize_event (op_store (instantiate_pipelines fragment_ctx_built) 1) = None
   \<and> map_of (unready_pipeline_groups_of fragment_ctx_built) 0 = Some [1]
   \<and> map_of (unready_pipeline_groups_of fragment_ctx_built) 1 = None
   \<and> unready_pipeline_groups_of fragment_ctx_built = [(0, [1])]
   \<and> fst (prepare_pipeline_driver env0 request0
             (state_before_plan\<lparr>this_fragment_ctx := Some fragment_ctx_built\<rparr>)) = OK
   \<and> map_option driver_token
        (this_fragment_ctx (snd (prepare_pipeline_driver env0 request0
             (state_before_plan\<lparr>this_fragment_ctx := Some fragment_ctx_built\<rparr>)))) = Some (Some 6)"
proof -
  let ?fc = fragment_ctx_built
  let ?s = "state_before_plan\<lparr>this_fragment_ctx := Some fragment_ctx_built\<rparr>"
  let ?s' = "snd (prepare_pipeline_driver env0 request0 ?s)"
  have d1: "deferred ?fc 1" and e1: "drivers (pipeline_store ?fc 1) = []"
    and d0: "0 \<in> set (pipelines ?fc)" "\<not> deferred ?fc 0"
    and g0: "deferred_group ?fc 0 = [1]" and g1: "deferred_group ?fc 1 = []"
    by code_simp+
  have v0: "map (Driver 0) [0..<degree_of_parallelism (pipeline_store ?fc 0)]
      = [Driver 0 0, Driver 0 1, Driver 0 2, Driver 0 3]" by code_simp
  have v1: "spec_group_dependencies ?fc 0 = [20, 10]" by code_simp
  have v2: "group_initialize_event (op_store ?fc 1) = None" by code_simp
  have ok: "fst (prepare_pipeline_driver env0 request0 ?s) = OK" by code_simp
  then have eq: "prepare_pipeline_driver env0 request0 ?s = (OK, ?s')" by (simp add: prod_eq_iff)
  have fc: "this_fragment_ctx ?s = Some ?fc" by simp
  have v3: "total_dop (instantiate_pipelines (?fc\<lparr>pipelines := builder_build env0\<rparr>)) = 6"
    by code_simp
  note A = C3_deferred_pipelines [of ?fc 1 0 env0 request0 ?s ?s']
  note B = C3_deferred_pipelines [of ?fc 0 1 env0 request0 ?s ?s']
  from A d1 e1 have r1: "drivers (pipeline_store (instantiate_pipelines ?fc) 1) = []" by blast
  from B d0 v0 have r2: "drivers (pipeline_store (instantiate_pipelines ?fc) 0)
       = [Driver 0 0, Driver 0 1, Driver 0 2, Driver 0 3]" by simp
  from A g0 v1 have r3: "group_initialize_event (op_store (instantiate_pipelines ?fc) 0)
       = Some \<lparr>event_pipelines = [1], dependencies = [20, 10]\<rparr>" by simp
  from B g1 v2 have r4: "group_initialize_event (op_store (instantiate_pipelines ?fc) 1) = None"
    by simp
  from A eq fc v3 have r5: "map_option driver_token (this_fragment_ctx ?s') = Some (Some 6)"
    by simp
  from A g0 have r6: "map_of (unready_pipeline_groups_of ?fc) 0 = Some [1]" by simp
  from B g1 have r7: "map_of (unready_pipeline_groups_of ?fc) 1 = None" by simp
  have r8: "unready_pipeline_groups_of ?fc = [(0, [1])]" by code_simp
  from d1 e1 d0 g0 g1 ok r1 r2 r3 r4 r5 r6 r7 r8 show ?thesis by blast
qed

theorem C4_scan_limit_witness:
  "0 < sint (limit scan_node1) \<and> 0 < sint (4096 :: 32 word)
   \<and> sint (limit scan_node1) + sint (4096 :: 32 word) - 1 < 2 ^ 63
   \<and> spec_physical_term 4096 4 scan_node1 = 32768
   \<and> scan_limits 4096 4 [scan_node1] (0, 0) = Inr (10, 32768)
   \<and> normalized_limit 4096 (limit scan_node1) = Inr 4096
   \<and> sint (32768 :: 64 word) = 32768
   \<and> (\<exists>n \<in> set [scan_node1\<lparr>limit := 0\<rparr>]. sint (limit n) \<le> 0)
   \<and> (\<exists>physical. scan_limits 4096 4 [scan_node1\<lparr>limit := 0\<rparr>] (0, 0) = Inr (- 1, physical))
   \<and> fst (prepare_exec_plan env0 request0 state_before_plan) = OK
   \<and> map_option scan_limit (the_query_ctx (snd (prepare_exec_plan env0 request0 state_before_plan)))
       = Some 32768
   \<and> query_context_mgr (snd (prepare_exec_plan env0 request0 (state_before_plan\<lparr>this_wg := None\<rparr>)))
       = query_context_mgr (state_before_plan\<lparr>this_wg := None\<rparr>)"
proof -
  let ?s = state_before_plan
  let ?s' = "snd (prepare_exec_plan env0 request0 ?s)"
  let ?t = "state_before_plan\<lparr>this_wg := None\<rparr>"
  let ?t' = "snd (prepare_exec_plan env0 request0 ?t)"
  let ?q = "QueryContext_new\<lparr>num_active_fragments := 1\<rparr>"
  let ?wg = "get_default_workgroup env0"
  let ?u = "scan_node1\<lparr>limit := 0\<rparr>"
  have p: "0 < sint (limit scan_node1) \<and> 0 < sint (4096 :: 32 word)
      \<and> sint (limit scan_node1) + sint (4096 :: 32 word) - 1 < 2 ^ 63"
    by (simp add: scan_node1_def)
  have t: "spec_physical_term 4096 4 scan_node1 = 32768"
    by (simp add: spec_physical_term_def scan_node1_def)
  have rng: "- (2 ^ 63) \<le> spec_physical_term 4096 4 scan_node1
      \<and> spec_physical_term 4096 4 scan_node1 < 2 ^ 63"
    unfolding t by simp
  have u: "\<exists>n \<in> set [?u]. sint (limit n) \<le> 0" by simp
  have nz: "(4096 :: 32 word) \<noteq> 0" by simp
  have ok: "fst (prepare_exec_plan env0 request0 ?s) = OK" by code_simp
  then have eq: "prepare_exec_plan env0 request0 ?s = (OK, ?s')" by (simp add: prod_eq_iff)
  have ok2: "fst (prepare_exec_plan env0 request0 ?t) = OK" by code_simp
  then have eq2: "prepare_exec_plan env0 request0 ?t = (OK, ?t')" by (simp add: prod_eq_iff)
  have tree: "create_tree env0 = Inr [scan_node1]" by (simp add: env0_def)
  have wg: "this_wg ?s = Some ?wg" "0 < sint (big_query_scan_rows_limit ?wg)"
    by (simp_all add: state_before_plan_def env0_def)
  have q: "the_query_ctx ?s = Some ?q"
    by (simp add: state_before_plan_def the_query_ctx_def state0_def)
  have nowg: "this_wg ?t = None" by simp
  have cd: "chunk_size env0 = 4096" "calc_dop env0 request0 = 4" by code_simp+
  note A = C4_scan_limit [of scan_node1 4096 4 "[]" 0 0 "[scan_node1]" "[?u]"
             env0 request0 ?s ?s' "[scan_node1]" ?wg ?q]
  note B = C4_scan_limit [of scan_node1 4096 4 "[]" 0 0 "[scan_node1]" "[?u]"
             env0 request0 ?t ?t']
  note A1 = A [THEN conjunct1, THEN mp, OF p]
  have r1: "scan_limits 4096 4 [scan_node1] (0, 0) = Inr (10, 32768)"
    using A1 [THEN conjunct1] unfolding t by (simp add: scan_node1_def)
  have r2: "normalized_limit 4096 (limit scan_node1) = Inr 4096"
    using A1 [THEN conjunct2, THEN conjunct1] by (simp add: scan_node1_def)
  have r3: "sint (32768 :: 64 word) = 32768"
    using A1 [THEN conjunct2, THEN conjunct2, THEN conjunct2, THEN conjunct2, THEN conjunct2,
              THEN mp, OF rng]
    unfolding t by simp
  have r4: "\<exists>physical. scan_limits 4096 4 [?u] (0, 0) = Inr (- 1, physical)"
    using A [THEN conjunct2, THEN conjunct2, THEN conjunct1] u nz by blast
  have hyp: "prepare_exec_plan env0 request0 ?s = (OK, ?s') \<and> create_tree env0 = Inr [scan_node1]
        \<and> this_wg ?s = Some ?wg \<and> 0 < sint (big_query_scan_rows_limit ?wg) \<and> the_query_ctx ?s = Some ?q"
    using eq tree wg q by (intro conjI)
  from A [THEN conjunct2, THEN conjunct2, THEN conjunct2, THEN conjunct1, THEN mp, OF hyp]
  obtain logical physical where
    l: "scan_limits (chunk_size env0) (calc_dop env0 request0) [scan_node1] (0, 0) = Inr (logical, physical)"
    and r: "the_query_ctx ?s' =
                 Some (?q\<lparr>scan_limit :=
                   (if 0 \<le> sint logical \<and> sint logical \<le> sint (big_query_scan_rows_limit ?wg)
                    then int64_max (big_query_scan_rows_limit ?wg) physical
                    else big_query_scan_rows_limit ?wg)\<rparr>)"
    by blast
  from l r1 have lp: "logical = 10" "physical = 32768" unfolding cd by simp_all
  have v: "(if 0 \<le> sint (10 :: 64 word) \<and> sint (10 :: 64 word) \<le> sint (big_query_scan_rows_limit ?wg)
            then int64_max (big_query_scan_rows_limit ?wg) 32768
            else big_query_scan_rows_limit ?wg) = 32768"
    by (simp add: env0_def int64_max_def)
  from r have "the_query_ctx ?s' = Some (?q\<lparr>scan_limit := 32768\<rparr>)"
    unfolding lp v .
  then have r5: "map_option scan_limit (the_query_ctx ?s') = Some 32768" by simp
  have hyp2: "prepare_exec_plan env0 request0 ?t = (OK, ?t')
        \<and> (this_wg ?t = None \<or> (\<exists>wg. this_wg ?t = Some wg \<and> sint (big_query_scan_rows_limit wg) \<le> 0))"
    using eq2 nowg by blast
  have r6: "query_context_mgr ?t' = query_context_mgr ?t"
    using B [THEN conjunct2, THEN conjunct2, THEN conjunct2, THEN conjunct2, THEN conjunct2,
             THEN mp, OF hyp2] .
  show ?thesis
    using p t r1 r2 r3 u r4 ok r5 r6 by (intro conjI) blast+
qed

text \<open>
  At a limit of \<open>2 ^ 62\<close> with chunk size 4096, dop 4 and 2 io tasks, the term of the
  specification is \<open>2 ^ 65\<close>, while the 64-bit product the code adds to the physical scan
  limit is 0; under a ceiling of \<^verbatim>\<open>INT64_MAX\<close> the scan limit of the query becomes the
  ceiling, which is less than that term.
\<close>

theorem C4_scan_limit_counterexample:
  "0 < sint (limit scan_node_huge) \<and> 0 < sint (4096 :: 32 word)
   \<and> spec_physical_term 4096 4 scan_node_huge = 36893488147419103232
   \<and> scan_limits 4096 4 [scan_node_huge] (0, 0) = Inr (4611686018427387904, 0)
   \<and> sint (0 :: 64 word) \<noteq> spec_physical_term 4096 4 scan_node_huge
   \<and> chunk_size env_huge = 4096 \<and> calc_dop env_huge request0 = 4
   \<and> fst (prepare_exec_plan env_huge request0 state_huge) = OK
   \<and> map_option (\<lambda>q. sint (scan_limit q))
        (the_query_ctx (snd (prepare_exec_plan env_huge request0 state_huge)))
       = Some 9223372036854775807
   \<and> max (9223372036854775807 :: int) (spec_physical_term 4096 4 scan_node_huge)
       \<noteq> 9223372036854775807"
proof -
  have t: "spec_physical_term 4096 4 scan_node_huge = 36893488147419103232"
    by (simp add: spec_physical_term_def scan_node_huge_def)
  have a: "0 < sint (limit scan_node_huge)" "0 < sint (4096 :: 32 word)"
    by (simp_all add: scan_node_huge_def)
  have b: "scan_limits 4096 4 [scan_node_huge] (0, 0) = Inr (4611686018427387904, 0)"
    by code_simp
  have c: "chunk_size env_huge = 4096" "calc_dop env_huge request0 = 4"
    "fst (prepare_exec_plan env_huge request0 state_huge) = OK"
    by code_simp+
  have d: "map_option (\<lambda>q. sint (scan_limit q))
        (the_query_ctx (snd (prepare_exec_plan env_huge request0 state_huge)))
       = Some 9223372036854775807"
    by code_simp
  show ?thesis unfolding t using a b c d t by simp
qed

theorem C5_cache_excludes_shared_scan_witness:
  "requested_shared_scan request_cache
   \<and> fst (prepare_exec_plan env0 request_cache state_before_plan) = OK
   \<and> (\<exists>fc. this_fragment_ctx (snd (prepare_exec_plan env0 request_cache state_before_plan)) = Some fc
          \<and> enable_cache fc \<and> length (scan_nodes fc) = 1
          \<and> (\<forall>n \<in> set (scan_nodes fc). \<not> shared_scan n))"
proof -
  let ?s' = "snd (prepare_exec_plan env0 request_cache state_before_plan)"
  have rq: "requested_shared_scan request_cache" by code_simp
  have ok: "fst (prepare_exec_plan env0 request_cache state_before_plan) = OK" by code_simp
  then have eq: "prepare_exec_plan env0 request_cache state_before_plan = (OK, ?s')"
    by (simp add: prod_eq_iff)
  have "map_option (\<lambda>fc. (enable_cache fc, length (scan_nodes fc))) (this_fragment_ctx ?s')
        = Some (True, 1)" by code_simp
  then obtain fc where fc: "this_fragment_ctx ?s' = Some fc" and c: "enable_cache fc"
    and l: "length (scan_nodes fc) = 1" by auto
  from C5_cache_excludes_shared_scan [OF eq fc c]
  have "\<forall>n \<in> set (scan_nodes fc). \<not> shared_scan n" by blast
  with rq ok fc c l show ?thesis by blast
qed

theorem C6_empty_per_lane_ranges_disable_cache_witness:
  "cache_param request_cache_no_lanes \<noteq> None
   \<and> fst (prepare_exec_plan env0 request_cache_no_lanes state_before_plan) = OK
   \<and> create_tree env0 = Inr [scan_node1]
   \<and> per_driver_seq_scan_ranges_of_node request_cache_no_lanes (node_id scan_node1) = []
   \<and> (\<exists>fc. this_fragment_ctx (snd (prepare_exec_plan env0 request_cache_no_lanes state_before_plan))
              = Some fc \<and> \<not> enable_cache fc)
   \<and> enable_cache (set_up_cache_param request_cache_no_lanes fragment_ctx0)
   \<and> \<not> enable_cache (fst (fst (snd (prepare_scan_nodes env0 request_cache_no_lanes 4 False AUTO
          [scan_node1] (set_up_cache_param request_cache_no_lanes fragment_ctx0, True)))))
   \<and> \<not> enable_cache (fst (fst (snd (prepare_scan_nodes env0 request_cache 4 False AUTO
          [scan_node1]
          (fst (snd (prepare_scan_nodes env0 request_cache_no_lanes 4 False AUTO
                  [scan_node1] (set_up_cache_param request_cache_no_lanes fragment_ctx0, True))))))))"
proof -
  let ?r = request_cache_no_lanes
  let ?s' = "snd (prepare_exec_plan env0 ?r state_before_plan)"
  let ?st = "(set_up_cache_param ?r fragment_ctx0, True)"
  let ?run1 = "prepare_scan_nodes env0 ?r 4 False AUTO [scan_node1] ?st"
  let ?st1 = "fst (snd ?run1)"
  let ?run2 = "prepare_scan_nodes env0 ?r 4 False AUTO [] ?st1"
  have cp: "cache_param ?r \<noteq> None" by (simp add: request_cache_no_lanes_def)
  have ok: "fst (prepare_exec_plan env0 ?r state_before_plan) = OK" by code_simp
  then have eq: "prepare_exec_plan env0 ?r state_before_plan = (OK, ?s')" by (simp add: prod_eq_iff)
  have tree: "create_tree env0 = Inr [scan_node1]" by (simp add: env0_def)
  have em: "per_driver_seq_scan_ranges_of_node ?r (node_id scan_node1) = []" by code_simp
  have c0: "enable_cache (set_up_cache_param ?r fragment_ctx0)" by code_simp
  have "fst ?run1 = OK" by code_simp
  then have run1: "?run1 = (OK, ?st1, snd (snd ?run1))" by (simp add: prod_eq_iff)
  have run2: "?run2 = (OK, ?st1, [])" by simp
  note A = C6_empty_per_lane_ranges_disable_cache
             [of env0 ?r state_before_plan ?s' "[scan_node1]" scan_node1 4 False AUTO "[scan_node1]" ?st
                 ?st1 "snd (snd ?run1)" "[]" OK ?st1 "[]"]
  from A eq tree em have r1: "\<exists>fc. this_fragment_ctx ?s' = Some fc \<and> \<not> enable_cache fc" by simp
  from A run1 run2 em have r2: "\<not> enable_cache (fst ?st1)" by simp
  have "\<not> enable_cache (fst (fst (snd (prepare_scan_nodes env0 request_cache 4 False AUTO
          [scan_node1] ?st1))))"
    by code_simp
  with cp ok tree em r1 c0 r2 show ?thesis by blast
qed

theorem C7_cache_key_prefix_witness:
  "internal_scan_range (scan_range scan_range57) = Some \<lparr>tablet_id = 5, partition_id = 7\<rparr>
   \<and> tcache_region_map (fragment_cache_param request_cache) 7 = Some [1, 2, 3]
   \<and> enable_cache (set_up_cache_param request_cache fragment_ctx0)
   \<and> node_id scan_node1 \<in> cached_plan_node_ids (fc_cache_param (set_up_cache_param request_cache fragment_ctx0))
   \<and> scan_ranges_of_all_driver_seqs request_cache scan_node1 = [scan_range57]
   \<and> cache_key_prefixes
        (compute_cache_key_prefix (fragment_cache_param request_cache) scan_range57
           (fc_cache_param fragment_ctx0)) 5
       = Some [7, 0, 0, 0, 0, 0, 0, 0, 1, 2, 3, 5, 0, 0, 0, 0, 0, 0, 0]
   \<and> length [7, 0, 0, 0, 0, 0, 0, 0, 1, 2, 3, 5, 0, 0, 0, 0, 0, 0, 0 :: 8 word] = 8 + length [1, 2, 3 :: 8 word] + 8
   \<and> compute_cache_key_prefix (fragment_cache_param request_cache)
        \<lparr>scan_range = \<lparr>internal_scan_range = None\<rparr>\<rparr> (fc_cache_param fragment_ctx0)
       = fc_cache_param fragment_ctx0
   \<and> compute_cache_key_prefix (fragment_cache_param request0) scan_range57 (fc_cache_param fragment_ctx0)
       = fc_cache_param fragment_ctx0
   \<and> after_scan_node_prefixes env0 request_cache 4 False AUTO scan_node1
        (set_up_cache_param request_cache fragment_ctx0) False 5
       = Some [7, 0, 0, 0, 0, 0, 0, 0, 1, 2, 3, 5, 0, 0, 0, 0, 0, 0, 0]
   \<and> after_scan_node_prefixes env0 request_cache 4 False AUTO scan_node1
        (set_up_cache_param request_cache fragment_ctx0) False 9 = None"
proof -
  let ?isr = "\<lparr>tablet_id = 5, partition_id = 7\<rparr> :: TInternalScanRange"
  let ?tc = "fragment_cache_param request_cache"
  let ?fc = "set_up_cache_param request_cache fragment_ctx0"
  let ?cp = "fc_cache_param fragment_ctx0"
  let ?no = "\<lparr>scan_range = \<lparr>internal_scan_range = None\<rparr>\<rparr> :: TScanRangeParams"
  let ?key = "[7, 0, 0, 0, 0, 0, 0, 0, 1, 2, 3, 5, 0, 0, 0, 0, 0, 0, 0] :: 8 word list"
  have i: "internal_scan_range (scan_range scan_range57) = Some ?isr" by (simp add: scan_range57_def)
  have p: "partition_id ?isr = 7" and t: "tablet_id ?isr = 5" by simp_all
  have rg7: "tcache_region_map ?tc 7 = Some [1, 2, 3]"
    by (simp add: fragment_cache_param_def request_cache_def cache_param1_def)
  have rg: "tcache_region_map ?tc (partition_id ?isr) = Some [1, 2, 3]"
    unfolding p by (rule rg7)
  have rg0: "tcache_region_map (fragment_cache_param request0) (partition_id ?isr) = None"
    by (simp add: fragment_cache_param_def request0_def TCacheParam_default_def)
  have en: "enable_cache ?fc" by code_simp
  have ci: "node_id scan_node1 \<in> cached_plan_node_ids (fc_cache_param ?fc)" by code_simp
  have rs: "scan_ranges_of_all_driver_seqs request_cache scan_node1 = [scan_range57]" by code_simp
  have mem: "scan_range57 \<in> set (scan_ranges_of_all_driver_seqs request_cache scan_node1)"
    unfolding rs by simp
  have bytes: "int64_bytes (partition_id ?isr) @ [1, 2, 3] @ int64_bytes (tablet_id ?isr) = ?key"
    unfolding p t by code_simp
  have old: "cache_key_prefixes (fc_cache_param ?fc) 9 = None" by code_simp
  have ni: "internal_scan_range (scan_range ?no) = None" by simp
  note A = C7_cache_key_prefix [of scan_range57 ?isr request_cache "[1, 2, 3]" ?cp
             env0 4 False AUTO scan_node1 ?fc False 9]
  note B = C7_cache_key_prefix [of ?no ?isr request_cache "[1, 2, 3]" ?cp]
  note C = C7_cache_key_prefix [of scan_range57 ?isr request0 "[1, 2, 3]" ?cp]
  have r1: "cache_key_prefixes (compute_cache_key_prefix ?tc scan_range57 ?cp) (tablet_id ?isr)
       = Some ?key"
    using A [THEN conjunct1, rule_format, OF conjI, OF i rg, THEN conjunct1]
    unfolding bytes .
  have r2: "length ?key = 8 + length [1, 2, 3 :: 8 word] + 8" by simp
  have r3: "compute_cache_key_prefix ?tc ?no ?cp = ?cp"
    using B [THEN conjunct2, THEN conjunct1, rule_format, OF ni] .
  have r4: "compute_cache_key_prefix (fragment_cache_param request0) scan_range57 ?cp = ?cp"
    using C [THEN conjunct2, THEN conjunct2, THEN conjunct1, rule_format, OF conjI, OF i rg0] .
  have cons: "\<forall>r' \<in> set (scan_ranges_of_all_driver_seqs request_cache scan_node1). \<forall>isr'.
              internal_scan_range (scan_range r') = Some isr' \<and> tablet_id isr' = tablet_id ?isr
              \<longrightarrow> partition_id isr' = partition_id ?isr"
    unfolding rs by (simp add: scan_range57_def)
  have hyp5: "enable_cache ?fc \<and> node_id scan_node1 \<in> cached_plan_node_ids (fc_cache_param ?fc)
        \<and> scan_range57 \<in> set (scan_ranges_of_all_driver_seqs request_cache scan_node1)
        \<and> internal_scan_range (scan_range scan_range57) = Some ?isr
        \<and> tcache_region_map ?tc (partition_id ?isr) = Some [1, 2, 3]
        \<and> (\<forall>r' \<in> set (scan_ranges_of_all_driver_seqs request_cache scan_node1). \<forall>isr'.
              internal_scan_range (scan_range r') = Some isr' \<and> tablet_id isr' = tablet_id ?isr
              \<longrightarrow> partition_id isr' = partition_id ?isr)"
    using en ci mem i rg cons by (intro conjI)
  have r5: "after_scan_node_prefixes env0 request_cache 4 False AUTO scan_node1 ?fc False (tablet_id ?isr)
       = Some ?key"
    using A [THEN conjunct2, THEN conjunct2, THEN conjunct2, THEN conjunct2, THEN conjunct1,
             THEN mp, OF hyp5]
    unfolding bytes .
  have none: "\<forall>r' \<in> set (scan_ranges_of_all_driver_seqs request_cache scan_node1). \<forall>isr'.
              internal_scan_range (scan_range r') = Some isr' \<and> tablet_id isr' = 9
              \<longrightarrow> tcache_region_map ?tc (partition_id isr') = None"
    unfolding rs by (simp add: scan_range57_def)
  have hyp6: "enable_cache ?fc \<and> node_id scan_node1 \<in> cached_plan_node_ids (fc_cache_param ?fc)
        \<and> (\<forall>r' \<in> set (scan_ranges_of_all_driver_seqs request_cache scan_node1). \<forall>isr'.
              internal_scan_range (scan_range r') = Some isr' \<and> tablet_id isr' = 9
              \<longrightarrow> tcache_region_map ?tc (partition_id isr') = None)"
    using en ci none by (intro conjI)
  have r6: "after_scan_node_prefixes env0 request_cache 4 False AUTO scan_node1 ?fc False 9 = None"
    using A [THEN conjunct2, THEN conjunct2, THEN conjunct2, THEN conjunct2, THEN conjunct2,
             THEN mp, OF hyp6]
    unfolding old .
  show ?thesis
    using i rg7 en ci rs r1 [unfolded t] r2 r3 r4 r5 [unfolded t] r6 by (intro conjI)
qed

theorem C10_shared_scan_flag_witness:
  "fst (prepare_exec_plan env0 request_shared state_before_plan) = OK
   \<and> this_fragment_ctx state_before_plan = Some fragment_ctx0
   \<and> create_tree env0 = Inr [scan_node1]
   \<and> (\<exists>fc. this_fragment_ctx (snd (prepare_exec_plan env0 request_shared state_before_plan)) = Some fc
          \<and> shared_scan (scan_nodes fc ! 0))
   \<and> requested_shared_scan request_shared
   \<and> (\<exists>st_i ns_i mqf.
          prepare_scan_nodes env0 request_shared (calc_dop env0 request_shared)
            (requested_tablet_internal_parallel request_shared) (requested_parallel_mode request_shared)
            (take 0 [scan_node1])
            (set_up_cache_param request_shared (fragment_ctx0\<lparr>scan_nodes := [scan_node1]\<rparr>),
             requested_shared_scan request_shared) = (OK, st_i, ns_i)
          \<and> \<not> enable_cache (fst (fst (snd (prepare_scan_node env0 request_shared (calc_dop env0 request_shared)
                 (requested_tablet_internal_parallel request_shared) (requested_parallel_mode request_shared)
                 ([scan_node1] ! 0) st_i))))
          \<and> convert_scan_range_to_morsel_queue_factory env0 ([scan_node1] ! 0)
               (scan_ranges_of_node request_shared (node_id ([scan_node1] ! 0)))
               (per_driver_seq_scan_ranges_of_node request_shared (node_id ([scan_node1] ! 0)))
               (node_id ([scan_node1] ! 0)) (calc_dop env0 request_shared)
               (requested_tablet_internal_parallel request_shared) (requested_parallel_mode request_shared) = Inr mqf
          \<and> is_shared mqf)
   \<and> (\<exists>fc. this_fragment_ctx (snd (prepare_exec_plan env0 request0 state_before_plan)) = Some fc
          \<and> \<not> shared_scan (scan_nodes fc ! 0))"
proof -
  let ?s' = "snd (prepare_exec_plan env0 request_shared state_before_plan)"
  have ok: "fst (prepare_exec_plan env0 request_shared state_before_plan) = OK" by code_simp
  then have eq: "prepare_exec_plan env0 request_shared state_before_plan = (OK, ?s')"
    by (simp add: prod_eq_iff)
  have fc0: "this_fragment_ctx state_before_plan = Some fragment_ctx0"
    by (simp add: state_before_plan_def)
  have tree: "create_tree env0 = Inr [scan_node1]" by (simp add: env0_def)
  have "map_option (\<lambda>fc. shared_scan (scan_nodes fc ! 0)) (this_fragment_ctx ?s') = Some True"
    by code_simp
  then obtain fc where fc: "this_fragment_ctx ?s' = Some fc" and sh: "shared_scan (scan_nodes fc ! 0)"
    by auto
  have i: "0 < length [scan_node1]" by simp
  note A = C10_shared_scan_flag [OF eq fc0 tree fc i sh]
  have "map_option (\<lambda>fc. shared_scan (scan_nodes fc ! 0))
          (this_fragment_ctx (snd (prepare_exec_plan env0 request0 state_before_plan))) = Some False"
    by code_simp
  then have no: "\<exists>fc. this_fragment_ctx (snd (prepare_exec_plan env0 request0 state_before_plan)) = Some fc
          \<and> \<not> shared_scan (scan_nodes fc ! 0)"
    by auto
  from fc sh have ex: "\<exists>fc. this_fragment_ctx ?s' = Some fc \<and> shared_scan (scan_nodes fc ! 0)"
    by blast
  show ?thesis
    using ok fc0 tree ex A [THEN conjunct1] A [THEN conjunct2] no by (intro conjI)
qed

theorem C9_execute_witness:
  "this_query_ctx (snd (prepare env0 request0 state0)) = Some (query_id request0)
   \<and> registered (query_id request0) (fragment_instance_id request0) (snd (prepare env0 request0 state0))
   \<and> active_drivers (the (this_fragment_ctx (snd (prepare env0 request0 state0))))
       = [Driver 0 0, Driver 0 1, Driver 0 2, Driver 0 3]
   \<and> deferred (the (this_fragment_ctx (snd (prepare env0 request0 state0)))) 1
   \<and> execute env0 (snd (prepare env0 request0 state0))
       = (OK, (snd (prepare env0 request0 state0))
                \<lparr>prepared_drivers := prepared_drivers (snd (prepare env0 request0 state0))
                    @ [Driver 0 0, Driver 0 1, Driver 0 2, Driver 0 3],
                 run_queue := run_queue (snd (prepare env0 request0 state0))
                    @ [Driver 0 0, Driver 0 1, Driver 0 2, Driver 0 3]\<rparr>)
   \<and> prepared_drivers (snd (prepare env0 request0 state0)) = []
   \<and> run_queue (snd (prepare env0 request0 state0)) = []
   \<and> fst (execute env_driver_fails (snd (prepare env0 request0 state0))) = Error (CollaboratorError 7)
   \<and> prepared_drivers (snd (execute env_driver_fails (snd (prepare env0 request0 state0))))
       = [Driver 0 0, Driver 0 1]
   \<and> run_queue (snd (execute env_driver_fails (snd (prepare env0 request0 state0)))) = []
   \<and> this_fragment_ctx (snd (execute env_driver_fails (snd (prepare env0 request0 state0)))) = None
   \<and> \<not> registered (query_id request0) (fragment_instance_id request0)
         (snd (execute env_driver_fails (snd (prepare env0 request0 state0))))"
proof -
  let ?s = "snd (prepare env0 request0 state0)"
  let ?fc = "the (this_fragment_ctx ?s)"
  let ?ds = "[Driver 0 0, Driver 0 1, Driver 0 2, Driver 0 3]"
  have q: "this_query_ctx ?s = Some (query_id request0)" by code_simp
  have reg: "registered (query_id request0) (fragment_instance_id request0) ?s" by code_simp
  have "map_option (\<lambda>fc. (active_drivers fc, deferred fc 1, fc_fragment_instance_id fc))
           (this_fragment_ctx ?s) = Some (?ds, True, fragment_instance_id request0)" by code_simp
  then obtain fc where fc: "this_fragment_ctx ?s = Some fc" and ad: "active_drivers fc = ?ds"
    and df: "deferred fc 1" and fid: "fc_fragment_instance_id fc = fragment_instance_id request0"
    by auto
  from fc have the: "?fc = fc" by simp
  have pd: "prepared_drivers ?s = []" by code_simp
  have rq: "run_queue ?s = []" by code_simp
  have all_ok: "\<forall>d \<in> set (active_drivers fc). driver_prepare env0 d = OK"
    by (simp add: env0_def)
  have split: "active_drivers fc = [Driver 0 0] @ Driver 0 1 # [Driver 0 2, Driver 0 3]"
    unfolding ad by simp
  have pre_ok: "\<forall>x \<in> set [Driver 0 0]. driver_prepare env_driver_fails x = OK"
    by (simp add: env_driver_fails_def)
  have fails: "driver_prepare env_driver_fails (Driver 0 1) = Error (CollaboratorError 7)"
    by (simp add: env_driver_fails_def)
  note A = C9_execute [OF fc, of env0]
  note B = C9_execute [OF fc, of env_driver_fails "[Driver 0 0]" "Driver 0 1"
                         "[Driver 0 2, Driver 0 3]" "CollaboratorError 7" "query_id request0"]
  have r1: "execute env0 ?s = (OK, ?s\<lparr>prepared_drivers := prepared_drivers ?s @ ?ds,
                 run_queue := run_queue ?s @ ?ds\<rparr>)"
    using A [THEN conjunct2, THEN conjunct1, THEN mp, OF all_ok] unfolding ad .
  have hyp: "active_drivers fc = [Driver 0 0] @ Driver 0 1 # [Driver 0 2, Driver 0 3]
         \<and> (\<forall>x \<in> set [Driver 0 0]. driver_prepare env_driver_fails x = OK)
         \<and> driver_prepare env_driver_fails (Driver 0 1) = Error (CollaboratorError 7)"
    using split pre_ok fails by (intro conjI)
  note R = B [THEN conjunct2, THEN conjunct2, THEN mp, OF hyp]
  from R [THEN conjunct1]
  have r2: "fst (execute env_driver_fails ?s) = Error (CollaboratorError 7)" by simp
  from R [THEN conjunct2, THEN conjunct1]
  have r3: "prepared_drivers (snd (execute env_driver_fails ?s)) = [Driver 0 0, Driver 0 1]"
    unfolding pd by simp
  from R [THEN conjunct2, THEN conjunct2, THEN conjunct1]
  have r4: "run_queue (snd (execute env_driver_fails ?s)) = []"
    unfolding rq .
  from R q have r5: "this_fragment_ctx (snd (execute env_driver_fails ?s)) = None" by blast
  from R q have r6: "\<not> registered (query_id request0) (fragment_instance_id request0)
         (snd (execute env_driver_fails ?s))" unfolding fid by blast
  show ?thesis
    unfolding the using q reg ad df r1 pd rq r2 r3 r4 r5 r6 by (intro conjI)
qed

end
